theory Spec2Isabelle
  imports Complex_Main "HOL-Library.AList"
begin

section \<open>Values of the host language\<close>

text \<open>
  The program is a Node.js script (\<^verbatim>\<open>src/codex_status.js\<close>). Everything it reads from
  disk or from the network is the result of \<^verbatim>\<open>JSON.parse\<close>, so the values it handles are
  JSON values. Numbers are modelled as rationals (every finite double is one; the
  overflow literal that parses to an infinity is left out). An object is an association
  list in insertion order, which is the order \<^verbatim>\<open>JSON.stringify\<close> writes. A value that may
  be \<^verbatim>\<open>undefined\<close> is a \<open>json option\<close> with \<open>None\<close> for \<^verbatim>\<open>undefined\<close>.
\<close>

datatype json =
    JNull
  | JBool bool
  | JNum rat
  | JStr string
  | JArr "json list"
  | JObj "(string \<times> json) list"

type_synonym jsval = "json option"

text \<open>Truthiness, as \<^verbatim>\<open>!x\<close>, \<^verbatim>\<open>x || y\<close> and \<^verbatim>\<open>if (x)\<close> test it.\<close>

fun truthy :: "json \<Rightarrow> bool" where
  "truthy JNull = False"
| "truthy (JBool b) = b"
| "truthy (JNum n) = (n \<noteq> 0)"
| "truthy (JStr s) = (s \<noteq> [])"
| "truthy (JArr xs) = True"
| "truthy (JObj kvs) = True"

fun js_truthy :: "jsval \<Rightarrow> bool" where
  "js_truthy None = False"
| "js_truthy (Some j) = truthy j"

text \<open>
  Property access \<^verbatim>\<open>v.k\<close> on a value that is neither \<^verbatim>\<open>null\<close> nor \<^verbatim>\<open>undefined\<close>, and
  optional chaining \<^verbatim>\<open>v?.k\<close> on any value: an object gives the field, everything else
  gives \<^verbatim>\<open>undefined\<close> (none of the property names the program reads is inherited from
  a prototype). Where the source reads a property of a value that can be \<^verbatim>\<open>null\<close>
  without \<^verbatim>\<open>?.\<close>, the model raises the TypeError at that place.
\<close>

fun js_get :: "jsval \<Rightarrow> string \<Rightarrow> jsval" where
  "js_get (Some (JObj kvs)) k = map_of kvs k"
| "js_get v k = None"

text \<open>\<^verbatim>\<open>a || b\<close> and \<^verbatim>\<open>a ?? null\<close>.\<close>

definition js_or :: "jsval \<Rightarrow> jsval \<Rightarrow> jsval" where
  "js_or a b = (if js_truthy a then a else b)"

fun nullish :: "jsval \<Rightarrow> json" where
  "nullish None = JNull"
| "nullish (Some j) = j"

text \<open>
  A thrown value: the name, message, \<^verbatim>\<open>status\<close> and \<^verbatim>\<open>code\<close> properties of an Error
  object, which are the four the program reads.
\<close>

datatype jserror =
  JsError (err_name: string) (err_message: string) (err_status: "nat option") (err_code: "string option")

definition abortError :: jserror where
  "abortError = JsError ''AbortError'' ''Aborted'' None None"

definition isAbortError :: "jserror \<Rightarrow> bool" where
  "isAbortError err = (err_name err = ''AbortError'' \<or> err_code err = Some ''ABORT_ERR'')"

text \<open>
  \<^verbatim>\<open>err?.message || String(err)\<close>: the message, or for an empty message the
  error's name, which is what \<^verbatim>\<open>Error.prototype.toString\<close> gives then.
\<close>

definition error_text :: "jserror \<Rightarrow> string" where
  "error_text err = (if err_message err \<noteq> [] then err_message err else err_name err)"

section \<open>Numbers as text\<close>

definition digit_char :: "nat \<Rightarrow> char" where
  "digit_char n = ''0123456789'' ! n"

fun String_nat :: "nat \<Rightarrow> string" where
  "String_nat n =
     (if n < 10 then [digit_char n] else String_nat (n div 10) @ [digit_char (n mod 10)])"

declare String_nat.simps [simp del]

definition String_int :: "int \<Rightarrow> string" where
  "String_int i = (if i < 0 then CHR ''-'' # String_nat (nat (- i)) else String_nat (nat i))"

text \<open>\<^verbatim>\<open>Math.round\<close>: to the nearest integer, a tie going up.\<close>

definition Math_round :: "rat \<Rightarrow> int" where
  "Math_round x = \<lfloor>x + 1 / 2\<rfloor>"

section \<open>Window labels\<close>

text \<open>
  \<^verbatim>\<open>humanizeWindow(minutes)\<close>, lines 338 to 351, at \<^verbatim>\<open>null\<close> and at an integer. Its
  caller passes \<^verbatim>\<open>null\<close> or \<^verbatim>\<open>Math.ceil(windowSeconds / 60)\<close>, which is an integer unless
  \<^verbatim>\<open>windowSeconds\<close> converts to no finite number; what the function returns then is
  \<open>humanizeWindow_of\<close> below.
\<close>

definition humanizeWindow :: "int option \<Rightarrow> string" where
  "humanizeWindow minutes =
     (let MINUTES_PER_HOUR = 60 :: int;
          MINUTES_PER_DAY = 24 * MINUTES_PER_HOUR;
          MINUTES_PER_WEEK = 7 * MINUTES_PER_DAY;
          MINUTES_PER_MONTH = 30 * MINUTES_PER_DAY
      in case minutes of
           None \<Rightarrow> ''unknown''
         | Some m \<Rightarrow>
             if m \<le> MINUTES_PER_DAY then
               (let hours = max 1 (Math_round (of_int m / of_int MINUTES_PER_HOUR))
                in String_int hours @ ''h'')
             else if m \<le> MINUTES_PER_WEEK then ''weekly''
             else if m \<le> MINUTES_PER_MONTH then ''monthly''
             else ''annual'')"

section \<open>Numbers that are not finite\<close>

text \<open>
  A number as a computation of the program can yield it: a finite value, an infinity,
  or \<^verbatim>\<open>NaN\<close>. The numbers of a JSON text are finite, but a string such as
  \<^verbatim>\<open>"Infinity"\<close> or \<^verbatim>\<open>"soon"\<close> converts to one that is not. The finite values are rationals,
  or integers where the program has rounded, and the arithmetic on them is exact here,
  where that of the program rounds to the nearest double.
\<close>

datatype 'a number = NaN | Fin 'a | PosInf | NegInf

text \<open>
  The product or quotient of a number and a positive constant (\<^verbatim>\<open>x / 60\<close> is
  \<open>times_positive (1 / 60) x\<close>), \<^verbatim>\<open>Math.ceil(x)\<close>, and \<^verbatim>\<open>Math.max(0, 100 - x)\<close>.
\<close>

fun times_positive :: "rat \<Rightarrow> rat number \<Rightarrow> rat number" where
  "times_positive c (Fin q) = Fin (c * q)"
| "times_positive c x = x"

fun Math_ceil :: "rat number \<Rightarrow> int number" where
  "Math_ceil (Fin q) = Fin \<lceil>q\<rceil>"
| "Math_ceil NaN = NaN"
| "Math_ceil PosInf = PosInf"
| "Math_ceil NegInf = NegInf"

fun Math_max_0_100_minus :: "rat number \<Rightarrow> rat number" where
  "Math_max_0_100_minus NaN = NaN"
| "Math_max_0_100_minus (Fin q) = Fin (max 0 (100 - q))"
| "Math_max_0_100_minus PosInf = Fin 0"
| "Math_max_0_100_minus NegInf = PosInf"

text \<open>
  \<^verbatim>\<open>humanizeWindow(minutes)\<close> at a number: at an integer as above. Every comparison with
  \<^verbatim>\<open>NaN\<close> is false, which leads to the last \<^verbatim>\<open>return\<close>, as the comparisons with the
  positive infinity do; at the negative infinity the first comparison holds and
  \<^verbatim>\<open>Math.max(1, -Infinity)\<close> is 1.
\<close>

fun humanizeWindow_of :: "int number \<Rightarrow> string" where
  "humanizeWindow_of (Fin m) = humanizeWindow (Some m)"
| "humanizeWindow_of NaN = ''annual''"
| "humanizeWindow_of PosInf = ''annual''"
| "humanizeWindow_of NegInf = ''1h''"

section \<open>The platform and the outside world\<close>

text \<open>
  What the script takes from Node.js and from its surroundings is a parameter of the
  model, gathered in one record:
  \<^item> \<open>Buffer_from_base64\<close> is \<^verbatim>\<open>Buffer.from(s, 'base64').toString('utf8')\<close>, which never
    throws;
  \<^item> \<open>JSON_parse\<close> is \<^verbatim>\<open>JSON.parse\<close> (and \<^verbatim>\<open>res.json()\<close>), \<open>Inl\<close> holding the message
    of the SyntaxError it throws;
  \<^item> \<open>JSON_stringify_2\<close> is \<^verbatim>\<open>JSON.stringify(v, null, 2)\<close>, the pretty-printer;
  \<^item> \<open>toISOString\<close> renders a time in milliseconds as \<^verbatim>\<open>new Date(t).toISOString()\<close>;
  \<^item> \<open>StringToNumber\<close> is the number a string converts to, in \<^verbatim>\<open>Number(s)\<close> and in
    arithmetic, and \<open>Number_toString\<close> is the text of a finite number;
  \<^item> \<open>path_resolve\<close> is \<^verbatim>\<open>path.resolve\<close>;
  \<^item> \<open>REFRESH_URL_OVERRIDE\<close> is the environment variable
    \<^verbatim>\<open>CODEX_REFRESH_TOKEN_URL_OVERRIDE\<close>;
  \<^item> \<open>quit_at\<close> is the time at which the quit key is pressed, which aborts the signal
    and resolves the quit promise (\<open>None\<close>: never);
  \<^item> \<open>token_endpoint\<close> and \<open>usage_endpoint\<close> answer a request, given everything sent
    and written so far: how long the answer takes and what it is;
  \<^item> \<open>write_error\<close> is the error of \<^verbatim>\<open>fs.writeFile\<close> on a path, if it fails;
  \<^item> \<open>timer_lag\<close> is by how much a timer armed at a given time fires late.
\<close>

datatype response = Response (res_status: nat) (res_statusText: string) (res_body: string)

datatype fetch_result = Rejected jserror | Responded response

datatype event =
    TokenPost json
  | UsageGet jsval jsval
  | FileWrite string string

record env =
  Buffer_from_base64 :: "string \<Rightarrow> string"
  JSON_parse :: "string \<Rightarrow> string + json"
  JSON_stringify_2 :: "json \<Rightarrow> string"
  toISOString :: "int \<Rightarrow> string"
  StringToNumber :: "string \<Rightarrow> rat number"
  Number_toString :: "rat \<Rightarrow> string"
  path_resolve :: "string \<Rightarrow> string"
  REFRESH_URL_OVERRIDE :: "string option"
  quit_at :: "int option"
  token_endpoint :: "event list \<Rightarrow> json \<Rightarrow> nat \<times> fetch_result"
  usage_endpoint :: "event list \<Rightarrow> jsval \<Rightarrow> jsval \<Rightarrow> nat \<times> fetch_result"
  write_error :: "event list \<Rightarrow> string \<Rightarrow> jserror option"
  timer_lag :: "int \<Rightarrow> nat"

text \<open>
  The state the script acts on: the files, the clock (\<^verbatim>\<open>Date.now()\<close>, in milliseconds)
  and the requests sent and files written so far, oldest first. Time passes only while
  the script waits: for an answer from the network, or for a timer.
\<close>

record world =
  files :: "string \<Rightarrow> string option"
  clock :: int
  trace :: "event list"

type_synonym 'a io = "(jserror + 'a) \<times> world"

section \<open>Constants\<close>

definition BASE_URL :: string where
  "BASE_URL = ''https://chatgpt.com/backend-api''"

definition REFRESH_ENDPOINT :: "env \<Rightarrow> string" where
  "REFRESH_ENDPOINT e =
     (case REFRESH_URL_OVERRIDE e of
        None \<Rightarrow> ''https://auth.openai.com/oauth/token''
      | Some u \<Rightarrow> if u \<noteq> [] then u else ''https://auth.openai.com/oauth/token'')"

definition EXP_SKEW_SECONDS :: rat where
  "EXP_SKEW_SECONDS = 60"

definition REFRESH_INTERVAL_MS :: int where
  "REFRESH_INTERVAL_MS = 30000"

definition POLL_INTERVAL_MS :: int where
  "POLL_INTERVAL_MS = 500"

section \<open>Cancellation\<close>

text \<open>
  \<^verbatim>\<open>signal.aborted\<close>: the only caller of \<^verbatim>\<open>abort()\<close> is the quit key's handler, so the
  signal is aborted from the time of the key press on. \<^verbatim>\<open>ensureNotAborted\<close> (lines 560
  to 564) throws the error of \<^verbatim>\<open>abortError()\<close> then.
\<close>

definition aborted :: "env \<Rightarrow> world \<Rightarrow> bool" where
  "aborted e w = (case quit_at e of None \<Rightarrow> False | Some q \<Rightarrow> q \<le> clock w)"

definition ensureNotAborted :: "env \<Rightarrow> world \<Rightarrow> jserror option" where
  "ensureNotAborted e w = (if aborted e w then Some abortError else None)"

section \<open>Token codec\<close>

text \<open>\<^verbatim>\<open>token.split('.')\<close>: one more part than there are separators.\<close>

fun split_on :: "char \<Rightarrow> string \<Rightarrow> string list" where
  "split_on c [] = [[]]"
| "split_on c (x # xs) =
     (if x = c then [] # split_on c xs
      else (case split_on c xs of
              [] \<Rightarrow> [[x]]
            | p # ps \<Rightarrow> (x # p) # ps))"

text \<open>\<^verbatim>\<open>base64UrlDecode(segment)\<close>, lines 368 to 373.\<close>

definition base64UrlDecode :: "env \<Rightarrow> string \<Rightarrow> string" where
  "base64UrlDecode e segment =
     (let padLength = (4 - (length segment mod 4)) mod 4;
          padded = segment @ replicate padLength (CHR ''='');
          normalized =
            map (\<lambda>c. if c = CHR ''_'' then CHR ''/'' else c)
              (map (\<lambda>c. if c = CHR ''-'' then CHR ''+'' else c) padded)
      in Buffer_from_base64 e normalized)"

text \<open>
  \<^verbatim>\<open>decodeJwtPayload(token)\<close>, lines 259 to 265: \<^verbatim>\<open>null\<close> for a token that is not a
  string or has fewer than two parts, otherwise whatever \<^verbatim>\<open>JSON.parse\<close> makes of the
  decoded second part, which may be its SyntaxError.
\<close>

definition SyntaxError :: "string \<Rightarrow> jserror" where
  "SyntaxError msg = JsError ''SyntaxError'' msg None None"

definition TypeError :: "string \<Rightarrow> jserror" where
  "TypeError msg = JsError ''TypeError'' msg None None"

definition Error :: "string \<Rightarrow> jserror" where
  "Error msg = JsError ''Error'' msg None None"

definition decodeJwtPayload :: "env \<Rightarrow> jsval \<Rightarrow> jserror + json" where
  "decodeJwtPayload e token =
     (case token of
        Some (JStr s) \<Rightarrow>
          (let parts = split_on (CHR ''.'') s in
           if length parts < 2 then Inr JNull
           else (case JSON_parse e (base64UrlDecode e (parts ! 1)) of
                   Inl msg \<Rightarrow> Inl (SyntaxError msg)
                 | Inr payload \<Rightarrow> Inr payload))
      | _ \<Rightarrow> Inr JNull)"

text \<open>
  \<^verbatim>\<open>shouldRefreshNow(accessToken)\<close>, lines 248 to 257, with the reading of
  \<^verbatim>\<open>Date.now()\<close> as the argument \<open>now_ms\<close>. The \<^verbatim>\<open>catch\<close> turns every error into \<^verbatim>\<open>false\<close>.
\<close>

definition shouldRefreshNow :: "env \<Rightarrow> int \<Rightarrow> jsval \<Rightarrow> bool" where
  "shouldRefreshNow e now_ms accessToken =
     (case decodeJwtPayload e accessToken of
        Inl err \<Rightarrow> False
      | Inr payload \<Rightarrow>
          (if \<not> truthy payload then False
           else (case js_get (Some payload) ''exp'' of
                   Some (JNum expiry) \<Rightarrow>
                     (let now = now_ms div 1000
                      in of_int now \<ge> expiry - EXP_SKEW_SECONDS)
                 | _ \<Rightarrow> False)))"

text \<open>
  \<^verbatim>\<open>decodeIdToken(raw)\<close>, lines 353 to 366. The result is \<^verbatim>\<open>{}\<close> (both fields
  \<^verbatim>\<open>undefined\<close>) or \<^verbatim>\<open>{ email, auth }\<close>. Indexing a parsed \<^verbatim>\<open>null\<close> throws inside the
  \<^verbatim>\<open>try\<close>, which gives \<^verbatim>\<open>{}\<close> like a SyntaxError does. The warning on the console is
  not part of the model.
\<close>

record identity =
  id_email :: jsval
  id_auth :: jsval

definition empty_identity :: identity where
  "empty_identity = \<lparr>id_email = None, id_auth = None\<rparr>"

definition decodeIdToken :: "env \<Rightarrow> jsval \<Rightarrow> identity" where
  "decodeIdToken e raw =
     (case raw of
        Some (JStr s) \<Rightarrow>
          (let parts = split_on (CHR ''.'') s in
           if length parts < 2 then empty_identity
           else (case JSON_parse e (base64UrlDecode e (parts ! 1)) of
                   Inl msg \<Rightarrow> empty_identity
                 | Inr parsed \<Rightarrow>
                     if parsed = JNull then empty_identity
                     else
                       \<lparr>id_email = js_or (js_get (Some parsed) ''email'') (Some JNull),
                        id_auth =
                          js_or (js_get (Some parsed) ''https://api.openai.com/auth'')
                            (Some (JObj []))\<rparr>))
      | _ \<Rightarrow> empty_identity)"

section \<open>Requests\<close>

text \<open>
  \<^verbatim>\<open>fetch(url, { ..., signal })\<close>. A request made with an aborted signal is rejected at
  once and nothing is sent. Otherwise the request is sent (and recorded); if the quit
  key is pressed before the answer is there, the call is rejected with an AbortError at
  that moment, else the answer arrives after its delay. Reading the body of the
  response is part of the same wait.
\<close>

definition fetch_abort :: jserror where
  "fetch_abort = JsError ''AbortError'' ''This operation was aborted'' None None"

definition fetch :: "env \<Rightarrow> event \<Rightarrow> nat \<times> fetch_result \<Rightarrow> world \<Rightarrow> response io" where
  "fetch e ev answer w =
     (if aborted e w then (Inl fetch_abort, w)
      else
        (let sent = w\<lparr>trace := trace w @ [ev]\<rparr>;
             arrival = clock w + int (fst answer)
         in if aborted e (sent\<lparr>clock := arrival\<rparr>) then
              (Inl fetch_abort, sent\<lparr>clock := (case quit_at e of Some q \<Rightarrow> q | None \<Rightarrow> arrival)\<rparr>)
            else
              (case snd answer of
                 Rejected err \<Rightarrow> (Inl err, sent\<lparr>clock := arrival\<rparr>)
               | Responded res \<Rightarrow> (Inr res, sent\<lparr>clock := arrival\<rparr>))))"

text \<open>\<^verbatim>\<open>res.ok\<close>, and the error both clients build from a response that is not ok.\<close>

definition res_ok :: "response \<Rightarrow> bool" where
  "res_ok res = (200 \<le> res_status res \<and> res_status res \<le> 299)"

definition http_error :: "string \<Rightarrow> string \<Rightarrow> response \<Rightarrow> jserror" where
  "http_error method url res =
     JsError ''Error''
       (method @ '' '' @ url @ '' failed: '' @ String_nat (res_status res) @ '' ''
          @ res_statusText res @ '' => '' @ res_body res)
       (Some (res_status res)) None"

text \<open>
  \<^verbatim>\<open>requestTokenRefresh(refreshToken, signal)\<close>, lines 291 to 319: one POST to the token
  endpoint.
\<close>

definition requestTokenRefresh :: "env \<Rightarrow> json \<Rightarrow> world \<Rightarrow> json io" where
  "requestTokenRefresh e refreshToken w =
     (case fetch e (TokenPost refreshToken) (token_endpoint e (trace w) refreshToken) w of
        (Inl err, w1) \<Rightarrow> (Inl err, w1)
      | (Inr res, w1) \<Rightarrow>
          if \<not> res_ok res then (Inl (http_error ''POST'' (REFRESH_ENDPOINT e) res), w1)
          else (case JSON_parse e (res_body res) of
                  Inl msg \<Rightarrow> (Inl (SyntaxError msg), w1)
                | Inr v \<Rightarrow> (Inr v, w1)))"

text \<open>
  \<^verbatim>\<open>fetchUsage(accessToken, accountId, signal)\<close>, lines 217 to 238: one GET to the usage
  endpoint, the account id going into a header when it is truthy.
\<close>

definition fetchUsage :: "env \<Rightarrow> jsval \<Rightarrow> json \<Rightarrow> world \<Rightarrow> json io" where
  "fetchUsage e accessToken acct w =
     (case ensureNotAborted e w of
        Some err \<Rightarrow> (Inl err, w)
      | None \<Rightarrow>
          (let usageUrl = BASE_URL @ ''/wham/usage'';
               header = (if truthy acct then Some acct else None)
           in case fetch e (UsageGet accessToken header)
                     (usage_endpoint e (trace w) accessToken header) w of
                (Inl err, w1) \<Rightarrow> (Inl err, w1)
              | (Inr res, w1) \<Rightarrow>
                  if \<not> res_ok res then (Inl (http_error ''GET'' usageUrl res), w1)
                  else (case JSON_parse e (res_body res) of
                          Inl msg \<Rightarrow> (Inl (SyntaxError msg), w1)
                        | Inr v \<Rightarrow> (Inr v, w1))))"

section \<open>Refreshing and persisting the bundle\<close>

text \<open>
  The stored bundle \<^verbatim>\<open>auth\<close> is an object, given by its fields. The assignment
  \<^verbatim>\<open>auth.tokens.k = v\<close> sets the field of the object \<^verbatim>\<open>auth.tokens\<close>; the only caller
  has validated that \<^verbatim>\<open>auth.tokens\<close> is an object, and on a truthy value that is not
  one the model leaves the bundle as it is.
\<close>

type_synonym fields = "(string \<times> json) list"

definition set_token :: "string \<Rightarrow> json \<Rightarrow> fields \<Rightarrow> fields" where
  "set_token k v auth =
     (case map_of auth ''tokens'' of
        Some (JObj tokens) \<Rightarrow> AList.update ''tokens'' (JObj (AList.update k v tokens)) auth
      | _ \<Rightarrow> auth)"

definition missing_refresh_token :: jserror where
  "missing_refresh_token = Error ''Cannot refresh tokens: refresh_token is missing from auth.json.''"

definition no_access_token_returned :: jserror where
  "no_access_token_returned = Error ''Token refresh succeeded but no access_token was returned.''"

text \<open>
  \<^verbatim>\<open>if (!auth.tokens) auth.tokens = {}\<close>, at lines 141 and 277, and
  \<^verbatim>\<open>if (refreshed.k) auth.tokens.k = refreshed.k\<close>, at lines 279 to 284.
\<close>

definition ensureTokens :: "fields \<Rightarrow> fields" where
  "ensureTokens auth =
     (if \<not> js_truthy (map_of auth ''tokens'') then AList.update ''tokens'' (JObj []) auth
      else auth)"

definition setTokenIfReturned :: "string \<Rightarrow> json \<Rightarrow> fields \<Rightarrow> fields" where
  "setTokenIfReturned k refreshed auth =
     (case js_get (Some refreshed) k of
        None \<Rightarrow> auth
      | Some v \<Rightarrow> if truthy v then set_token k v auth else auth)"

text \<open>
  Lines 277 to 285 of \<^verbatim>\<open>refreshTokensAndPersist\<close>: the response \<open>refreshed\<close>, whose
  access token is \<open>access_token\<close>, is merged into the bundle, and the bundle is stamped
  with the time \<open>now_ms\<close> of \<^verbatim>\<open>new Date()\<close>.
\<close>

definition mergeRefreshed :: "env \<Rightarrow> fields \<Rightarrow> json \<Rightarrow> json \<Rightarrow> int \<Rightarrow> fields" where
  "mergeRefreshed e auth refreshed access_token now_ms =
     AList.update ''last_refresh'' (JStr (toISOString e now_ms))
       (setTokenIfReturned ''refresh_token'' refreshed
         (setTokenIfReturned ''id_token'' refreshed
           (set_token ''access_token'' access_token (ensureTokens auth))))"

text \<open>
  \<^verbatim>\<open>refreshTokensAndPersist(authPath, auth, refreshToken, signal)\<close>, lines 267 to 289.
  The source mutates \<^verbatim>\<open>auth\<close> in place and returns \<^verbatim>\<open>auth.tokens\<close>; the model returns
  the mutated \<^verbatim>\<open>auth\<close>, whose \<open>tokens\<close> field is that value. A response that parses to
  \<^verbatim>\<open>null\<close> makes \<^verbatim>\<open>refreshed.access_token\<close> throw a TypeError.
\<close>

definition returnedAccessToken :: "json \<Rightarrow> jserror + json" where
  "returnedAccessToken refreshed =
     (if refreshed = JNull
      then Inl (TypeError (''Cannot read properties of null (reading '' @ [CHR 0x27]
                  @ ''access_token'' @ [CHR 0x27] @ '')''))
      else (case js_get (Some refreshed) ''access_token'' of
              None \<Rightarrow> Inl no_access_token_returned
            | Some access_token \<Rightarrow>
                if \<not> truthy access_token then Inl no_access_token_returned
                else Inr access_token))"

definition refreshTokensAndPersist ::
  "env \<Rightarrow> string \<Rightarrow> fields \<Rightarrow> jsval \<Rightarrow> world \<Rightarrow> fields io" where
  "refreshTokensAndPersist e authPath auth refreshToken w =
     (case refreshToken of
        None \<Rightarrow> (Inl missing_refresh_token, w)
      | Some rt \<Rightarrow>
      if \<not> truthy rt then (Inl missing_refresh_token, w)
      else (case ensureNotAborted e w of
        Some err \<Rightarrow> (Inl err, w)
      | None \<Rightarrow>
      (case requestTokenRefresh e rt w of
        (Inl err, w1) \<Rightarrow> (Inl err, w1)
      | (Inr refreshed, w1) \<Rightarrow>
      (case returnedAccessToken refreshed of
        Inl err \<Rightarrow> (Inl err, w1)
      | Inr access_token \<Rightarrow>
        (let auth5 = mergeRefreshed e auth refreshed access_token (clock w1);
             content = JSON_stringify_2 e (JObj auth5) @ [CHR 0x0A]
         in case write_error e (trace w1) authPath of
              Some err \<Rightarrow> (Inl err, w1)
            | None \<Rightarrow>
                (Inr auth5,
                 w1\<lparr>files := (files w1)(authPath \<mapsto> content),
                    trace := trace w1 @ [FileWrite authPath content]\<rparr>))))))"

section \<open>The account session\<close>

text \<open>\<^verbatim>\<open>readAuth(authPath)\<close>, lines 212 to 215.\<close>

definition readAuth :: "env \<Rightarrow> string \<Rightarrow> world \<Rightarrow> jserror + json" where
  "readAuth e authPath w =
     (case files w authPath of
        None \<Rightarrow>
          Inl (JsError ''Error''
                 (''ENOENT: no such file or directory, open '' @ [CHR 0x27] @ authPath
                    @ [CHR 0x27])
                 None (Some ''ENOENT''))
      | Some raw \<Rightarrow>
          (case JSON_parse e raw of
             Inl msg \<Rightarrow> Inl (SyntaxError msg)
           | Inr v \<Rightarrow> Inr v))"

text \<open>\<^verbatim>\<open>validateTokenBundle(tokens)\<close>, lines 240 to 246.\<close>

definition missing_tokens :: jserror where
  "missing_tokens = Error (''auth.json does not contain ChatGPT tokens ''
     @ ''(expected tokens.access_token). Run `codex login --chatgpt` first.'')"

definition validateTokenBundle :: "jsval \<Rightarrow> jserror option" where
  "validateTokenBundle tokens =
     (if \<not> js_truthy tokens
         \<or> (case js_get tokens ''access_token'' of Some (JStr s) \<Rightarrow> s = [] | _ \<Rightarrow> True)
      then Some missing_tokens else None)"

text \<open>
  Lines 140 to 144 of \<^verbatim>\<open>collectUsageForAuth\<close>: read the bundle, give it an empty
  \<^verbatim>\<open>tokens\<close> object if it has none, validate. A bundle that parses to \<^verbatim>\<open>null\<close> throws on
  \<^verbatim>\<open>auth.tokens\<close>; one that parses to another primitive or to an array ends with
  \<^verbatim>\<open>tokens\<close> undefined or empty, which \<^verbatim>\<open>validateTokenBundle\<close> refuses.
\<close>

definition loadAuth :: "env \<Rightarrow> string \<Rightarrow> world \<Rightarrow> jserror + fields" where
  "loadAuth e authPath w =
     (case readAuth e authPath w of
        Inl err \<Rightarrow> Inl err
      | Inr JNull \<Rightarrow>
          Inl (TypeError (''Cannot read properties of null (reading '' @ [CHR 0x27]
                 @ ''tokens'' @ [CHR 0x27] @ '')''))
      | Inr (JObj parsed) \<Rightarrow>
          (let auth = ensureTokens parsed
           in case validateTokenBundle (map_of auth ''tokens'') of
                Some err \<Rightarrow> Inl err
              | None \<Rightarrow> Inr auth)
      | Inr other \<Rightarrow> Inl missing_tokens)"

text \<open>Line 147: the account id of the bundle, else of the identity token, else \<^verbatim>\<open>null\<close>.\<close>

definition resolveAccountId :: "jsval \<Rightarrow> identity \<Rightarrow> json" where
  "resolveAccountId tokens ident =
     nullish (js_or (js_get tokens ''account_id'')
                (js_or (js_get (id_auth ident) ''chatgpt_account_id'') (Some JNull)))"

text \<open>
  Lines 149 to 155: the proactive refresh. In the source \<^verbatim>\<open>tokens\<close> is the object
  \<^verbatim>\<open>auth.tokens\<close> itself, before and after a refresh, so the model reads it from \<open>auth\<close>.
\<close>

definition proactiveRefresh :: "env \<Rightarrow> string \<Rightarrow> fields \<Rightarrow> world \<Rightarrow> fields io" where
  "proactiveRefresh e authPath auth w =
     (let tokens = map_of auth ''tokens'' in
      if shouldRefreshNow e (clock w) (js_get tokens ''access_token'')
         \<and> js_truthy (js_get tokens ''refresh_token'')
      then (case ensureNotAborted e w of
              Some err \<Rightarrow> (Inl err, w)
            | None \<Rightarrow>
                refreshTokensAndPersist e authPath auth (js_get tokens ''refresh_token'') w)
      else (Inr auth, w))"

text \<open>
  Lines 157 to 173: the usage request, and the refresh and second request after a
  status 401. The result is the payload and the bundle as it is then.
\<close>

definition fetchUsageWithRetry ::
  "env \<Rightarrow> string \<Rightarrow> fields \<Rightarrow> json \<Rightarrow> world \<Rightarrow> (json \<times> fields) io" where
  "fetchUsageWithRetry e authPath auth acct w =
     (let tokens = map_of auth ''tokens'' in
      case (case ensureNotAborted e w of
              Some err \<Rightarrow> (Inl err, w)
            | None \<Rightarrow> fetchUsage e (js_get tokens ''access_token'') acct w) of
        (Inr usagePayload, w1) \<Rightarrow> (Inr (usagePayload, auth), w1)
      | (Inl err, w1) \<Rightarrow>
          if err_status err = Some 401 \<and> js_truthy (js_get tokens ''refresh_token'') then
            (case refreshTokensAndPersist e authPath auth (js_get tokens ''refresh_token'') w1 of
               (Inl err2, w2) \<Rightarrow> (Inl err2, w2)
             | (Inr auth2, w2) \<Rightarrow>
                 (case ensureNotAborted e w2 of
                    Some err3 \<Rightarrow> (Inl err3, w2)
                  | None \<Rightarrow>
                      (case fetchUsage e (js_get (map_of auth2 ''tokens'') ''access_token'')
                              acct w2 of
                         (Inl err4, w3) \<Rightarrow> (Inl err4, w3)
                       | (Inr usagePayload, w3) \<Rightarrow> (Inr (usagePayload, auth2), w3))))
          else (Inl err, w1))"

text \<open>
  The conversion of a JSON value to a number, as \<^verbatim>\<open>Number(v)\<close>, \<^verbatim>\<open>v / 60\<close> and
  \<^verbatim>\<open>v * 1000\<close> make it. An object or an array converts by its text. The text of an object
  is that of the inherited \<^verbatim>\<open>toString\<close>, unless the object has a field of that name
  itself: a JSON text cannot make that field a function, and nothing else gives a
  primitive, which is a TypeError. The text of an array is that of its elements joined
  by commas, with the empty text for \<^verbatim>\<open>null\<close>.
\<close>

definition cannot_convert :: jserror where
  "cannot_convert = TypeError ''Cannot convert object to primitive value''"

fun join_texts :: "(jserror + string) list \<Rightarrow> jserror + string" where
  "join_texts [] = Inr []"
| "join_texts [t] = t"
| "join_texts (t # ts) =
     (case t of
        Inl err \<Rightarrow> Inl err
      | Inr s \<Rightarrow>
          (case join_texts ts of
             Inl err \<Rightarrow> Inl err
           | Inr rest \<Rightarrow> Inr (s @ '','' @ rest)))"

fun ToString :: "env \<Rightarrow> json \<Rightarrow> jserror + string" where
  "ToString e JNull = Inr ''null''"
| "ToString e (JBool b) = Inr (if b then ''true'' else ''false'')"
| "ToString e (JNum n) = Inr (Number_toString e n)"
| "ToString e (JStr s) = Inr s"
| "ToString e (JArr xs) =
     join_texts (map (\<lambda>x. if x = JNull then Inr [] else ToString e x) xs)"
| "ToString e (JObj kvs) =
     (if map_of kvs ''toString'' \<noteq> None then Inl cannot_convert
      else Inr ''[object Object]'')"

fun ToNumber :: "env \<Rightarrow> json \<Rightarrow> jserror + rat number" where
  "ToNumber e JNull = Inr (Fin 0)"
| "ToNumber e (JBool b) = Inr (Fin (if b then 1 else 0))"
| "ToNumber e (JNum n) = Inr (Fin n)"
| "ToNumber e (JStr s) = Inr (StringToNumber e s)"
| "ToNumber e v =
     (case ToString e v of
        Inl err \<Rightarrow> Inl err
      | Inr s \<Rightarrow> Inr (StringToNumber e s))"

text \<open>
  \<^verbatim>\<open>new Date(x).toISOString()\<close> for a number \<^verbatim>\<open>x\<close>: the time is \<^verbatim>\<open>x\<close> cut to an
  integer, and there is none, which is a RangeError, when \<^verbatim>\<open>x\<close> is not finite or is
  more than 8640000000000000 milliseconds away from the start of 1970.
\<close>

definition invalid_time :: jserror where
  "invalid_time = JsError ''RangeError'' ''Invalid time value'' None None"

definition Date_toISOString :: "env \<Rightarrow> rat number \<Rightarrow> jserror + string" where
  "Date_toISOString e x =
     (case x of
        Fin q \<Rightarrow>
          if \<bar>q\<bar> \<le> 8640000000000000
          then Inr (toISOString e (if 0 \<le> q then \<lfloor>q\<rfloor> else \<lceil>q\<rceil>))
          else Inl invalid_time
      | _ \<Rightarrow> Inl invalid_time)"

text \<open>\<^verbatim>\<open>a ?? b\<close>: the first operand unless it is \<^verbatim>\<open>null\<close> or \<^verbatim>\<open>undefined\<close>.\<close>

definition coalesce :: "jsval \<Rightarrow> jsval \<Rightarrow> jsval" where
  "coalesce a b = (if a = None \<or> a = Some JNull then b else a)"

text \<open>
  \<^verbatim>\<open>mapWindow(window)\<close>, lines 321 to 336. The result is \<^verbatim>\<open>null\<close> (\<open>None\<close>) or the
  object of its six fields. The three conversions to a number are made in the order of
  the source, and each can throw.
\<close>

record window_view =
  label :: string
  percentUsed :: "rat number"
  percentRemaining :: "rat number"
  windowMinutes :: "int number option"
  resetsAt :: "string option"
  raw :: json

text \<open>
  Line 325, \<^verbatim>\<open>windowSeconds != null ? Math.ceil(windowSeconds / 60) : null\<close>, and the
  value of \<^verbatim>\<open>resetsAt\<close> at line 333.
\<close>

definition windowMinutes_of :: "env \<Rightarrow> jsval \<Rightarrow> jserror + int number option" where
  "windowMinutes_of e windowSeconds =
     (if windowSeconds = None \<or> windowSeconds = Some JNull then Inr None
      else (case ToNumber e (nullish windowSeconds) of
              Inl err \<Rightarrow> Inl err
            | Inr x \<Rightarrow> Inr (Some (Math_ceil (times_positive (1 / 60) x)))))"

definition resetsAt_of :: "env \<Rightarrow> jsval \<Rightarrow> jserror + string option" where
  "resetsAt_of e resetAtSeconds =
     (if resetAtSeconds = None \<or> resetAtSeconds = Some JNull then Inr None
      else (case ToNumber e (nullish resetAtSeconds) of
              Inl err \<Rightarrow> Inl err
            | Inr x \<Rightarrow>
                (case Date_toISOString e (times_positive 1000 x) of
                   Inl err \<Rightarrow> Inl err
                 | Inr stamp \<Rightarrow> Inr (Some stamp))))"

definition mapWindow :: "env \<Rightarrow> jsval \<Rightarrow> jserror + window_view option" where
  "mapWindow e window =
     (if \<not> js_truthy window then Inr None
      else
        (case ToNumber e
                (nullish (coalesce (js_get window ''used_percent'')
                            (coalesce (js_get window ''usedPercent'') (Some (JNum 0))))) of
           Inl err \<Rightarrow> Inl err
         | Inr usedPercent \<Rightarrow>
        (case windowMinutes_of e
                (coalesce (js_get window ''limit_window_seconds'')
                   (coalesce (js_get window ''limitWindowSeconds'') (Some JNull))) of
           Inl err \<Rightarrow> Inl err
         | Inr minutes \<Rightarrow>
        (case resetsAt_of e
                (coalesce (js_get window ''reset_at'')
                   (coalesce (js_get window ''resetAt'') (Some JNull))) of
           Inl err \<Rightarrow> Inl err
         | Inr resets \<Rightarrow>
             Inr (Some
               \<lparr>label = (case minutes of
                           None \<Rightarrow> ''unknown''
                         | Some m \<Rightarrow> humanizeWindow_of m),
                percentUsed = usedPercent,
                percentRemaining = Math_max_0_100_minus usedPercent,
                windowMinutes = minutes,
                resetsAt = resets,
                raw = nullish window\<rparr>)))))"

text \<open>
  Lines 175 to 200: the result record, with the fields of \<^verbatim>\<open>account\<close> and of
  \<^verbatim>\<open>windows\<close> side by side. Of its parts only \<^verbatim>\<open>mapWindow\<close> can throw, and the first
  window is mapped before the second.
\<close>

record account_result =
  authFile :: string
  baseUrl :: string
  email :: json
  accountId :: json
  planFromToken :: json
  planFromUsage :: json
  allowed :: json
  limitReached :: json
  primary_window :: "window_view option"
  secondary_window :: "window_view option"
  fetchedAt :: string
  lastRefresh :: json

definition assembleResult ::
  "env \<Rightarrow> string \<Rightarrow> fields \<Rightarrow> identity \<Rightarrow> json \<Rightarrow> json \<Rightarrow> world \<Rightarrow>
     jserror + account_result" where
  "assembleResult e authPath auth initialIdentity acct usagePayload w =
     (let tokens = map_of auth ''tokens'';
          refreshedIdentity = decodeIdToken e (js_get tokens ''id_token'');
          derivedAccountId =
            js_or (js_get (id_auth refreshedIdentity) ''chatgpt_account_id'') (Some JNull);
          details = coalesce (js_get (Some usagePayload) ''rate_limit'') (Some JNull)
      in case mapWindow e (js_get details ''primary_window'') of
           Inl err \<Rightarrow> Inl err
         | Inr primary \<Rightarrow>
        (case mapWindow e (js_get details ''secondary_window'') of
           Inl err \<Rightarrow> Inl err
         | Inr secondary \<Rightarrow>
             Inr \<lparr>authFile = authPath,
                  baseUrl = BASE_URL,
                  email = nullish (js_or (id_email refreshedIdentity)
                                     (js_or (id_email initialIdentity) (Some JNull))),
                  accountId =
                    (if \<not> truthy acct
                     then nullish (js_or (js_get tokens ''account_id'')
                                     (js_or derivedAccountId (Some JNull)))
                     else acct),
                  planFromToken =
                    nullish (js_or (js_get (id_auth refreshedIdentity) ''chatgpt_plan_type'')
                               (Some JNull)),
                  planFromUsage =
                    nullish (js_or (js_get (Some usagePayload) ''plan_type'') (Some JNull)),
                  allowed = nullish (js_get details ''allowed''),
                  limitReached = nullish (js_get details ''limit_reached''),
                  primary_window = primary,
                  secondary_window = secondary,
                  fetchedAt = toISOString e (clock w),
                  lastRefresh = nullish (js_or (map_of auth ''last_refresh'') (Some JNull))\<rparr>))"

text \<open>\<^verbatim>\<open>collectUsageForAuth(authPath, signal)\<close>, lines 138 to 201.\<close>

definition collectUsageForAuth :: "env \<Rightarrow> string \<Rightarrow> world \<Rightarrow> account_result io" where
  "collectUsageForAuth e authPath w =
     (case ensureNotAborted e w of
        Some err \<Rightarrow> (Inl err, w)
      | None \<Rightarrow>
      (case loadAuth e authPath w of
        Inl err \<Rightarrow> (Inl err, w)
      | Inr auth \<Rightarrow>
        (let tokens = map_of auth ''tokens'';
             initialIdentity = decodeIdToken e (js_get tokens ''id_token'');
             acct = resolveAccountId tokens initialIdentity
         in case proactiveRefresh e authPath auth w of
              (Inl err, w1) \<Rightarrow> (Inl err, w1)
            | (Inr auth1, w1) \<Rightarrow>
                (case fetchUsageWithRetry e authPath auth1 acct w1 of
                   (Inl err, w2) \<Rightarrow> (Inl err, w2)
                 | (Inr (usagePayload, auth2), w2) \<Rightarrow>
                     (assembleResult e authPath auth2 initialIdentity acct usagePayload w2,
                      w2)))))"

section \<open>One pass over the accounts\<close>

text \<open>
  \<^verbatim>\<open>renderOnce(signal)\<close>, lines 38 to 59, over the configured bundle locations. An
  entry of the result is what the session returned, or \<^verbatim>\<open>{ authFile, error }\<close>.
\<close>

datatype pass_entry = Collected account_result | Failed string string

fun renderAccounts :: "env \<Rightarrow> string list \<Rightarrow> pass_entry list \<Rightarrow> world \<Rightarrow> pass_entry list io" where
  "renderAccounts e [] results w = (Inr results, w)"
| "renderAccounts e (authArg # rest) results w =
     (case ensureNotAborted e w of
        Some err \<Rightarrow> (Inl err, w)
      | None \<Rightarrow>
          (let authPath = path_resolve e authArg
           in case collectUsageForAuth e authPath w of
                (Inr result, w1) \<Rightarrow> renderAccounts e rest (results @ [Collected result]) w1
              | (Inl err, w1) \<Rightarrow>
                  if isAbortError err then (Inl err, w1)
                  else renderAccounts e rest
                         (results @ [Failed authPath (error_text err)]) w1))"

definition renderOnce :: "env \<Rightarrow> string list \<Rightarrow> world \<Rightarrow> pass_entry list io" where
  "renderOnce e authPaths w =
     (case ensureNotAborted e w of
        Some err \<Rightarrow> (Inl err, w)
      | None \<Rightarrow>
          (case renderAccounts e authPaths [] w of
             (Inl err, w1) \<Rightarrow> (Inl err, w1)
           | (Inr results, w1) \<Rightarrow>
               (case ensureNotAborted e w1 of
                  Some err \<Rightarrow> (Inl err, w1)
                | None \<Rightarrow> (Inr results, w1))))"

section \<open>The repeating mode\<close>

text \<open>
  \<^verbatim>\<open>sleep(ms)\<close> raced against the quit promise, lines 105 to 108: the quit wins if the
  key is pressed by the time the timer fires, and the wait ends at that moment.
\<close>

datatype wait_outcome = tick | quit

definition sleep_or_quit :: "env \<Rightarrow> int \<Rightarrow> world \<Rightarrow> wait_outcome \<times> world" where
  "sleep_or_quit e ms w =
     (let fires = clock w + ms + int (timer_lag e (clock w))
      in if aborted e (w\<lparr>clock := fires\<rparr>) then
           (quit, w\<lparr>clock := (case quit_at e of Some q \<Rightarrow> max (clock w) q | None \<Rightarrow> fires)\<rparr>)
         else (tick, w\<lparr>clock := fires\<rparr>))"

text \<open>
  \<^verbatim>\<open>runTailLoop(renderOnce, quitPromise, signal)\<close>, lines 75 to 111. The pass and the
  printing of its results are parameters, as \<^verbatim>\<open>renderOnce\<close> is in the source. The loop
  may run forever, so the model runs at most a given number of iterations and says how
  it stands then: still running, left by a quit, or left after logging an error. It
  returns normally in each case: the source catches what a pass throws. Beside the
  state, the model records what the loop did: when a pass started, when its results
  were printed (the value given to \<^verbatim>\<open>lastRenderAt\<close>), and when a wait started and for how
  long it asked to sleep.

  A pass raced against the quit promise, lines 89 to 94: the quit wins if the key is
  pressed by the time the pass is over, and the loop leaves at the time of the key
  press. Nothing stops the pass it leaves behind, which runs until it notices the
  aborted signal: the world at the end of the run is the one that pass leaves, with
  the clock at which the loop left.
\<close>

datatype tail_status = Running | Quit | Stopped jserror

datatype tail_event = PassStart int | Rendered int | Tick int int

fun logged :: "tail_event list \<Rightarrow> tail_status \<times> tail_event list \<times> world \<Rightarrow>
    tail_status \<times> tail_event list \<times> world" where
  "logged evs (st, later, w) = (st, evs @ later, w)"

fun tailLoop ::
  "nat \<Rightarrow> env \<Rightarrow> (world \<Rightarrow> 'r io) \<Rightarrow> ('r \<Rightarrow> jserror option) \<Rightarrow> int \<Rightarrow> world \<Rightarrow>
     tail_status \<times> tail_event list \<times> world" where
  "tailLoop 0 e render renderResults lastRenderAt w = (Running, [], w)"
| "tailLoop (Suc n) e render renderResults lastRenderAt w =
     (let now = clock w;
          due = (lastRenderAt = 0 \<or> now - lastRenderAt \<ge> REFRESH_INTERVAL_MS)
      in if due then
           (case render w of
              (r, w1) \<Rightarrow>
                if aborted e w1 then
                  (Quit, [PassStart now],
                   w1\<lparr>clock := (case quit_at e of
                                   Some q \<Rightarrow> max (clock w) q
                                 | None \<Rightarrow> clock w1)\<rparr>)
                else (case r of
                        Inl err \<Rightarrow>
                          (if isAbortError err then Quit else Stopped err, [PassStart now], w1)
                      | Inr results \<Rightarrow>
                          (case renderResults results of
                             Some err \<Rightarrow>
                               (if isAbortError err then Quit else Stopped err,
                                [PassStart now], w1)
                           | None \<Rightarrow>
                               logged [PassStart now, Rendered (clock w1)]
                                 (tailLoop n e render renderResults (clock w1) w1))))
         else
           (let remaining = max 0 (REFRESH_INTERVAL_MS - (now - lastRenderAt));
                waitDuration = min POLL_INTERVAL_MS remaining
            in case sleep_or_quit e waitDuration w of
                 (quit, w1) \<Rightarrow> (Quit, [Tick now waitDuration], w1)
               | (tick, w1) \<Rightarrow>
                   logged [Tick now waitDuration]
                     (tailLoop n e render renderResults lastRenderAt w1)))"

definition runTailLoop ::
  "nat \<Rightarrow> env \<Rightarrow> (world \<Rightarrow> 'r io) \<Rightarrow> ('r \<Rightarrow> jserror option) \<Rightarrow> world \<Rightarrow>
     tail_status \<times> tail_event list \<times> world" where
  "runTailLoop n e render renderResults w = tailLoop n e render renderResults 0 w"

section \<open>Reading the outcome of a pass and of a run\<close>

text \<open>
  The entries of a pass over the given locations that starts in the world \<open>w\<close> and
  ends in the world \<open>w'\<close>: the sessions of the accounts are run one after the other,
  each on the resolved location and in the world the one before it left, with the
  signal clear at its start; an entry is the result of its session, or the location and
  the text of the error its session failed with, which is not a cancellation.
\<close>

fun sessions_in_order ::
  "env \<Rightarrow> string list \<Rightarrow> pass_entry list \<Rightarrow> world \<Rightarrow> world \<Rightarrow> bool" where
  "sessions_in_order e [] [] w w' = (w' = w)"
| "sessions_in_order e (authArg # rest) (entry # entries) w w' =
     (\<not> aborted e w
      \<and> (case collectUsageForAuth e (path_resolve e authArg) w of
            (Inr result, w1) \<Rightarrow>
              entry = Collected result \<and> sessions_in_order e rest entries w1 w'
          | (Inl err, w1) \<Rightarrow>
              \<not> isAbortError err
              \<and> entry = Failed (path_resolve e authArg) (error_text err)
              \<and> sessions_in_order e rest entries w1 w'))"
| "sessions_in_order e authPaths entries w w' = False"

text \<open>
  What the record of a run must look like if the cadence is kept, read from the start
  with the value of \<^verbatim>\<open>lastRenderAt\<close> at that point. A wait starts only when a pass is
  not due, and asks for the time left until it is, capped at the tick length. A pass
  starts only when there has been none yet or the results of the last one were printed
  at least 30 seconds before; the record of its start is followed by that of the
  printing of its results, unless the run ends there, and what follows is read with the
  time of that printing.
\<close>

fun cadence_kept :: "int \<Rightarrow> tail_event list \<Rightarrow> bool" where
  "cadence_kept prev [] = True"
| "cadence_kept prev (Tick t d # evs) =
     (prev \<noteq> 0 \<and> t - prev < 30000 \<and> d = min 500 (max 0 (30000 - (t - prev))) \<and> 0 < d
      \<and> cadence_kept prev evs)"
| "cadence_kept prev [PassStart t] = (prev = 0 \<or> 30000 \<le> t - prev)"
| "cadence_kept prev (PassStart t # Rendered r # evs) =
     ((prev = 0 \<or> 30000 \<le> t - prev) \<and> cadence_kept r evs)"
| "cadence_kept prev (ev # evs) = False"

fun ticks_bounded :: "tail_event list \<Rightarrow> bool" where
  "ticks_bounded [] = True"
| "ticks_bounded (Tick t d # evs) = (d \<le> POLL_INTERVAL_MS \<and> ticks_bounded evs)"
| "ticks_bounded (ev # evs) = ticks_bounded evs"

fun pass_starts :: "tail_event list \<Rightarrow> int list" where
  "pass_starts [] = []"
| "pass_starts (PassStart t # evs) = t # pass_starts evs"
| "pass_starts (ev # evs) = pass_starts evs"

section \<open>Example runs\<close>

text \<open>
  The platform at the inputs of the examples below. The three access tokens have the
  payloads \<^verbatim>\<open>{"exp": 1700000030}\<close>, \<^verbatim>\<open>{"exp": 1700003600}\<close> and \<^verbatim>\<open>{"exp": 1700007200}\<close>;
  the examples start at the time 1700000000000 (in milliseconds), when the first is
  within the 60 seconds of its expiry and the others are not.
\<close>

definition stale_token :: string where
  "stale_token = ''h.eyJleHAiOiAxNzAwMDAwMDMwfQ.s''"

definition fresh_token :: string where
  "fresh_token = ''h.eyJleHAiOiAxNzAwMDAzNjAwfQ.s''"

definition new_token :: string where
  "new_token = ''h.eyJleHAiOiAxNzAwMDA3MjAwfQ.s''"

definition ex_base64 :: "string \<Rightarrow> string" where
  \<open>ex_base64 s =
     (if s = ''eyJleHAiOiAxNzAwMDAwMDMwfQ=='' then ''{"exp": 1700000030}''
      else if s = ''eyJleHAiOiAxNzAwMDAzNjAwfQ=='' then ''{"exp": 1700003600}''
      else if s = ''eyJleHAiOiAxNzAwMDA3MjAwfQ=='' then ''{"exp": 1700007200}''
      else [])\<close>

definition ex_tokens :: "string \<Rightarrow> fields" where
  "ex_tokens tok =
     [(''id_token'', JStr ''x''), (''access_token'', JStr tok),
      (''refresh_token'', JStr ''r1''), (''account_id'', JStr ''acct-1'')]"

definition ex_bundle :: "string \<Rightarrow> fields" where
  "ex_bundle tok = [(''OPENAI_API_KEY'', JNull), (''tokens'', JObj (ex_tokens tok))]"

definition ex_bundle_no_refresh :: fields where
  "ex_bundle_no_refresh =
     [(''OPENAI_API_KEY'', JNull),
      (''tokens'', JObj [(''id_token'', JStr ''x''), (''access_token'', JStr stale_token),
                         (''account_id'', JStr ''acct-1'')])]"

definition ex_refreshed :: "string \<Rightarrow> fields" where
  "ex_refreshed stamp = ex_bundle new_token @ [(''last_refresh'', JStr stamp)]"

definition ex_window :: json where
  "ex_window =
     JObj [(''used_percent'', JNum 42), (''limit_window_seconds'', JNum 18000),
           (''reset_at'', JNum 1700003600)]"

definition ex_usage :: json where
  "ex_usage =
     JObj [(''plan_type'', JStr ''plus''),
           (''rate_limit'', JObj [(''allowed'', JBool True), (''limit_reached'', JBool False),
                                  (''primary_window'', ex_window)])]"

definition ex_usage_soon :: json where
  "ex_usage_soon =
     JObj [(''rate_limit'', JObj [(''primary_window'', JObj [(''reset_at'', JStr ''soon'')])])]"

definition stale_text :: string where
  \<open>stale_text = ''{"OPENAI_API_KEY":null,"tokens":{"id_token":"x",''
     @ ''"access_token":"h.eyJleHAiOiAxNzAwMDAwMDMwfQ.s",''
     @ ''"refresh_token":"r1","account_id":"acct-1"}}''\<close>

definition fresh_text :: string where
  \<open>fresh_text = ''{"OPENAI_API_KEY":null,"tokens":{"id_token":"x",''
     @ ''"access_token":"h.eyJleHAiOiAxNzAwMDAzNjAwfQ.s",''
     @ ''"refresh_token":"r1","account_id":"acct-1"}}''\<close>

definition no_refresh_text :: string where
  \<open>no_refresh_text = ''{"OPENAI_API_KEY":null,"tokens":{"id_token":"x",''
     @ ''"access_token":"h.eyJleHAiOiAxNzAwMDAwMDMwfQ.s","account_id":"acct-1"}}''\<close>

definition token_body :: string where
  \<open>token_body = ''{"access_token":"h.eyJleHAiOiAxNzAwMDA3MjAwfQ.s"}''\<close>

definition usage_body :: string where
  \<open>usage_body =
     ''{"plan_type":"plus","rate_limit":{"allowed":true,"limit_reached":false,''
     @ ''"primary_window":{"used_percent":42,"limit_window_seconds":18000,''
     @ ''"reset_at":1700003600}}}''\<close>

definition usage_body_soon :: string where
  \<open>usage_body_soon = ''{"rate_limit":{"primary_window":{"reset_at":"soon"}}}''\<close>

definition ex_parse :: "string \<Rightarrow> string + json" where
  \<open>ex_parse s =
     (if s = ''{"exp": 1700000030}'' then Inr (JObj [(''exp'', JNum 1700000030)])
      else if s = ''{"exp": 1700003600}'' then Inr (JObj [(''exp'', JNum 1700003600)])
      else if s = ''{"exp": 1700007200}'' then Inr (JObj [(''exp'', JNum 1700007200)])
      else if s = stale_text then Inr (JObj (ex_bundle stale_token))
      else if s = fresh_text then Inr (JObj (ex_bundle fresh_token))
      else if s = no_refresh_text then Inr (JObj ex_bundle_no_refresh)
      else if s = token_body then Inr (JObj [(''access_token'', JStr new_token)])
      else if s = usage_body then Inr ex_usage
      else if s = usage_body_soon then Inr ex_usage_soon
      else Inl ''Unexpected token'')\<close>

definition ex_pretty :: "string \<Rightarrow> string" where
  \<open>ex_pretty stamp =
     ''{'' @ [CHR 0x0A]
     @ ''  "OPENAI_API_KEY": null,'' @ [CHR 0x0A]
     @ ''  "tokens": {'' @ [CHR 0x0A]
     @ ''    "id_token": "x",'' @ [CHR 0x0A]
     @ ''    "access_token": "h.eyJleHAiOiAxNzAwMDA3MjAwfQ.s",'' @ [CHR 0x0A]
     @ ''    "refresh_token": "r1",'' @ [CHR 0x0A]
     @ ''    "account_id": "acct-1"'' @ [CHR 0x0A]
     @ ''  },'' @ [CHR 0x0A]
     @ ''  "last_refresh": "'' @ stamp @ ''"'' @ [CHR 0x0A]
     @ ''}''\<close>

definition ex_stringify :: "json \<Rightarrow> string" where
  "ex_stringify v =
     (if v = JObj (ex_refreshed ''2023-11-14T22:13:20.120Z'')
      then ex_pretty ''2023-11-14T22:13:20.120Z''
      else if v = JObj (ex_refreshed ''2023-11-14T22:13:20.200Z'')
      then ex_pretty ''2023-11-14T22:13:20.200Z''
      else if v = JObj (ex_refreshed ''2023-11-14T22:13:20.280Z'')
      then ex_pretty ''2023-11-14T22:13:20.280Z''
      else if v = JObj (ex_refreshed ''2023-11-14T22:13:20.320Z'')
      then ex_pretty ''2023-11-14T22:13:20.320Z''
      else ''null'')"

definition ex_iso :: "int \<Rightarrow> string" where
  "ex_iso t =
     (if t = 1700000000120 then ''2023-11-14T22:13:20.120Z''
      else if t = 1700000000200 then ''2023-11-14T22:13:20.200Z''
      else if t = 1700000000280 then ''2023-11-14T22:13:20.280Z''
      else if t = 1700000000320 then ''2023-11-14T22:13:20.320Z''
      else if t = 1700000000360 then ''2023-11-14T22:13:20.360Z''
      else if t = 1700003600000 then ''2023-11-14T23:13:20.000Z''
      else ''2023-11-14T22:13:20.000Z'')"

text \<open>
  The conversions between numbers and their texts, as far as the examples need them:
  the text of an integer, and the two strings that are converted to a number.
\<close>

definition ex_number_text :: "rat \<Rightarrow> string" where
  "ex_number_text n = String_int \<lfloor>n\<rfloor>"

definition ex_number :: "string \<Rightarrow> rat number" where
  "ex_number s = (if s = [] then Fin 0 else if s = ''42'' then Fin 42 else NaN)"

text \<open>
  The surroundings: a token endpoint that answers every refresh after 120 ms with the
  new access token, and a usage endpoint that answers after 80 ms, with the usage of the
  account to the new access token and with status 401 to any other. Nobody presses the
  quit key, writes succeed and timers fire on time.
\<close>

definition ex_env :: env where
  "ex_env =
     \<lparr>Buffer_from_base64 = ex_base64,
      JSON_parse = ex_parse,
      JSON_stringify_2 = ex_stringify,
      toISOString = ex_iso,
      StringToNumber = ex_number,
      Number_toString = ex_number_text,
      path_resolve = (\<lambda>p. p),
      REFRESH_URL_OVERRIDE = None,
      quit_at = None,
      token_endpoint = (\<lambda>sent rt. (120, Responded (Response 200 ''OK'' token_body))),
      usage_endpoint =
        (\<lambda>sent tok acct.
           if tok = Some (JStr new_token) then (80, Responded (Response 200 ''OK'' usage_body))
           else (80, Responded (Response 401 ''Unauthorized'' ''token expired''))),
      write_error = (\<lambda>sent p. None),
      timer_lag = (\<lambda>t. 0)\<rparr>"

text \<open>
  The same, with a usage endpoint that answers 401 to every token, and with one that
  accepts every token and answers with a window whose time of reset is no number.
\<close>

definition ex_env_locked :: env where
  "ex_env_locked =
     ex_env\<lparr>usage_endpoint :=
       (\<lambda>sent tok acct. (80, Responded (Response 401 ''Unauthorized'' ''account locked'')))\<rparr>"

definition ex_env_soon :: env where
  "ex_env_soon =
     ex_env\<lparr>usage_endpoint :=
       (\<lambda>sent tok acct. (80, Responded (Response 200 ''OK'' usage_body_soon)))\<rparr>"

definition ex_world :: world where
  "ex_world =
     \<lparr>files = [''/a.json'' \<mapsto> stale_text, ''/b.json'' \<mapsto> fresh_text,
               ''/c.json'' \<mapsto> no_refresh_text],
      clock = 1700000000000,
      trace = []\<rparr>"

text \<open>The errors of the example sessions, and the result of the session that succeeds.\<close>

definition ex_401 :: jserror where
  "ex_401 = http_error ''GET'' (BASE_URL @ ''/wham/usage'')
              (Response 401 ''Unauthorized'' ''token expired'')"

text \<open>The number of requests to the token endpoint in a trace.\<close>

fun is_token_post :: "event \<Rightarrow> bool" where
  "is_token_post (TokenPost rt) = True"
| "is_token_post ev = False"

definition token_posts :: "event list \<Rightarrow> nat" where
  "token_posts evs = length (filter is_token_post evs)"

definition ex_locked :: jserror where
  "ex_locked = http_error ''GET'' (BASE_URL @ ''/wham/usage'')
                 (Response 401 ''Unauthorized'' ''account locked'')"

definition ex_window_view :: window_view where
  "ex_window_view =
     \<lparr>label = ''5h'', percentUsed = Fin 42, percentRemaining = Fin 58,
      windowMinutes = Some (Fin 300), resetsAt = Some ''2023-11-14T23:13:20.000Z'',
      raw = ex_window\<rparr>"

definition ex_result :: account_result where
  "ex_result =
     \<lparr>authFile = ''/b.json'', baseUrl = ''https://chatgpt.com/backend-api'',
      email = JNull, accountId = JStr ''acct-1'',
      planFromToken = JNull, planFromUsage = JStr ''plus'',
      allowed = JBool True, limitReached = JBool False,
      primary_window = Some ex_window_view, secondary_window = None,
      fetchedAt = ''2023-11-14T22:13:20.360Z'',
      lastRefresh = JStr ''2023-11-14T22:13:20.280Z''\<rparr>"

text \<open>
  A pass that takes five seconds and fails for no account, a printing of the results
  that never fails, and a quit key pressed 1250 ms after the results of a pass were
  printed at the time 1700000005000.
\<close>

definition ex_slow_pass :: "world \<Rightarrow> pass_entry list io" where
  "ex_slow_pass w = (Inr [], w\<lparr>clock := clock w + 5000\<rparr>)"

definition ex_renderResults :: "pass_entry list \<Rightarrow> jserror option" where
  "ex_renderResults results = None"

definition ex_env_quit :: env where
  "ex_env_quit = ex_env\<lparr>quit_at := Some 1700000006250\<rparr>"

definition ex_world_waiting :: world where
  "ex_world_waiting = ex_world\<lparr>clock := 1700000005000\<rparr>"

text \<open>The locations of a pass, and its entries.\<close>

definition ex_paths :: "string list" where
  "ex_paths = [''/missing.json'', ''/c.json'', ''/b.json'']"

definition ex_entries :: "pass_entry list" where
  "ex_entries =
     [Failed ''/missing.json''
        (''ENOENT: no such file or directory, open '' @ [CHR 0x27] @ ''/missing.json''
           @ [CHR 0x27]),
      Failed ''/c.json'' (err_message ex_401),
      Collected ex_result]"

section \<open>Properties of the window labels\<close>

lemma Math_round_div_60: "Math_round (of_int m / 60) = (m + 30) div 60"
  unfolding Math_round_def by linarith

text \<open>
  Claim C9. For a window of \<open>m\<close> minutes the label is the number of hours followed by
  \<open>h\<close> when \<open>m\<close> is at most one day (1440), where the number is \<open>m / 60\<close> rounded to the
  nearest integer (the distance to \<open>m\<close> is at most 30 minutes, and a tie goes up) and
  is never below 1; it is \<open>weekly\<close> up to 10080, \<open>monthly\<close> up to 43200, and \<open>annual\<close>
  beyond. The seven sample values of the specification are part of the statement.
\<close>

theorem humanizeWindow_labels:
  "humanizeWindow (Some m) =
     (if m \<le> 1440 then String_int (max 1 (Math_round (of_int m / 60))) @ ''h''
      else if m \<le> 10080 then ''weekly''
      else if m \<le> 43200 then ''monthly''
      else ''annual'')
   \<and> \<bar>60 * Math_round (of_int m / 60) - m\<bar> \<le> 30
   \<and> Math_round (of_int (60 * k + 30) / 60) = k + 1
   \<and> humanizeWindow (Some 90) = ''2h''
   \<and> humanizeWindow (Some 1440) = ''24h''
   \<and> humanizeWindow (Some 1441) = ''weekly''
   \<and> humanizeWindow (Some 10080) = ''weekly''
   \<and> humanizeWindow (Some 10081) = ''monthly''
   \<and> humanizeWindow (Some 43200) = ''monthly''
   \<and> humanizeWindow (Some 43201) = ''annual''"
proof -
  have general: "humanizeWindow (Some m) =
     (if m \<le> 1440 then String_int (max 1 (Math_round (of_int m / 60))) @ ''h''
      else if m \<le> 10080 then ''weekly''
      else if m \<le> 43200 then ''monthly''
      else ''annual'')"
    by (simp add: humanizeWindow_def)
  have near: "\<bar>60 * Math_round (of_int m / 60) - m\<bar> \<le> 30"
    unfolding Math_round_div_60 by presburger
  have "60 * k + 30 + 30 = 60 * (k + 1)" by simp
  then have "(60 * k + 30 + 30) div 60 = k + 1"
    by (metis nonzero_mult_div_cancel_left zero_neq_numeral)
  then have tie: "Math_round (of_int (60 * k + 30) / 60) = k + 1"
    unfolding Math_round_div_60 .
  have s90: "humanizeWindow (Some 90) = ''2h''"
    by code_simp
  have s1440: "humanizeWindow (Some 1440) = ''24h''"
    by code_simp
  have rest: "humanizeWindow (Some 1441) = ''weekly''"
    "humanizeWindow (Some 10080) = ''weekly''"
    "humanizeWindow (Some 10081) = ''monthly''"
    "humanizeWindow (Some 43200) = ''monthly''"
    "humanizeWindow (Some 43201) = ''annual''"
    by (simp_all add: humanizeWindow_def)
  show ?thesis
    by (intro conjI general near tie s90 s1440 rest)
qed

section \<open>Requests and the trace\<close>

lemma abort_errors_no_status:
  "err_status abortError = None" "err_status fetch_abort = None"
  by (simp_all add: abortError_def fetch_abort_def)

lemma aborted_clock: "clock w' = clock w \<Longrightarrow> aborted e w' = aborted e w"
  by (simp add: aborted_def split: option.splits)

lemma fetch_shape:
  assumes "fetch e ev a w = (r, w')"
  shows "(aborted e w \<and> w' = w \<and> r = Inl fetch_abort)
       \<or> (\<not> aborted e w \<and> trace w' = trace w @ [ev] \<and> files w' = files w
           \<and> clock w \<le> clock w'
           \<and> ((r = Inl fetch_abort \<and> quit_at e = Some (clock w'))
              \<or> (\<not> aborted e w' \<and> clock w' = clock w + int (fst a)
                 \<and> (case snd a of Rejected err \<Rightarrow> r = Inl err | Responded res \<Rightarrow> r = Inr res))))"
  using assms
  by (auto simp: fetch_def Let_def aborted_def split: if_splits option.splits fetch_result.splits)

lemma requestTokenRefresh_shape:
  assumes "requestTokenRefresh e rt w = (r, w1)" "\<not> aborted e w"
  shows "trace w1 = trace w @ [TokenPost rt] \<and> files w1 = files w \<and> clock w \<le> clock w1
         \<and> (\<forall>v. r = Inr v \<longrightarrow> \<not> aborted e w1)"
proof -
  obtain r0 w0 where f: "fetch e (TokenPost rt) (token_endpoint e (trace w) rt) w = (r0, w0)"
    by (cases "fetch e (TokenPost rt) (token_endpoint e (trace w) rt) w")
  from fetch_shape [OF f] assms(2)
  have sh: "trace w0 = trace w @ [TokenPost rt]" "files w0 = files w" "clock w \<le> clock w0"
    "r0 = Inl fetch_abort \<or> \<not> aborted e w0 "
    by auto
  from assms(1) f have w: "w1 = w0"
    by (auto simp: requestTokenRefresh_def split: sum.splits if_splits)
  from assms(1) f have "\<And>v. r = Inr v \<Longrightarrow> \<exists>res. r0 = Inr res"
    by (auto simp: requestTokenRefresh_def split: sum.splits if_splits)
  with sh w show ?thesis by auto
qed

lemma fetchUsage_shape:
  assumes "fetchUsage e tok acct w = (r, w1)"
  shows "(aborted e w \<and> w1 = w \<and> r = Inl abortError)
       \<or> (\<not> aborted e w
           \<and> trace w1 = trace w @ [UsageGet tok (if truthy acct then Some acct else None)]
           \<and> files w1 = files w \<and> clock w \<le> clock w1
           \<and> (r = Inl fetch_abort \<or> \<not> aborted e w1))"
proof (cases "aborted e w")
  case True
  with assms show ?thesis by (simp add: fetchUsage_def ensureNotAborted_def)
next
  case False
  let ?hdr = "if truthy acct then Some acct else None"
  obtain r0 w0 where f: "fetch e (UsageGet tok ?hdr) (usage_endpoint e (trace w) tok ?hdr) w = (r0, w0)"
    by (cases "fetch e (UsageGet tok ?hdr) (usage_endpoint e (trace w) tok ?hdr) w")
  from fetch_shape [OF f] False
  have sh: "trace w0 = trace w @ [UsageGet tok ?hdr]" "files w0 = files w" "clock w \<le> clock w0"
    "r0 = Inl fetch_abort \<or> \<not> aborted e w0"
    by auto
  from assms False have "fetchUsage e tok acct w =
     (case (r0, w0) of
                (Inl err, w1) \<Rightarrow> (Inl err, w1)
              | (Inr res, w1) \<Rightarrow>
                  if \<not> res_ok res then (Inl (http_error ''GET'' (BASE_URL @ ''/wham/usage'') res), w1)
                  else (case JSON_parse e (res_body res) of
                          Inl msg \<Rightarrow> (Inl (SyntaxError msg), w1)
                        | Inr v \<Rightarrow> (Inr v, w1)))"
    unfolding fetchUsage_def ensureNotAborted_def Let_def f [symmetric] by simp
  with assms have eq: "(r, w1) =
     (case r0 of
                Inl err \<Rightarrow> (Inl err, w0)
              | Inr res \<Rightarrow>
                  if \<not> res_ok res then (Inl (http_error ''GET'' (BASE_URL @ ''/wham/usage'') res), w0)
                  else (case JSON_parse e (res_body res) of
                          Inl msg \<Rightarrow> (Inl (SyntaxError msg), w0)
                        | Inr v \<Rightarrow> (Inr v, w0)))"
    by simp
  then have w: "w1 = w0"
    by (cases r0) (auto split: if_splits sum.splits)
  from eq have "r0 = Inl fetch_abort \<Longrightarrow> r = Inl fetch_abort"
    by simp
  with sh w False show ?thesis by auto
qed

lemma fetchUsage_status:
  assumes "fetchUsage e tok acct w = (Inl err, w1)" "err_status err = Some s"
  shows "\<not> aborted e w \<and> \<not> aborted e w1
       \<and> trace w1 = trace w @ [UsageGet tok (if truthy acct then Some acct else None)]"
proof -
  from assms(2) have "err \<noteq> abortError" "err \<noteq> fetch_abort"
    using abort_errors_no_status by auto
  with fetchUsage_shape [OF assms(1)] show ?thesis by blast
qed

section \<open>Merging a refresh into the bundle\<close>

lemma set_token_other_field:
  "k' \<noteq> ''tokens'' \<Longrightarrow> map_of (set_token k v auth) k' = map_of auth k'"
  by (simp add: set_token_def update_conv' split: option.splits json.splits)

lemma set_token_other_token:
  "k' \<noteq> k \<Longrightarrow>
     js_get (map_of (set_token k v auth) ''tokens'') k' = js_get (map_of auth ''tokens'') k'"
  by (simp add: set_token_def update_conv' split: option.splits json.splits)

lemma set_token_this_token:
  "map_of auth ''tokens'' = Some (JObj t) \<Longrightarrow>
     js_get (map_of (set_token k v auth) ''tokens'') k = Some v"
  by (simp add: set_token_def update_conv')

lemma set_token_is_object:
  "map_of auth ''tokens'' = Some (JObj t) \<Longrightarrow>
     \<exists>t'. map_of (set_token k v auth) ''tokens'' = Some (JObj t')"
  by (simp add: set_token_def update_conv')

lemma setTokenIfReturned_other_field:
  "k' \<noteq> ''tokens'' \<Longrightarrow> map_of (setTokenIfReturned k r auth) k' = map_of auth k'"
  by (simp add: setTokenIfReturned_def set_token_other_field split: option.splits)

lemma setTokenIfReturned_other_token:
  "k' \<noteq> k \<Longrightarrow>
     js_get (map_of (setTokenIfReturned k r auth) ''tokens'') k'
     = js_get (map_of auth ''tokens'') k'"
  by (simp add: setTokenIfReturned_def set_token_other_token split: option.splits)

lemma setTokenIfReturned_absent:
  "\<not> js_truthy (js_get (Some r) k) \<Longrightarrow> setTokenIfReturned k r auth = auth"
  by (cases "js_get (Some r) k") (simp_all add: setTokenIfReturned_def)

lemma setTokenIfReturned_is_object:
  "map_of auth ''tokens'' = Some (JObj t) \<Longrightarrow>
     \<exists>t'. map_of (setTokenIfReturned k r auth) ''tokens'' = Some (JObj t')"
  using set_token_is_object [of auth t]
  by (simp add: setTokenIfReturned_def split: option.splits)

lemma ensureTokens_other_field:
  "k' \<noteq> ''tokens'' \<Longrightarrow> map_of (ensureTokens auth) k' = map_of auth k'"
  by (simp add: ensureTokens_def update_conv')

lemma falsy_has_no_fields: "\<not> js_truthy v \<Longrightarrow> js_get v k = None"
proof (cases v)
  case None
  then show ?thesis by simp
next
  case (Some j)
  assume "\<not> js_truthy v"
  with Some show ?thesis by (cases j) simp_all
qed

lemma ensureTokens_token:
  "js_get (map_of (ensureTokens auth) ''tokens'') k = js_get (map_of auth ''tokens'') k"
proof (cases "js_truthy (map_of auth ''tokens'')")
  case True
  then show ?thesis by (simp add: ensureTokens_def)
next
  case False
  then have "js_get (map_of auth ''tokens'') k = None"
    by (rule falsy_has_no_fields)
  with False show ?thesis by (simp add: ensureTokens_def update_conv')
qed

lemma ensureTokens_object:
  "map_of auth ''tokens'' = Some (JObj ts) \<Longrightarrow> ensureTokens auth = auth"
  by (simp add: ensureTokens_def)

lemma mergeRefreshed_other_field:
  assumes "k \<noteq> ''tokens''" "k \<noteq> ''last_refresh''"
  shows "map_of (mergeRefreshed e auth refreshed tok t) k = map_of auth k"
  using assms
  by (simp add: mergeRefreshed_def update_conv' setTokenIfReturned_other_field
      set_token_other_field ensureTokens_other_field)

lemma mergeRefreshed_tokens_value:
  "map_of (mergeRefreshed e auth refreshed tok t) ''tokens'' =
   map_of (setTokenIfReturned ''refresh_token'' refreshed
            (setTokenIfReturned ''id_token'' refreshed
              (set_token ''access_token'' tok (ensureTokens auth)))) ''tokens''"
  by (simp add: mergeRefreshed_def update_conv')

lemma mergeRefreshed_other_token:
  assumes "k \<noteq> ''access_token''" "k \<noteq> ''id_token''" "k \<noteq> ''refresh_token''"
  shows "js_get (map_of (mergeRefreshed e auth refreshed tok t) ''tokens'') k
         = js_get (map_of auth ''tokens'') k"
  using assms
  by (simp add: mergeRefreshed_tokens_value setTokenIfReturned_other_token
      set_token_other_token ensureTokens_token)

lemma mergeRefreshed_keeps_id_token:
  assumes "\<not> js_truthy (js_get (Some refreshed) ''id_token'')"
  shows "js_get (map_of (mergeRefreshed e auth refreshed tok t) ''tokens'') ''id_token''
         = js_get (map_of auth ''tokens'') ''id_token''"
  using assms
  by (simp add: mergeRefreshed_tokens_value setTokenIfReturned_other_token
      set_token_other_token ensureTokens_token setTokenIfReturned_absent)

lemma mergeRefreshed_keeps_refresh_token:
  assumes "\<not> js_truthy (js_get (Some refreshed) ''refresh_token'')"
  shows "js_get (map_of (mergeRefreshed e auth refreshed tok t) ''tokens'') ''refresh_token''
         = js_get (map_of auth ''tokens'') ''refresh_token''"
  using assms
  by (simp add: mergeRefreshed_tokens_value setTokenIfReturned_other_token
      set_token_other_token ensureTokens_token setTokenIfReturned_absent)

lemma mergeRefreshed_access_token:
  assumes "map_of auth ''tokens'' = Some (JObj ts)"
  shows "js_get (map_of (mergeRefreshed e auth refreshed tok t) ''tokens'') ''access_token''
         = Some tok"
  using assms
  by (simp add: mergeRefreshed_tokens_value setTokenIfReturned_other_token
      set_token_this_token ensureTokens_object)

lemma mergeRefreshed_is_object:
  assumes "map_of auth ''tokens'' = Some (JObj ts)"
  shows "\<exists>ts'. map_of (mergeRefreshed e auth refreshed tok t) ''tokens'' = Some (JObj ts')"
proof -
  let ?a1 = "set_token ''access_token'' tok (ensureTokens auth)"
  let ?a2 = "setTokenIfReturned ''id_token'' refreshed ?a1"
  let ?a3 = "setTokenIfReturned ''refresh_token'' refreshed ?a2"
  from assms obtain t1 where "map_of ?a1 ''tokens'' = Some (JObj t1)"
    using set_token_is_object [of auth ts] by (auto simp: ensureTokens_object)
  then obtain t2 where "map_of ?a2 ''tokens'' = Some (JObj t2)"
    using setTokenIfReturned_is_object by blast
  then obtain t3 where "map_of ?a3 ''tokens'' = Some (JObj t3)"
    using setTokenIfReturned_is_object by blast
  then show ?thesis by (simp add: mergeRefreshed_tokens_value)
qed

lemma mergeRefreshed_last_refresh:
  "map_of (mergeRefreshed e auth refreshed tok t) ''last_refresh''
   = Some (JStr (toISOString e t))"
  by (simp add: mergeRefreshed_def update_conv')

section \<open>The refresh operation\<close>

lemma returnedAccessToken_Inr:
  "returnedAccessToken refreshed = Inr tok \<Longrightarrow>
     js_get (Some refreshed) ''access_token'' = Some tok \<and> truthy tok"
  unfolding returnedAccessToken_def
  by (cases "refreshed = JNull"; cases "js_get (Some refreshed) ''access_token''")
     (auto split: if_splits)

text \<open>The refresh operation, once the token is known to be there and the signal clear.\<close>

lemma refresh_unfold:
  assumes "truthy rt" "\<not> aborted e w" "requestTokenRefresh e rt w = (r1, w1)"
  shows "refreshTokensAndPersist e p auth (Some rt) w =
     (case r1 of
        Inl err \<Rightarrow> (Inl err, w1)
      | Inr refreshed \<Rightarrow>
      (case returnedAccessToken refreshed of
        Inl err \<Rightarrow> (Inl err, w1)
      | Inr access_token \<Rightarrow>
        (let auth5 = mergeRefreshed e auth refreshed access_token (clock w1);
             content = JSON_stringify_2 e (JObj auth5) @ [CHR 0x0A]
         in case write_error e (trace w1) p of
              Some err \<Rightarrow> (Inl err, w1)
            | None \<Rightarrow>
                (Inr auth5,
                 w1\<lparr>files := (files w1)(p \<mapsto> content),
                    trace := trace w1 @ [FileWrite p content]\<rparr>))))"
  using assms by (simp add: refreshTokensAndPersist_def ensureNotAborted_def)

lemma refresh_needs_token:
  assumes "refreshTokensAndPersist e p auth rtv w = (Inr auth', w')"
  shows "\<exists>rt. rtv = Some rt \<and> truthy rt \<and> \<not> aborted e w"
proof (cases rtv)
  case None
  with assms show ?thesis by (simp add: refreshTokensAndPersist_def)
next
  case (Some rt)
  show ?thesis
  proof (cases "truthy rt \<and> \<not> aborted e w")
    case True
    with Some show ?thesis by simp
  next
    case False
    with assms Some show ?thesis
      by (cases "truthy rt") (simp_all add: refreshTokensAndPersist_def ensureNotAborted_def)
  qed
qed

lemma refresh_ok_shape:
  assumes "refreshTokensAndPersist e p auth rtv w = (Inr auth', w')"
  shows "\<exists>rt refreshed w1 tok.
           rtv = Some rt \<and> truthy rt \<and> \<not> aborted e w
         \<and> requestTokenRefresh e rt w = (Inr refreshed, w1)
         \<and> js_get (Some refreshed) ''access_token'' = Some tok \<and> truthy tok
         \<and> auth' = mergeRefreshed e auth refreshed tok (clock w1)
         \<and> write_error e (trace w1) p = None
         \<and> w' = w1\<lparr>files := (files w1)(p \<mapsto> JSON_stringify_2 e (JObj auth') @ [CHR 0x0A]),
                  trace := trace w1 @ [FileWrite p (JSON_stringify_2 e (JObj auth') @ [CHR 0x0A])]\<rparr>"
proof -
  from refresh_needs_token [OF assms] obtain rt where
    rt: "rtv = Some rt" "truthy rt" and na: "\<not> aborted e w"
    by blast
  obtain r1 w1 where req: "requestTokenRefresh e rt w = (r1, w1)"
    by (cases "requestTokenRefresh e rt w")
  note unf = refresh_unfold [OF rt(2) na req, of p auth]
  from assms rt(1) unf obtain refreshed where r1: "r1 = Inr refreshed"
    by (cases r1) simp_all
  from assms rt(1) unf r1 obtain tok where tok: "returnedAccessToken refreshed = Inr tok"
    by (cases "returnedAccessToken refreshed") simp_all
  from assms rt(1) unf r1 tok have we: "write_error e (trace w1) p = None"
    by (cases "write_error e (trace w1) p") (simp_all add: Let_def)
  let ?auth = "mergeRefreshed e auth refreshed tok (clock w1)"
  let ?content = "JSON_stringify_2 e (JObj ?auth) @ [CHR 0x0A]"
  from unf r1 tok we have step: "refreshTokensAndPersist e p auth (Some rt) w =
      (Inr ?auth, w1\<lparr>files := (files w1)(p \<mapsto> ?content),
                      trace := trace w1 @ [FileWrite p ?content]\<rparr>)"
    by (simp add: Let_def)
  note lhs = assms [unfolded rt(1)]
  have eq: "(Inr auth' :: jserror + fields, w') =
      (Inr ?auth, w1\<lparr>files := (files w1)(p \<mapsto> ?content),
                      trace := trace w1 @ [FileWrite p ?content]\<rparr>)"
    by (rule trans [OF lhs [symmetric] step])
  from eq have a: "auth' = ?auth"
    by (elim Pair_inject) simp
  from eq have w0: "w' = w1\<lparr>files := (files w1)(p \<mapsto> ?content),
                      trace := trace w1 @ [FileWrite p ?content]\<rparr>"
    by (elim Pair_inject)
  have w: "w' = w1\<lparr>files := (files w1)(p \<mapsto> JSON_stringify_2 e (JObj auth') @ [CHR 0x0A]),
                  trace := trace w1 @ [FileWrite p (JSON_stringify_2 e (JObj auth') @ [CHR 0x0A])]\<rparr>"
    unfolding a by (rule w0)
  from returnedAccessToken_Inr [OF tok]
  have t: "js_get (Some refreshed) ''access_token'' = Some tok" "truthy tok" by simp_all
  from req r1 have req': "requestTokenRefresh e rt w = (Inr refreshed, w1)" by simp
  show ?thesis
    apply (rule exI [of _ rt])
    apply (rule exI [of _ refreshed])
    apply (rule exI [of _ w1])
    apply (rule exI [of _ tok])
    apply (intro conjI rt na req' t a we w)
    done
qed

lemma refresh_fail_shape:
  assumes "refreshTokensAndPersist e p auth (Some rt) w = (Inl err, w')" "truthy rt"
    "\<not> aborted e w"
  shows "trace w' = trace w @ [TokenPost rt]"
proof -
  obtain r1 w1 where req: "requestTokenRefresh e rt w = (r1, w1)"
    by (cases "requestTokenRefresh e rt w")
  from requestTokenRefresh_shape [OF req assms(3)] have tr: "trace w1 = trace w @ [TokenPost rt]"
    by simp
  note unf = refresh_unfold [OF assms(2) assms(3) req, of p auth]
  have "w' = w1"
  proof (cases r1)
    case (Inl e1)
    with assms(1) unf show ?thesis by simp
  next
    case (Inr refreshed)
    show ?thesis
    proof (cases "returnedAccessToken refreshed")
      case (Inl e2)
      with assms(1) unf Inr show ?thesis by simp
    next
      case tok: (Inr tok)
      with assms(1) unf Inr show ?thesis
        by (cases "write_error e (trace w1) p") (simp_all add: Let_def)
    qed
  qed
  with tr show ?thesis by simp
qed

lemma refresh_ok_not_aborted:
  assumes "refreshTokensAndPersist e p auth rtv w = (Inr auth', w')"
  shows "\<not> aborted e w'"
proof -
  from refresh_ok_shape [OF assms] obtain rt refreshed w1 where
    na: "\<not> aborted e w" and req: "requestTokenRefresh e rt w = (Inr refreshed, w1)" and
    w': "w' = w1\<lparr>files := (files w1)(p \<mapsto> JSON_stringify_2 e (JObj auth') @ [CHR 0x0A]),
                  trace := trace w1 @ [FileWrite p (JSON_stringify_2 e (JObj auth') @ [CHR 0x0A])]\<rparr>"
    by blast
  from requestTokenRefresh_shape [OF req na] have "\<not> aborted e w1" by simp
  moreover have "clock w' = clock w1" by (simp add: w')
  ultimately show ?thesis using aborted_clock [of w' w1 e] by simp
qed

section \<open>Claims about the refresh operation\<close>

text \<open>
  Claim C8. A refresh asked for with a refresh token that is absent or empty (any falsy
  value) fails with the error \<open>missing_refresh_token\<close>, a plain Error that is neither a
  cancellation nor a remote error, and leaves the world as it was: nothing is sent to
  the token endpoint, nothing is written, and nothing is tried again.
\<close>

theorem refresh_without_token:
  "\<not> js_truthy refreshToken \<Longrightarrow>
     refreshTokensAndPersist e authPath auth refreshToken w = (Inl missing_refresh_token, w)
     \<and> \<not> isAbortError missing_refresh_token
     \<and> err_status missing_refresh_token = None"
  by (cases refreshToken)
     (simp_all add: refreshTokensAndPersist_def missing_refresh_token_def Error_def
        isAbortError_def)

text \<open>
  Claim C10. When a refresh succeeds, the file holds the returned bundle, in which
  every field other than \<open>tokens\<close> and \<open>last_refresh\<close> is as before, every field of
  \<open>tokens\<close> other than the three tokens is as before, and the identity token and the
  refresh token are as before when the response of the token endpoint has none (or an
  empty one).
\<close>

theorem refresh_keeps_other_fields:
  assumes "refreshTokensAndPersist e authPath auth refreshToken w = (Inr auth', w')"
  shows "files w' authPath = Some (JSON_stringify_2 e (JObj auth') @ [CHR 0x0A])
    \<and> (\<forall>k. k \<noteq> ''tokens'' \<and> k \<noteq> ''last_refresh'' \<longrightarrow> map_of auth' k = map_of auth k)
    \<and> (\<forall>k. k \<noteq> ''access_token'' \<and> k \<noteq> ''id_token'' \<and> k \<noteq> ''refresh_token'' \<longrightarrow>
           js_get (map_of auth' ''tokens'') k = js_get (map_of auth ''tokens'') k)
    \<and> (\<exists>rt refreshed w1.
           refreshToken = Some rt \<and> requestTokenRefresh e rt w = (Inr refreshed, w1)
         \<and> (\<not> js_truthy (js_get (Some refreshed) ''id_token'') \<longrightarrow>
               js_get (map_of auth' ''tokens'') ''id_token''
               = js_get (map_of auth ''tokens'') ''id_token'')
         \<and> (\<not> js_truthy (js_get (Some refreshed) ''refresh_token'') \<longrightarrow>
               js_get (map_of auth' ''tokens'') ''refresh_token''
               = js_get (map_of auth ''tokens'') ''refresh_token''))"
proof -
  from refresh_ok_shape [OF assms] obtain rt refreshed w1 tok where
    rt: "refreshToken = Some rt" and
    req: "requestTokenRefresh e rt w = (Inr refreshed, w1)" and
    auth': "auth' = mergeRefreshed e auth refreshed tok (clock w1)" and
    w': "w' = w1\<lparr>files := (files w1)(authPath \<mapsto> JSON_stringify_2 e (JObj auth') @ [CHR 0x0A]),
                  trace := trace w1 @ [FileWrite authPath (JSON_stringify_2 e (JObj auth') @ [CHR 0x0A])]\<rparr>"
    by blast
  have "files (w1\<lparr>files := (files w1)(authPath \<mapsto> JSON_stringify_2 e (JObj auth') @ [CHR 0x0A]),
                  trace := trace w1 @ [FileWrite authPath (JSON_stringify_2 e (JObj auth') @ [CHR 0x0A])]\<rparr>) authPath
        = Some (JSON_stringify_2 e (JObj auth') @ [CHR 0x0A])"
    by simp
  then have written: "files w' authPath = Some (JSON_stringify_2 e (JObj auth') @ [CHR 0x0A])"
    unfolding w' [symmetric] .
  have frame: "\<forall>k. k \<noteq> ''tokens'' \<and> k \<noteq> ''last_refresh'' \<longrightarrow> map_of auth' k = map_of auth k"
    unfolding auth' using mergeRefreshed_other_field by blast
  have tokens: "\<forall>k. k \<noteq> ''access_token'' \<and> k \<noteq> ''id_token'' \<and> k \<noteq> ''refresh_token'' \<longrightarrow>
           js_get (map_of auth' ''tokens'') k = js_get (map_of auth ''tokens'') k"
    unfolding auth' using mergeRefreshed_other_token by blast
  have kept_id: "\<not> js_truthy (js_get (Some refreshed) ''id_token'') \<longrightarrow>
               js_get (map_of auth' ''tokens'') ''id_token''
               = js_get (map_of auth ''tokens'') ''id_token''"
    unfolding auth' using mergeRefreshed_keeps_id_token by blast
  have kept_rt: "\<not> js_truthy (js_get (Some refreshed) ''refresh_token'') \<longrightarrow>
               js_get (map_of auth' ''tokens'') ''refresh_token''
               = js_get (map_of auth ''tokens'') ''refresh_token''"
    unfolding auth' using mergeRefreshed_keeps_refresh_token by blast
  have ex: "\<exists>rt refreshed w1.
           refreshToken = Some rt \<and> requestTokenRefresh e rt w = (Inr refreshed, w1)
         \<and> (\<not> js_truthy (js_get (Some refreshed) ''id_token'') \<longrightarrow>
               js_get (map_of auth' ''tokens'') ''id_token''
               = js_get (map_of auth ''tokens'') ''id_token'')
         \<and> (\<not> js_truthy (js_get (Some refreshed) ''refresh_token'') \<longrightarrow>
               js_get (map_of auth' ''tokens'') ''refresh_token''
               = js_get (map_of auth ''tokens'') ''refresh_token'')"
    apply (rule exI [of _ rt])
    apply (rule exI [of _ refreshed])
    apply (rule exI [of _ w1])
    apply (intro conjI rt req kept_id kept_rt)
    done
  show ?thesis
    by (intro conjI written frame tokens ex)
qed

text \<open>
  Claim C5. When a refresh of a bundle whose \<open>tokens\<close> field is an object succeeds,
  the function has, by the time it returns, sent one request to the token endpoint and
  written one file: the bundle's own location holds the pretty-printed bundle followed
  by a newline, the access token of that bundle is the one the endpoint returned, and
  \<open>last_refresh\<close> is the ISO rendering of the clock as the response arrived, which is
  not before the refresh began and is the time at which the function returns.
\<close>

theorem refresh_persists:
  assumes "refreshTokensAndPersist e authPath auth refreshToken w = (Inr auth', w')"
    and "map_of auth ''tokens'' = Some (JObj ts)"
  shows "\<exists>rt refreshed w1 tok.
           refreshToken = Some rt
         \<and> requestTokenRefresh e rt w = (Inr refreshed, w1)
         \<and> js_get (Some refreshed) ''access_token'' = Some tok
         \<and> files w' authPath = Some (JSON_stringify_2 e (JObj auth') @ [CHR 0x0A])
         \<and> trace w' = trace w @ [TokenPost rt,
                                 FileWrite authPath (JSON_stringify_2 e (JObj auth') @ [CHR 0x0A])]
         \<and> js_get (map_of auth' ''tokens'') ''access_token'' = Some tok
         \<and> map_of auth' ''last_refresh'' = Some (JStr (toISOString e (clock w1)))
         \<and> clock w \<le> clock w1 \<and> clock w' = clock w1"
proof -
  let ?content = "JSON_stringify_2 e (JObj auth') @ [CHR 0x0A]"
  from refresh_ok_shape [OF assms(1)] obtain rt refreshed w1 tok where
    rt: "refreshToken = Some rt" and na: "\<not> aborted e w" and
    req: "requestTokenRefresh e rt w = (Inr refreshed, w1)" and
    tok: "js_get (Some refreshed) ''access_token'' = Some tok" and
    auth': "auth' = mergeRefreshed e auth refreshed tok (clock w1)" and
    w': "w' = w1\<lparr>files := (files w1)(authPath \<mapsto> ?content),
                  trace := trace w1 @ [FileWrite authPath ?content]\<rparr>"
    by blast
  from requestTokenRefresh_shape [OF req na]
  have tr: "trace w1 = trace w @ [TokenPost rt]" and cl: "clock w \<le> clock w1" by simp_all
  have "files (w1\<lparr>files := (files w1)(authPath \<mapsto> ?content),
                  trace := trace w1 @ [FileWrite authPath ?content]\<rparr>) authPath = Some ?content"
    by simp
  then have written: "files w' authPath = Some ?content"
    unfolding w' [symmetric] .
  have "trace (w1\<lparr>files := (files w1)(authPath \<mapsto> ?content),
                  trace := trace w1 @ [FileWrite authPath ?content]\<rparr>)
        = trace w @ [TokenPost rt, FileWrite authPath ?content]"
    by (simp add: tr)
  then have trace': "trace w' = trace w @ [TokenPost rt, FileWrite authPath ?content]"
    unfolding w' [symmetric] .
  have acc: "js_get (map_of auth' ''tokens'') ''access_token'' = Some tok"
    unfolding auth' by (rule mergeRefreshed_access_token [OF assms(2)])
  have stamp: "map_of auth' ''last_refresh'' = Some (JStr (toISOString e (clock w1)))"
    unfolding auth' by (rule mergeRefreshed_last_refresh)
  have "clock (w1\<lparr>files := (files w1)(authPath \<mapsto> ?content),
                  trace := trace w1 @ [FileWrite authPath ?content]\<rparr>) = clock w1"
    by simp
  then have cl': "clock w' = clock w1"
    unfolding w' [symmetric] .
  show ?thesis
    apply (rule exI [of _ rt])
    apply (rule exI [of _ refreshed])
    apply (rule exI [of _ w1])
    apply (rule exI [of _ tok])
    apply (intro conjI rt req tok written trace' acc stamp cl cl')
    done
qed

section \<open>The usage request and its single retry\<close>

lemma guarded_fetchUsage:
  "(case ensureNotAborted e w of
      Some err \<Rightarrow> (Inl err, w)
    | None \<Rightarrow> fetchUsage e tok acct w) = fetchUsage e tok acct w"
  by (simp add: fetchUsage_def ensureNotAborted_def)

lemma guarded_fetchUsage_case:
  "(case ensureNotAborted e w of
      Some err3 \<Rightarrow> (Inl err3, w)
    | None \<Rightarrow>
        (case fetchUsage e tok acct w of
           (Inl err4, w3) \<Rightarrow> (Inl err4, w3)
         | (Inr usagePayload, w3) \<Rightarrow> (Inr (usagePayload, a), w3)))
   = (case fetchUsage e tok acct w of
           (Inl err4, w3) \<Rightarrow> (Inl err4, w3)
         | (Inr usagePayload, w3) \<Rightarrow> (Inr (usagePayload, a :: fields), w3 :: world))"
  by (simp add: fetchUsage_def ensureNotAborted_def)

lemma fetchUsageWithRetry_unfold:
  "fetchUsageWithRetry e authPath auth acct w =
     (case fetchUsage e (js_get (map_of auth ''tokens'') ''access_token'') acct w of
        (Inr usagePayload, w1) \<Rightarrow> (Inr (usagePayload, auth), w1)
      | (Inl err, w1) \<Rightarrow>
          if err_status err = Some 401
             \<and> js_truthy (js_get (map_of auth ''tokens'') ''refresh_token'') then
            (case refreshTokensAndPersist e authPath auth
                    (js_get (map_of auth ''tokens'') ''refresh_token'') w1 of
               (Inl err2, w2) \<Rightarrow> (Inl err2, w2)
             | (Inr auth2, w2) \<Rightarrow>
                 (case fetchUsage e (js_get (map_of auth2 ''tokens'') ''access_token'')
                              acct w2 of
                         (Inl err4, w3) \<Rightarrow> (Inl err4, w3)
                       | (Inr usagePayload, w3) \<Rightarrow> (Inr (usagePayload, auth2), w3)))
          else (Inl err, w1))"
proof -
  let ?tokens = "map_of auth ''tokens''"
  obtain r1 w1 where f1: "fetchUsage e (js_get ?tokens ''access_token'') acct w = (r1, w1)"
    by (cases "fetchUsage e (js_get ?tokens ''access_token'') acct w")
  show ?thesis
  proof (cases r1)
    case (Inr payload)
    with f1 show ?thesis
      by (simp add: fetchUsageWithRetry_def guarded_fetchUsage Let_def)
  next
    case (Inl err)
    show ?thesis
    proof (cases "err_status err = Some 401 \<and> js_truthy (js_get ?tokens ''refresh_token'')")
      case False
      then have "(if err_status err = Some 401 \<and> js_truthy (js_get ?tokens ''refresh_token'')
                  then x else y) = y" for x y :: "(json \<times> fields) io"
        by (rule if_not_P)
      with f1 Inl show ?thesis
        by (simp add: fetchUsageWithRetry_def guarded_fetchUsage Let_def)
    next
      case True
      obtain r2 w2 where f2: "refreshTokensAndPersist e authPath auth
                    (js_get ?tokens ''refresh_token'') w1 = (r2, w2)"
        by (cases "refreshTokensAndPersist e authPath auth (js_get ?tokens ''refresh_token'') w1")
      show ?thesis
      proof (cases r2)
        case err2: (Inl err2)
        with f1 Inl True f2 show ?thesis
          by (simp add: fetchUsageWithRetry_def guarded_fetchUsage Let_def)
      next
        case auth2: (Inr auth2)
        with f1 Inl True f2 show ?thesis
          by (simp add: fetchUsageWithRetry_def guarded_fetchUsage guarded_fetchUsage_case
              Let_def)
      qed
    qed
  qed
qed

lemma retry_other_failure:
  assumes "fetchUsage e (js_get (map_of auth ''tokens'') ''access_token'') acct w = (Inl err, w1)"
    and "\<not> (err_status err = Some 401
            \<and> js_truthy (js_get (map_of auth ''tokens'') ''refresh_token''))"
  shows "fetchUsageWithRetry e authPath auth acct w = (Inl err, w1)"
  unfolding fetchUsageWithRetry_unfold using assms by auto

lemma retry_not_needed:
  assumes "fetchUsage e (js_get (map_of auth ''tokens'') ''access_token'') acct w
           = (Inr payload, w1)"
  shows "fetchUsageWithRetry e authPath auth acct w = (Inr (payload, auth), w1)"
  unfolding fetchUsageWithRetry_unfold using assms by simp

lemma retry_after_401:
  assumes obj: "map_of auth ''tokens'' = Some (JObj ts)"
    and init: "fetchUsage e (map_of ts ''access_token'') acct w = (Inl err, w1)"
    and st: "err_status err = Some 401"
    and rt: "map_of ts ''refresh_token'' = Some rt" "truthy rt"
  shows "(case refreshTokensAndPersist e authPath auth (Some rt) w1 of
     (Inl err2, w2) \<Rightarrow>
        fetchUsageWithRetry e authPath auth acct w = (Inl err2, w2)
        \<and> trace w2 = trace w @ [UsageGet (map_of ts ''access_token'')
                                   (if truthy acct then Some acct else None),
                                 TokenPost rt]
   | (Inr auth2, w2) \<Rightarrow>
       (\<exists>refreshed w' newtok content.
           requestTokenRefresh e rt w1 = (Inr refreshed, w')
         \<and> js_get (Some refreshed) ''access_token'' = Some newtok
         \<and> js_get (map_of auth2 ''tokens'') ''access_token'' = Some newtok
         \<and> files w2 authPath = Some content
         \<and> trace w2 = trace w @ [UsageGet (map_of ts ''access_token'')
                                    (if truthy acct then Some acct else None),
                                  TokenPost rt, FileWrite authPath content]
         \<and> (case fetchUsage e (Some newtok) acct w2 of
              (r3, w3) \<Rightarrow>
                 trace w3 = trace w2 @ [UsageGet (Some newtok)
                                          (if truthy acct then Some acct else None)]
               \<and> fetchUsageWithRetry e authPath auth acct w =
                   (case r3 of Inl err4 \<Rightarrow> Inl err4
                             | Inr usagePayload \<Rightarrow> Inr (usagePayload, auth2), w3))))"
proof -
  let ?hdr = "if truthy acct then Some acct else None"
  from obj have tok: "js_get (map_of auth ''tokens'') ''access_token'' = map_of ts ''access_token''"
    and rtv: "js_get (map_of auth ''tokens'') ''refresh_token'' = Some rt"
    using rt(1) by simp_all
  from fetchUsage_status [OF init st]
  have na: "\<not> aborted e w1" and tr1: "trace w1 = trace w @ [UsageGet (map_of ts ''access_token'') ?hdr]"
    by simp_all
  obtain r2 w2 where ref: "refreshTokensAndPersist e authPath auth (Some rt) w1 = (r2, w2)"
    by (cases "refreshTokensAndPersist e authPath auth (Some rt) w1")
  show ?thesis
  proof (cases r2)
    case (Inl err2)
    from ref Inl have ref': "refreshTokensAndPersist e authPath auth (Some rt) w1 = (Inl err2, w2)"
      by simp
    from refresh_fail_shape [OF ref' rt(2) na] tr1
    have "trace w2 = trace w @ [UsageGet (map_of ts ''access_token'') ?hdr, TokenPost rt]"
      by simp
    moreover have "fetchUsageWithRetry e authPath auth acct w = (Inl err2, w2)"
      unfolding fetchUsageWithRetry_unfold tok rtv using init st rt(2) ref' by simp
    ultimately show ?thesis unfolding ref' by simp
  next
    case (Inr auth2)
    from ref Inr have ref': "refreshTokensAndPersist e authPath auth (Some rt) w1 = (Inr auth2, w2)"
      by simp
    let ?content = "JSON_stringify_2 e (JObj auth2) @ [CHR 0x0A]"
    from refresh_ok_shape [OF ref'] obtain refreshed w' newtok where
      req: "requestTokenRefresh e rt w1 = (Inr refreshed, w')" and
      nt: "js_get (Some refreshed) ''access_token'' = Some newtok" and
      a2: "auth2 = mergeRefreshed e auth refreshed newtok (clock w')" and
      w2: "w2 = w'\<lparr>files := (files w')(authPath \<mapsto> ?content),
                  trace := trace w' @ [FileWrite authPath ?content]\<rparr>"
      by blast
    from requestTokenRefresh_shape [OF req na] have tr': "trace w' = trace w1 @ [TokenPost rt]"
      by simp
    have acc: "js_get (map_of auth2 ''tokens'') ''access_token'' = Some newtok"
      unfolding a2 by (rule mergeRefreshed_access_token [OF obj])
    have "files (w'\<lparr>files := (files w')(authPath \<mapsto> ?content),
                  trace := trace w' @ [FileWrite authPath ?content]\<rparr>) authPath = Some ?content"
      by simp
    then have fl: "files w2 authPath = Some ?content"
      unfolding w2 [symmetric] .
    have "trace (w'\<lparr>files := (files w')(authPath \<mapsto> ?content),
                  trace := trace w' @ [FileWrite authPath ?content]\<rparr>)
          = trace w @ [UsageGet (map_of ts ''access_token'') ?hdr, TokenPost rt,
                       FileWrite authPath ?content]"
      by (simp add: tr' tr1)
    then have tr2: "trace w2 = trace w @ [UsageGet (map_of ts ''access_token'') ?hdr, TokenPost rt,
                       FileWrite authPath ?content]"
      unfolding w2 [symmetric] .
    from refresh_ok_not_aborted [OF ref'] have na2: "\<not> aborted e w2" .
    obtain r3 w3 where f3: "fetchUsage e (Some newtok) acct w2 = (r3, w3)"
      by (cases "fetchUsage e (Some newtok) acct w2")
    from fetchUsage_shape [OF f3] na2
    have tr3: "trace w3 = trace w2 @ [UsageGet (Some newtok) ?hdr]" by simp
    have res: "fetchUsageWithRetry e authPath auth acct w =
                   (case r3 of Inl err4 \<Rightarrow> Inl err4
                             | Inr usagePayload \<Rightarrow> Inr (usagePayload, auth2), w3)"
      unfolding fetchUsageWithRetry_unfold tok rtv using init st rt(2) ref' acc f3
      by (cases r3) simp_all
    have last: "(case fetchUsage e (Some newtok) acct w2 of
              (r3, w3) \<Rightarrow>
                 trace w3 = trace w2 @ [UsageGet (Some newtok) ?hdr]
               \<and> fetchUsageWithRetry e authPath auth acct w =
                   (case r3 of Inl err4 \<Rightarrow> Inl err4
                             | Inr usagePayload \<Rightarrow> Inr (usagePayload, auth2), w3))"
      unfolding f3 using tr3 res by simp
    have "\<exists>refreshed w' newtok content.
           requestTokenRefresh e rt w1 = (Inr refreshed, w')
         \<and> js_get (Some refreshed) ''access_token'' = Some newtok
         \<and> js_get (map_of auth2 ''tokens'') ''access_token'' = Some newtok
         \<and> files w2 authPath = Some content
         \<and> trace w2 = trace w @ [UsageGet (map_of ts ''access_token'') ?hdr,
                                  TokenPost rt, FileWrite authPath content]
         \<and> (case fetchUsage e (Some newtok) acct w2 of
              (r3, w3) \<Rightarrow>
                 trace w3 = trace w2 @ [UsageGet (Some newtok) ?hdr]
               \<and> fetchUsageWithRetry e authPath auth acct w =
                   (case r3 of Inl err4 \<Rightarrow> Inl err4
                             | Inr usagePayload \<Rightarrow> Inr (usagePayload, auth2), w3))"
      apply (rule exI [of _ refreshed])
      apply (rule exI [of _ w'])
      apply (rule exI [of _ newtok])
      apply (rule exI [of _ ?content])
      apply (intro conjI req nt acc fl tr2 last)
      done
    then show ?thesis unfolding ref' by simp
  qed
qed

text \<open>
  Claim C1, as amended. Take a bundle whose \<open>tokens\<close> field is an object holding a
  truthy refresh token, and let the first usage request fail with status 401. Then one
  request goes to the token endpoint. If that refresh fails, its error is the result
  and nothing else has happened. If it succeeds, the bundle has been written to its
  location, exactly one more usage request is made, with the access token the endpoint
  returned, and whatever that request gives (a payload, or any error, a second 401
  included) is the result. A first failure of any other kind, or one with no refresh
  token at hand, is the result as it is, with nothing sent after it.
\<close>

theorem usage_retry_rule:
  "(map_of auth ''tokens'' = Some (JObj ts)
    \<and> fetchUsage e (map_of ts ''access_token'') acct w = (Inl err, w1)
    \<and> err_status err = Some 401
    \<and> map_of ts ''refresh_token'' = Some rt \<and> truthy rt
    \<longrightarrow>
    (case refreshTokensAndPersist e authPath auth (Some rt) w1 of
       (Inl err2, w2) \<Rightarrow>
          fetchUsageWithRetry e authPath auth acct w = (Inl err2, w2)
          \<and> trace w2 = trace w @ [UsageGet (map_of ts ''access_token'')
                                     (if truthy acct then Some acct else None),
                                   TokenPost rt]
     | (Inr auth2, w2) \<Rightarrow>
         (\<exists>refreshed w' newtok content.
             requestTokenRefresh e rt w1 = (Inr refreshed, w')
           \<and> js_get (Some refreshed) ''access_token'' = Some newtok
           \<and> js_get (map_of auth2 ''tokens'') ''access_token'' = Some newtok
           \<and> files w2 authPath = Some content
           \<and> trace w2 = trace w @ [UsageGet (map_of ts ''access_token'')
                                      (if truthy acct then Some acct else None),
                                    TokenPost rt, FileWrite authPath content]
           \<and> (case fetchUsage e (Some newtok) acct w2 of
                (r3, w3) \<Rightarrow>
                   trace w3 = trace w2 @ [UsageGet (Some newtok)
                                            (if truthy acct then Some acct else None)]
                 \<and> fetchUsageWithRetry e authPath auth acct w =
                     (case r3 of Inl err4 \<Rightarrow> Inl err4
                               | Inr usagePayload \<Rightarrow> Inr (usagePayload, auth2), w3)))))
   \<and> (fetchUsage e (js_get (map_of auth ''tokens'') ''access_token'') acct w = (Inl err, w1)
      \<and> \<not> (err_status err = Some 401
             \<and> js_truthy (js_get (map_of auth ''tokens'') ''refresh_token''))
      \<longrightarrow> fetchUsageWithRetry e authPath auth acct w = (Inl err, w1))"
proof (intro conjI impI, goal_cases)
  case 1
  then show ?case
    by (elim conjE) (rule retry_after_401, assumption+)
next
  case 2
  then show ?case
    by (elim conjE) (rule retry_other_failure, assumption+)
qed

section \<open>The session\<close>

lemma loadAuth_tokens_object:
  assumes "loadAuth e authPath w = Inr auth"
  shows "\<exists>ts s. map_of auth ''tokens'' = Some (JObj ts) \<and> map_of ts ''access_token'' = Some (JStr s)
               \<and> s \<noteq> []"
proof -
  from assms have v: "validateTokenBundle (map_of auth ''tokens'') = None"
    by (auto simp: loadAuth_def Let_def split: sum.splits json.splits option.splits)
  then have t: "js_truthy (map_of auth ''tokens'')"
    by (auto simp: validateTokenBundle_def split: if_splits)
  from v obtain s where s: "js_get (map_of auth ''tokens'') ''access_token'' = Some (JStr s)" "s \<noteq> []"
    by (auto simp: validateTokenBundle_def split: if_splits option.splits json.splits)
  then obtain ts where "map_of auth ''tokens'' = Some (JObj ts)"
    by (cases "map_of auth ''tokens''"; cases "the (map_of auth ''tokens'')") auto
  with s show ?thesis by auto
qed

text \<open>
  Claim C7. Let the signal be clear and the bundle load and validate, with an access
  token that the staleness check finds stale, and no (or an empty) refresh token. Then
  the proactive step leaves the bundle and the world alone, and the session is exactly
  one usage request with the access token of the bundle: the request is sent; if it
  fails, its error is the error of the session, and if it succeeds, the session ends
  with the result assembled from its payload, or with the error of the assembling.
  Nothing is sent to the token endpoint.
\<close>

theorem stale_without_refresh_token:
  assumes "\<not> aborted e w"
    and "loadAuth e authPath w = Inr auth"
    and "shouldRefreshNow e (clock w) (js_get (map_of auth ''tokens'') ''access_token'')"
    and "\<not> js_truthy (js_get (map_of auth ''tokens'') ''refresh_token'')"
  shows "proactiveRefresh e authPath auth w = (Inr auth, w)
    \<and> collectUsageForAuth e authPath w =
        (case fetchUsage e (js_get (map_of auth ''tokens'') ''access_token'')
                (resolveAccountId (map_of auth ''tokens'')
                   (decodeIdToken e (js_get (map_of auth ''tokens'') ''id_token''))) w of
           (Inl err, w1) \<Rightarrow> (Inl err, w1)
         | (Inr usagePayload, w1) \<Rightarrow>
             (assembleResult e authPath auth
                (decodeIdToken e (js_get (map_of auth ''tokens'') ''id_token''))
                (resolveAccountId (map_of auth ''tokens'')
                   (decodeIdToken e (js_get (map_of auth ''tokens'') ''id_token'')))
                usagePayload w1, w1))
    \<and> trace (snd (collectUsageForAuth e authPath w)) =
        trace w @ [UsageGet (js_get (map_of auth ''tokens'') ''access_token'')
                     (if truthy (resolveAccountId (map_of auth ''tokens'')
                          (decodeIdToken e (js_get (map_of auth ''tokens'') ''id_token'')))
                      then Some (resolveAccountId (map_of auth ''tokens'')
                          (decodeIdToken e (js_get (map_of auth ''tokens'') ''id_token'')))
                      else None)]"
proof -
  let ?tokens = "map_of auth ''tokens''"
  let ?tok = "js_get ?tokens ''access_token''"
  let ?ident = "decodeIdToken e (js_get ?tokens ''id_token'')"
  let ?acct = "resolveAccountId ?tokens ?ident"
  have pro: "proactiveRefresh e authPath auth w = (Inr auth, w)"
    using assms(4) by (simp add: proactiveRefresh_def Let_def)
  obtain r1 w1 where f: "fetchUsage e ?tok ?acct w = (r1, w1)"
    by (cases "fetchUsage e ?tok ?acct w")
  from fetchUsage_shape [OF f] assms(1)
  have tr: "trace w1 = trace w @ [UsageGet ?tok (if truthy ?acct then Some ?acct else None)]"
    by simp
  have retry: "fetchUsageWithRetry e authPath auth ?acct w =
      (case r1 of Inl err \<Rightarrow> Inl err | Inr payload \<Rightarrow> Inr (payload, auth), w1)"
  proof (cases r1)
    case (Inl err)
    with f assms(4) retry_other_failure [of e auth ?acct w err w1 authPath] show ?thesis by simp
  next
    case (Inr payload)
    with f retry_not_needed [of e auth ?acct w payload w1 authPath] show ?thesis by simp
  qed
  have col: "collectUsageForAuth e authPath w =
        (case r1 of
           Inl err \<Rightarrow> (Inl err, w1)
         | Inr usagePayload \<Rightarrow>
             (assembleResult e authPath auth ?ident ?acct usagePayload w1, w1))"
    using assms(1,2) pro retry
    by (cases r1) (simp_all add: collectUsageForAuth_def ensureNotAborted_def Let_def)
  have col': "collectUsageForAuth e authPath w =
        (case fetchUsage e ?tok ?acct w of
           (Inl err, w1) \<Rightarrow> (Inl err, w1)
         | (Inr usagePayload, w1) \<Rightarrow>
             (assembleResult e authPath auth ?ident ?acct usagePayload w1, w1))"
    unfolding col f by (cases r1) simp_all
  have "snd (collectUsageForAuth e authPath w) = w1"
    unfolding col by (cases r1) simp_all
  with tr have tr': "trace (snd (collectUsageForAuth e authPath w)) =
        trace w @ [UsageGet ?tok (if truthy ?acct then Some ?acct else None)]"
    by simp
  show ?thesis
    by (intro conjI pro col' tr')
qed

section \<open>One pass\<close>

lemma isAbortError_abortError: "isAbortError abortError"
  by (simp add: isAbortError_def abortError_def)

lemma sessions_in_order_length:
  "sessions_in_order e authPaths entries w w' \<Longrightarrow> length entries = length authPaths"
proof (induction authPaths arbitrary: entries w)
  case Nil
  then show ?case by (cases entries) simp_all
next
  case (Cons authArg rest)
  then obtain entry more where en: "entries = entry # more"
    by (cases entries) simp_all
  obtain r1 w1 where c: "collectUsageForAuth e (path_resolve e authArg) w = (r1, w1)"
    by (cases "collectUsageForAuth e (path_resolve e authArg) w")
  from Cons.prems en c have "sessions_in_order e rest more w1 w'"
    by (cases r1) simp_all
  from Cons.IH [OF this] en show ?case by simp
qed

lemma renderAccounts_step:
  "renderAccounts e (authArg # rest) results w =
     (if aborted e w then (Inl abortError, w)
      else (case collectUsageForAuth e (path_resolve e authArg) w of
              (Inr result, w1) \<Rightarrow> renderAccounts e rest (results @ [Collected result]) w1
            | (Inl err, w1) \<Rightarrow>
                if isAbortError err then (Inl err, w1)
                else renderAccounts e rest
                       (results @ [Failed (path_resolve e authArg) (error_text err)]) w1))"
  by (simp add: ensureNotAborted_def Let_def)

lemma renderAccounts_raises:
  "renderAccounts e authPaths results w = (Inl err, w') \<Longrightarrow> isAbortError err"
proof (induction authPaths arbitrary: results w)
  case Nil
  then show ?case by simp
next
  case (Cons authArg rest)
  obtain r1 w1 where c: "collectUsageForAuth e (path_resolve e authArg) w = (r1, w1)"
    by (cases "collectUsageForAuth e (path_resolve e authArg) w")
  show ?case
  proof (cases "aborted e w")
    case True
    with Cons.prems show ?thesis
      unfolding renderAccounts_step by (simp add: isAbortError_abortError)
  next
    case False
    show ?thesis
    proof (cases r1)
      case (Inr result)
      with Cons.prems False c
      have "renderAccounts e rest (results @ [Collected result]) w1 = (Inl err, w')"
        unfolding renderAccounts_step by simp
      then show ?thesis by (rule Cons.IH)
    next
      case (Inl err1)
      show ?thesis
      proof (cases "isAbortError err1")
        case True
        with Cons.prems False c Inl show ?thesis
          unfolding renderAccounts_step by simp
      next
        case nab: False
        with Cons.prems False c Inl
        have "renderAccounts e rest
                (results @ [Failed (path_resolve e authArg) (error_text err1)]) w1
              = (Inl err, w')"
          unfolding renderAccounts_step by simp
        then show ?thesis by (rule Cons.IH)
      qed
    qed
  qed
qed

lemma renderAccounts_returns:
  "renderAccounts e authPaths results w = (Inr all, w') \<Longrightarrow>
     \<exists>new. all = results @ new \<and> sessions_in_order e authPaths new w w'"
proof (induction authPaths arbitrary: results w)
  case Nil
  then show ?case by simp
next
  case (Cons authArg rest)
  let ?p = "path_resolve e authArg"
  obtain r1 w1 where c: "collectUsageForAuth e ?p w = (r1, w1)"
    by (cases "collectUsageForAuth e ?p w")
  from Cons.prems have na: "\<not> aborted e w"
    unfolding renderAccounts_step by (cases "aborted e w") simp_all
  show ?case
  proof (cases r1)
    case (Inr result)
    with Cons.prems na c
    have "renderAccounts e rest (results @ [Collected result]) w1 = (Inr all, w')"
      unfolding renderAccounts_step by simp
    from Cons.IH [OF this] obtain new where
      n: "all = (results @ [Collected result]) @ new" "sessions_in_order e rest new w1 w'"
      by blast
    from n(2) na c Inr
    have "sessions_in_order e (authArg # rest) (Collected result # new) w w'" by simp
    with n(1) show ?thesis by (intro exI [of _ "Collected result # new"]) simp
  next
    case (Inl err1)
    from Cons.prems na c Inl have nab: "\<not> isAbortError err1"
      unfolding renderAccounts_step by (cases "isAbortError err1") simp_all
    with Cons.prems na c Inl
    have "renderAccounts e rest (results @ [Failed ?p (error_text err1)]) w1 = (Inr all, w')"
      unfolding renderAccounts_step by simp
    from Cons.IH [OF this] obtain new where
      n: "all = (results @ [Failed ?p (error_text err1)]) @ new"
         "sessions_in_order e rest new w1 w'"
      by blast
    from n(2) na c Inl nab
    have "sessions_in_order e (authArg # rest) (Failed ?p (error_text err1) # new) w w'"
      by simp
    with n(1) show ?thesis by (intro exI [of _ "Failed ?p (error_text err1) # new"]) simp
  qed
qed

lemma renderAccounts_runs:
  "sessions_in_order e authPaths new w w' \<Longrightarrow>
     renderAccounts e authPaths results w = (Inr (results @ new), w')"
proof (induction authPaths arbitrary: new results w)
  case Nil
  then show ?case by (cases new) simp_all
next
  case (Cons authArg rest)
  let ?p = "path_resolve e authArg"
  from Cons.prems obtain entry more where en: "new = entry # more"
    by (cases new) simp_all
  obtain r1 w1 where c: "collectUsageForAuth e ?p w = (r1, w1)"
    by (cases "collectUsageForAuth e ?p w")
  from Cons.prems en have na: "\<not> aborted e w" by simp
  show ?case
  proof (cases r1)
    case (Inr result)
    with Cons.prems en c have
      s: "entry = Collected result" "sessions_in_order e rest more w1 w'"
      by simp_all
    from Cons.IH [OF s(2), of "results @ [Collected result]"] na c Inr en s(1)
    show ?thesis unfolding renderAccounts_step by simp
  next
    case (Inl err1)
    with Cons.prems en c have
      s: "\<not> isAbortError err1" "entry = Failed ?p (error_text err1)"
         "sessions_in_order e rest more w1 w'"
      by simp_all
    from Cons.IH [OF s(3), of "results @ [Failed ?p (error_text err1)]"] na c Inl en s(1,2)
    show ?thesis unfolding renderAccounts_step by simp
  qed
qed

lemma sessions_in_order_not_aborted:
  "sessions_in_order e authPaths entries w w' \<Longrightarrow> \<not> aborted e w' \<Longrightarrow> \<not> aborted e w"
  by (cases authPaths; cases entries) auto

text \<open>
  Claim C4. A pass returns a list of entries exactly when the sessions of all the
  configured locations, run one after the other, each in the world the one before it
  left, give these entries, no one of them failing with a cancellation, and the signal
  is clear at the start of each session and at the end: so every location has its
  entry, a session that fails with an error that is not a cancellation gives the entry
  \<^verbatim>\<open>{ authFile, error }\<close> with the text of that error, and the sessions after it are run
  all the same. What a pass raises is a cancellation, and a pass started with the
  signal aborted raises one.
\<close>

theorem renderOnce_isolates_failures:
  "(renderOnce e authPaths w = (Inr results, w')
      \<longleftrightarrow> sessions_in_order e authPaths results w w' \<and> \<not> aborted e w')
   \<and> (renderOnce e authPaths w = (Inr results, w') \<longrightarrow> length results = length authPaths)
   \<and> (renderOnce e authPaths w = (Inl err, w') \<longrightarrow> isAbortError err)
   \<and> (aborted e w \<longrightarrow> renderOnce e authPaths w = (Inl abortError, w))"
proof (intro conjI impI iffI)
  assume run: "renderOnce e authPaths w = (Inr results, w')"
  obtain r1 w1 where acc: "renderAccounts e authPaths [] w = (r1, w1)"
    by (cases "renderAccounts e authPaths [] w")
  from run have na: "\<not> aborted e w"
    by (cases "aborted e w") (simp_all add: renderOnce_def ensureNotAborted_def)
  from run na acc obtain all where r1: "r1 = Inr all"
    by (cases r1) (simp_all add: renderOnce_def ensureNotAborted_def)
  from run na acc r1 have na1: "\<not> aborted e w1"
    by (cases "aborted e w1") (simp_all add: renderOnce_def ensureNotAborted_def)
  from run na acc r1 na1 have eq: "all = results" "w1 = w'"
    by (simp_all add: renderOnce_def ensureNotAborted_def)
  from renderAccounts_returns [OF acc [unfolded r1]] eq
  have "sessions_in_order e authPaths results w w'" by simp
  with na1 eq show "sessions_in_order e authPaths results w w'" and "\<not> aborted e w'"
    by simp_all
  then show "length results = length authPaths"
    by (simp add: sessions_in_order_length)
next
  assume s: "sessions_in_order e authPaths results w w' \<and> \<not> aborted e w'"
  then have na: "\<not> aborted e w" using sessions_in_order_not_aborted by blast
  from s renderAccounts_runs [of e authPaths results w w' "[]"]
  have "renderAccounts e authPaths [] w = (Inr results, w')" by simp
  with s na show "renderOnce e authPaths w = (Inr results, w')"
    by (simp add: renderOnce_def ensureNotAborted_def)
next
  assume run: "renderOnce e authPaths w = (Inl err, w')"
  obtain r1 w1 where acc: "renderAccounts e authPaths [] w = (r1, w1)"
    by (cases "renderAccounts e authPaths [] w")
  show "isAbortError err"
  proof (cases "aborted e w")
    case True
    with run show ?thesis
      by (simp add: renderOnce_def ensureNotAborted_def isAbortError_abortError)
  next
    case False
    show ?thesis
    proof (cases r1)
      case (Inl err1)
      with run False acc have "err1 = err"
        by (simp add: renderOnce_def ensureNotAborted_def)
      with renderAccounts_raises [OF acc [unfolded Inl]] show ?thesis by simp
    next
      case (Inr all)
      with run False acc show ?thesis
        by (cases "aborted e w1")
           (simp_all add: renderOnce_def ensureNotAborted_def isAbortError_abortError)
    qed
  qed
next
  assume "aborted e w"
  then show "renderOnce e authPaths w = (Inl abortError, w)"
    by (simp add: renderOnce_def ensureNotAborted_def)
qed

section \<open>The repeating mode: cadence and ticks\<close>

lemma tailLoop_cadence:
  "cadence_kept lastRenderAt (fst (snd (tailLoop n e render renderResults lastRenderAt w)))"
proof (induction n arbitrary: lastRenderAt w)
  case 0
  then show ?case by simp
next
  case (Suc n)
  show ?case
  proof (cases "lastRenderAt = 0 \<or> REFRESH_INTERVAL_MS \<le> clock w - lastRenderAt")
    case due: True
    obtain r w1 where p: "render w = (r, w1)" by (cases "render w")
    have start: "lastRenderAt = 0 \<or> 30000 \<le> clock w - lastRenderAt"
      using due by (simp add: REFRESH_INTERVAL_MS_def)
    show ?thesis
    proof (cases "aborted e w1")
      case True
      with due p start show ?thesis by (simp add: Let_def)
    next
      case False
      show ?thesis
      proof (cases r)
        case (Inl err)
        with due p start False show ?thesis by (simp add: Let_def)
      next
        case (Inr results)
        show ?thesis
        proof (cases "renderResults results")
          case (Some err)
          with due p start False Inr show ?thesis by (simp add: Let_def)
        next
          case None
          obtain st evs w2 where rec:
            "tailLoop n e render renderResults (clock w1) w1 = (st, evs, w2)"
            by (cases "tailLoop n e render renderResults (clock w1) w1")
          from Suc.IH [of "clock w1" w1] rec have "cadence_kept (clock w1) evs" by simp
          with due p start False Inr None rec show ?thesis by (simp add: Let_def)
        qed
      qed
    qed
  next
    case notdue: False
    then have nd: "lastRenderAt \<noteq> 0" "clock w - lastRenderAt < 30000"
      by (simp_all add: REFRESH_INTERVAL_MS_def)
    let ?d = "min POLL_INTERVAL_MS (max 0 (REFRESH_INTERVAL_MS - (clock w - lastRenderAt)))"
    have d: "?d = min 500 (max 0 (30000 - (clock w - lastRenderAt)))" "0 < ?d"
      using nd by (simp_all add: POLL_INTERVAL_MS_def REFRESH_INTERVAL_MS_def)
    obtain o1 w1 where s: "sleep_or_quit e ?d w = (o1, w1)"
      by (cases "sleep_or_quit e ?d w")
    show ?thesis
    proof (cases o1)
      case quit
      with notdue s nd d show ?thesis by (simp add: Let_def)
    next
      case tick
      obtain st evs w2 where rec:
        "tailLoop n e render renderResults lastRenderAt w1 = (st, evs, w2)"
        by (cases "tailLoop n e render renderResults lastRenderAt w1")
      from Suc.IH [of lastRenderAt w1] rec have "cadence_kept lastRenderAt evs" by simp
      with notdue s nd d tick rec show ?thesis by (simp add: Let_def)
    qed
  qed
qed

lemma tailLoop_ticks:
  "ticks_bounded (fst (snd (tailLoop n e render renderResults lastRenderAt w)))"
proof (induction n arbitrary: lastRenderAt w)
  case 0
  then show ?case by simp
next
  case (Suc n)
  show ?case
  proof (cases "lastRenderAt = 0 \<or> REFRESH_INTERVAL_MS \<le> clock w - lastRenderAt")
    case due: True
    obtain r w1 where p: "render w = (r, w1)" by (cases "render w")
    show ?thesis
    proof (cases "aborted e w1")
      case True
      with due p show ?thesis by (simp add: Let_def)
    next
      case False
      show ?thesis
      proof (cases r)
        case (Inl err)
        with due p False show ?thesis by (simp add: Let_def)
      next
        case (Inr results)
        show ?thesis
        proof (cases "renderResults results")
          case (Some err)
          with due p False Inr show ?thesis by (simp add: Let_def)
        next
          case None
          obtain st evs w2 where rec:
            "tailLoop n e render renderResults (clock w1) w1 = (st, evs, w2)"
            by (cases "tailLoop n e render renderResults (clock w1) w1")
          from Suc.IH [of "clock w1" w1] rec have "ticks_bounded evs" by simp
          with due p False Inr None rec show ?thesis by (simp add: Let_def)
        qed
      qed
    qed
  next
    case notdue: False
    let ?d = "min POLL_INTERVAL_MS (max 0 (REFRESH_INTERVAL_MS - (clock w - lastRenderAt)))"
    have d: "?d \<le> POLL_INTERVAL_MS" by simp
    obtain o1 w1 where s: "sleep_or_quit e ?d w = (o1, w1)"
      by (cases "sleep_or_quit e ?d w")
    show ?thesis
    proof (cases o1)
      case quit
      with notdue s d show ?thesis by (simp add: Let_def)
    next
      case tick
      obtain st evs w2 where rec:
        "tailLoop n e render renderResults lastRenderAt w1 = (st, evs, w2)"
        by (cases "tailLoop n e render renderResults lastRenderAt w1")
      from Suc.IH [of lastRenderAt w1] rec have "ticks_bounded evs" by simp
      with notdue s d tick rec show ?thesis by (simp add: Let_def)
    qed
  qed
qed

lemma sleep_or_quit_quit:
  assumes "quit_at e = Some q" "clock w \<le> q" "q \<le> clock w + ms + int (timer_lag e (clock w))"
  shows "sleep_or_quit e ms w = (quit, w\<lparr>clock := q\<rparr>)"
  using assms by (simp add: sleep_or_quit_def aborted_def Let_def max_def)

lemma sleep_or_quit_tick:
  assumes "quit_at e = Some q" "clock w + ms + int (timer_lag e (clock w)) < q"
  shows "sleep_or_quit e ms w = (tick, w\<lparr>clock := clock w + ms + int (timer_lag e (clock w))\<rparr>)"
  using assms by (simp add: sleep_or_quit_def aborted_def Let_def)

lemma quit_during_wait:
  assumes "quit_at e = Some q" "lastRenderAt \<noteq> 0" "q - lastRenderAt < REFRESH_INTERVAL_MS"
  shows "clock w \<le> q \<Longrightarrow> nat (q - clock w) < n \<Longrightarrow>
     \<exists>evs. tailLoop n e render renderResults lastRenderAt w = (Quit, evs, w\<lparr>clock := q\<rparr>)
          \<and> pass_starts evs = []"
proof (induction n arbitrary: w)
  case 0
  then show ?case by simp
next
  case (Suc n)
  let ?d = "min POLL_INTERVAL_MS (max 0 (REFRESH_INTERVAL_MS - (clock w - lastRenderAt)))"
  let ?fires = "clock w + ?d + int (timer_lag e (clock w))"
  from assms(3) Suc.prems(1) have nd: "clock w - lastRenderAt < REFRESH_INTERVAL_MS" by simp
  with assms(2) have notdue: "\<not> (lastRenderAt = 0 \<or> REFRESH_INTERVAL_MS \<le> clock w - lastRenderAt)"
    by simp
  from nd have dpos: "0 < ?d" by (simp add: POLL_INTERVAL_MS_def)
  show ?case
  proof (cases "q \<le> ?fires")
    case True
    from sleep_or_quit_quit [OF assms(1) Suc.prems(1) True]
    have "tailLoop (Suc n) e render renderResults lastRenderAt w
          = (Quit, [Tick (clock w) ?d], w\<lparr>clock := q\<rparr>)"
      using notdue by (simp add: Let_def)
    then show ?thesis by simp
  next
    case False
    then have lt: "?fires < q" by simp
    let ?w1 = "w\<lparr>clock := ?fires\<rparr>"
    from lt have c1: "clock ?w1 \<le> q" by simp
    from lt dpos Suc.prems(2) have "nat (q - ?fires) < n" by linarith
    then have c2: "nat (q - clock ?w1) < n" by simp
    from Suc.IH [OF c1 c2] obtain evs where
      rec: "tailLoop n e render renderResults lastRenderAt ?w1 = (Quit, evs, ?w1\<lparr>clock := q\<rparr>)"
      and ps: "pass_starts evs = []"
      by blast
    from sleep_or_quit_tick [OF assms(1) lt] rec
    have "tailLoop (Suc n) e render renderResults lastRenderAt w
          = (Quit, Tick (clock w) ?d # evs, w\<lparr>clock := q\<rparr>)"
      using notdue by (simp add: Let_def)
    with ps show ?thesis by simp
  qed
qed

section \<open>The staleness check\<close>

text \<open>
  Claim C2. When the payload of the access token decodes and carries a numeric expiry
  \<open>x\<close>, the staleness check is true exactly when the current time in whole seconds is
  at least \<open>x - 60\<close>: false for an expiry more than 60 seconds ahead, true for one at
  most 60 seconds ahead. When the payload does not decode, or decodes to something
  without a numeric expiry, the check is false; it has a value in every case, the
  \<^verbatim>\<open>catch\<close> having turned every error into \<^verbatim>\<open>false\<close>.
\<close>

theorem shouldRefreshNow_staleness:
  "(decodeJwtPayload e tok = Inr payload \<and> js_get (Some payload) ''exp'' = Some (JNum x) \<longrightarrow>
       shouldRefreshNow e now_ms tok = (x - 60 \<le> of_int (now_ms div 1000))
       \<and> (of_int (now_ms div 1000) + 60 < x \<longrightarrow> \<not> shouldRefreshNow e now_ms tok)
       \<and> (x \<le> of_int (now_ms div 1000) + 60 \<longrightarrow> shouldRefreshNow e now_ms tok))
   \<and> ((\<forall>p y. decodeJwtPayload e tok = Inr p \<longrightarrow> js_get (Some p) ''exp'' \<noteq> Some (JNum y))
        \<longrightarrow> \<not> shouldRefreshNow e now_ms tok)"
proof -
  have a: "shouldRefreshNow e now_ms tok = (x - 60 \<le> of_int (now_ms div 1000))"
    if "decodeJwtPayload e tok = Inr payload" "js_get (Some payload) ''exp'' = Some (JNum x)"
  proof -
    from that(2) have "truthy payload" by (cases payload) simp_all
    with that show ?thesis by (simp add: shouldRefreshNow_def EXP_SKEW_SECONDS_def)
  qed
  have b: "\<not> shouldRefreshNow e now_ms tok"
    if "\<forall>p y. decodeJwtPayload e tok = Inr p \<longrightarrow> js_get (Some p) ''exp'' \<noteq> Some (JNum y)"
    using that
    by (auto simp: shouldRefreshNow_def split: sum.splits option.splits json.splits)
  from a b show ?thesis by auto
qed

text \<open>
  The check on the three tokens of the examples at the time 1700000000000: the token
  that expires in 30 seconds is stale, the token that expires in an hour is not, and a
  string with no separator, whose payload is \<^verbatim>\<open>null\<close>, is not.
\<close>

theorem shouldRefreshNow_staleness_witness:
  "decodeJwtPayload ex_env (Some (JStr stale_token)) = Inr (JObj [(''exp'', JNum 1700000030)])
   \<and> shouldRefreshNow ex_env 1700000000000 (Some (JStr stale_token))
   \<and> decodeJwtPayload ex_env (Some (JStr fresh_token)) = Inr (JObj [(''exp'', JNum 1700003600)])
   \<and> \<not> shouldRefreshNow ex_env 1700000000000 (Some (JStr fresh_token))
   \<and> decodeJwtPayload ex_env (Some (JStr ''opaque'')) = Inr JNull
   \<and> \<not> shouldRefreshNow ex_env 1700000000000 (Some (JStr ''opaque''))"
proof -
  have d1: "decodeJwtPayload ex_env (Some (JStr stale_token)) = Inr (JObj [(''exp'', JNum 1700000030)])"
    by code_simp
  have g1: "js_get (Some (JObj [(''exp'', JNum 1700000030)])) ''exp'' = Some (JNum 1700000030)"
    by simp
  have d2: "decodeJwtPayload ex_env (Some (JStr fresh_token)) = Inr (JObj [(''exp'', JNum 1700003600)])"
    by code_simp
  have g2: "js_get (Some (JObj [(''exp'', JNum 1700003600)])) ''exp'' = Some (JNum 1700003600)"
    by simp
  have d3: "decodeJwtPayload ex_env (Some (JStr ''opaque'')) = Inr JNull"
    by code_simp
  have g3: "\<forall>p y. decodeJwtPayload ex_env (Some (JStr ''opaque'')) = Inr p
              \<longrightarrow> js_get (Some p) ''exp'' \<noteq> Some (JNum y)"
    unfolding d3 by simp
  from shouldRefreshNow_staleness
         [of ex_env "Some (JStr stale_token)" "JObj [(''exp'', JNum 1700000030)]" 1700000030
            1700000000000] d1 g1
  have s1: "shouldRefreshNow ex_env 1700000000000 (Some (JStr stale_token))" by simp
  from shouldRefreshNow_staleness
         [of ex_env "Some (JStr fresh_token)" "JObj [(''exp'', JNum 1700003600)]" 1700003600
            1700000000000] d2 g2
  have s2: "\<not> shouldRefreshNow ex_env 1700000000000 (Some (JStr fresh_token))" by simp
  from shouldRefreshNow_staleness [of ex_env "Some (JStr ''opaque'')" JNull 0 1700000000000] g3
  have s3: "\<not> shouldRefreshNow ex_env 1700000000000 (Some (JStr ''opaque''))" by blast
  show ?thesis
    by (intro conjI d1 s1 d2 s2 d3 s3)
qed

section \<open>Claims about the repeating mode\<close>

lemma tailLoop_due:
  assumes "lastRenderAt = 0 \<or> REFRESH_INTERVAL_MS \<le> clock w - lastRenderAt"
  shows "\<exists>st evs w'. tailLoop (Suc n) e render renderResults lastRenderAt w
                       = (st, PassStart (clock w) # evs, w')"
proof -
  obtain r w1 where p: "render w = (r, w1)" by (cases "render w")
  show ?thesis
  proof (cases "aborted e w1")
    case True
    with assms p show ?thesis by (simp add: Let_def)
  next
    case False
    show ?thesis
    proof (cases r)
      case (Inl err)
      with assms p False show ?thesis by (simp add: Let_def)
    next
      case (Inr results)
      show ?thesis
      proof (cases "renderResults results")
        case (Some err)
        with assms p False Inr show ?thesis by (simp add: Let_def)
      next
        case None
        obtain st evs w2 where rec:
          "tailLoop n e render renderResults (clock w1) w1 = (st, evs, w2)"
          by (cases "tailLoop n e render renderResults (clock w1) w1")
        with assms p False Inr None show ?thesis by (simp add: Let_def)
      qed
    qed
  qed
qed

lemma tailLoop_wait:
  assumes "lastRenderAt \<noteq> 0" "clock w - lastRenderAt < REFRESH_INTERVAL_MS"
  shows "\<exists>st evs w'. tailLoop (Suc n) e render renderResults lastRenderAt w
           = (st, Tick (clock w)
                    (min POLL_INTERVAL_MS
                       (max 0 (REFRESH_INTERVAL_MS - (clock w - lastRenderAt)))) # evs, w')"
proof -
  let ?d = "min POLL_INTERVAL_MS (max 0 (REFRESH_INTERVAL_MS - (clock w - lastRenderAt)))"
  from assms have notdue: "\<not> (lastRenderAt = 0 \<or> REFRESH_INTERVAL_MS \<le> clock w - lastRenderAt)"
    by simp
  obtain o1 w1 where s: "sleep_or_quit e ?d w = (o1, w1)"
    by (cases "sleep_or_quit e ?d w")
  show ?thesis
  proof (cases o1)
    case quit
    with notdue s show ?thesis by (simp add: Let_def)
  next
    case tick
    obtain st evs w2 where rec:
      "tailLoop n e render renderResults lastRenderAt w1 = (st, evs, w2)"
      by (cases "tailLoop n e render renderResults lastRenderAt w1")
    with notdue s tick show ?thesis by (simp add: Let_def)
  qed
qed

lemma tailLoop_completed:
  assumes "lastRenderAt = 0 \<or> REFRESH_INTERVAL_MS \<le> clock w - lastRenderAt"
    and "render w = (Inr results, wa)" and "\<not> aborted e wa"
    and "renderResults results = None"
  shows "tailLoop (Suc n) e render renderResults lastRenderAt w
         = logged [PassStart (clock w), Rendered (clock wa)]
             (tailLoop n e render renderResults (clock wa) wa)"
  using assms by (simp add: Let_def)

lemma tailLoop_ticked:
  assumes "lastRenderAt \<noteq> 0" "clock w - lastRenderAt < REFRESH_INTERVAL_MS"
    and "sleep_or_quit e
           (min POLL_INTERVAL_MS (max 0 (REFRESH_INTERVAL_MS - (clock w - lastRenderAt)))) w
         = (tick, wa)"
  shows "tailLoop (Suc n) e render renderResults lastRenderAt w
         = logged [Tick (clock w)
                     (min POLL_INTERVAL_MS
                        (max 0 (REFRESH_INTERVAL_MS - (clock w - lastRenderAt))))]
             (tailLoop n e render renderResults lastRenderAt wa)"
proof -
  from assms(1,2) have "\<not> (lastRenderAt = 0 \<or> REFRESH_INTERVAL_MS \<le> clock w - lastRenderAt)"
    by simp
  with assms(3) show ?thesis by (simp add: Let_def)
qed

lemma cadence_kept_after_pass:
  "cadence_kept prev (evs1 @ PassStart t1 # Rendered r1 # rest) \<Longrightarrow> cadence_kept r1 rest"
  by (induction prev evs1 rule: cadence_kept.induct) simp_all

lemma cadence_kept_start:
  assumes "cadence_kept prev (PassStart t # evs)"
  shows "prev = 0 \<or> 30000 \<le> t - prev"
proof (cases evs)
  case Nil
  with assms show ?thesis by simp
next
  case (Cons ev rest)
  with assms show ?thesis by (cases ev) simp_all
qed

lemma cadence_kept_next_start:
  "cadence_kept r (mid @ PassStart t2 # evs2) \<Longrightarrow> pass_starts mid = [] \<Longrightarrow> r \<noteq> 0
     \<Longrightarrow> 30000 \<le> t2 - r"
proof (induction r mid rule: cadence_kept.induct)
  case (1 prev)
  with cadence_kept_start [of prev t2 evs2] show ?case by simp
qed simp_all

lemma cadence_kept_spacing:
  assumes "cadence_kept prev (evs1 @ PassStart t1 # Rendered r1 # mid @ PassStart t2 # evs2)"
    and "pass_starts mid = []" and "r1 \<noteq> 0"
  shows "30000 + (r1 - t1) \<le> t2 - t1"
proof -
  from cadence_kept_after_pass [OF assms(1)]
  have "cadence_kept r1 (mid @ PassStart t2 # evs2)" .
  from cadence_kept_next_start [OF this assms(2,3)] show ?thesis by simp
qed

text \<open>
  Claim C3, as amended. The 30 seconds are counted from the moment the results of a
  pass were printed, which is the value of \<^verbatim>\<open>lastRenderAt\<close>, to the start of the next
  pass.
  \<^item> In every run, however long: a pass starts only when there has been none or at
    least 30 seconds have gone by since the results of the last one were printed, and a
    wait starts only when less than that has gone by, asking for
    \<open>min 500 (max 0 (30000 - (now - lastRenderAt)))\<close> milliseconds, which is more than
    none.
  \<^item> Whenever a run starts a pass at \<open>ta\<close>, prints its results at \<open>ra\<close> (the clock not
    reading 0 then) and starts the next pass at \<open>tb\<close>, the two starts are at least 30
    seconds and the duration \<open>ra - ta\<close> of the first pass apart.
  \<^item> A turn of the loop at which a pass is due and completes goes on with the time of
    that completion, the clock after the pass, as \<^verbatim>\<open>lastRenderAt\<close>.
  \<^item> A turn of the loop at which a pass is not due and the wait ends with a tick goes
    on with \<^verbatim>\<open>lastRenderAt\<close> as it is.
  \<^item> At each turn of the loop, a pass starts at once if one is due, and otherwise the
    loop waits for the time given above.
  \<^item> A run starts its first pass at once, and when that pass completes it goes on with
    the time of the completion as \<^verbatim>\<open>lastRenderAt\<close>.
\<close>

theorem tail_cadence:
  "cadence_kept 0 (fst (snd (runTailLoop n e render renderResults w)))
   \<and> (fst (snd (runTailLoop n e render renderResults w))
          = earlier @ PassStart ta # Rendered ra # mid @ PassStart tb # later
        \<and> pass_starts mid = [] \<and> ra \<noteq> 0 \<longrightarrow>
        30000 + (ra - ta) \<le> tb - ta)
   \<and> ((lastRenderAt = 0 \<or> REFRESH_INTERVAL_MS \<le> clock w - lastRenderAt)
        \<and> render w = (Inr results, wa) \<and> \<not> aborted e wa \<and> renderResults results = None \<longrightarrow>
        tailLoop (Suc n) e render renderResults lastRenderAt w
          = logged [PassStart (clock w), Rendered (clock wa)]
              (tailLoop n e render renderResults (clock wa) wa))
   \<and> (lastRenderAt \<noteq> 0 \<and> clock w - lastRenderAt < REFRESH_INTERVAL_MS
        \<and> sleep_or_quit e
             (min POLL_INTERVAL_MS (max 0 (REFRESH_INTERVAL_MS - (clock w - lastRenderAt)))) w
           = (tick, wb) \<longrightarrow>
        tailLoop (Suc n) e render renderResults lastRenderAt w
          = logged [Tick (clock w)
                      (min POLL_INTERVAL_MS
                         (max 0 (REFRESH_INTERVAL_MS - (clock w - lastRenderAt))))]
              (tailLoop n e render renderResults lastRenderAt wb))
   \<and> (lastRenderAt = 0 \<or> REFRESH_INTERVAL_MS \<le> clock w - lastRenderAt \<longrightarrow>
        (\<exists>st evs w'. tailLoop (Suc n) e render renderResults lastRenderAt w
                       = (st, PassStart (clock w) # evs, w')))
   \<and> (lastRenderAt \<noteq> 0 \<and> clock w - lastRenderAt < REFRESH_INTERVAL_MS \<longrightarrow>
        (\<exists>st evs w'. tailLoop (Suc n) e render renderResults lastRenderAt w
           = (st, Tick (clock w)
                    (min POLL_INTERVAL_MS
                       (max 0 (REFRESH_INTERVAL_MS - (clock w - lastRenderAt)))) # evs, w')))
   \<and> (\<exists>st evs w'. runTailLoop (Suc n) e render renderResults w
                     = (st, PassStart (clock w) # evs, w'))
   \<and> (render w = (Inr results, wa) \<and> \<not> aborted e wa \<and> renderResults results = None \<longrightarrow>
        runTailLoop (Suc n) e render renderResults w
          = logged [PassStart (clock w), Rendered (clock wa)]
              (tailLoop n e render renderResults (clock wa) wa))"
proof (intro conjI impI, goal_cases)
  case 1
  show ?case unfolding runTailLoop_def by (rule tailLoop_cadence)
next
  case 7
  show ?case unfolding runTailLoop_def by (rule tailLoop_due) simp
next
  case 8
  then show ?case unfolding runTailLoop_def
    by (elim conjE) (rule tailLoop_completed, simp_all)
next
  case 2
  have "cadence_kept 0 (fst (snd (runTailLoop n e render renderResults w)))"
    unfolding runTailLoop_def by (rule tailLoop_cadence)
  with 2 have "cadence_kept 0 (earlier @ PassStart ta # Rendered ra # mid @ PassStart tb # later)"
    by simp
  with 2 show ?case by (elim conjE) (rule cadence_kept_spacing)
next
  case 3
  then show ?case by (elim conjE) (rule tailLoop_completed)
next
  case 4
  then show ?case by (elim conjE) (rule tailLoop_ticked)
next
  case 5
  then show ?case by (rule tailLoop_due)
next
  case 6
  then show ?case by (elim conjE) (rule tailLoop_wait)
qed

text \<open>
  A run in which every pass takes five seconds: the first pass starts at once, its
  results are printed five seconds later, and the second pass starts 30 seconds after
  that, which is 35 seconds after the first one started.
\<close>

theorem passes_start_35_seconds_apart:
  "pass_starts (fst (snd (runTailLoop 62 ex_env ex_slow_pass ex_renderResults ex_world)))
   = [1700000000000, 1700000035000]"
  by code_simp

text \<open>
  The same run keeps the cadence. Its record is the first pass, started at
  1700000000000 and printed at 1700000005000, sixty waits of 500 ms, and the second
  pass, started at 1700000035000: 30 seconds and the five seconds of the first pass
  after the first start. Its first turn goes on with 1700000005000 as
  \<^verbatim>\<open>lastRenderAt\<close>, and a turn taken then waits for 500 ms and goes on with the same
  value.
\<close>

theorem tail_cadence_witness:
  "cadence_kept 0 (fst (snd (runTailLoop 62 ex_env ex_slow_pass ex_renderResults ex_world)))
   \<and> fst (snd (runTailLoop 62 ex_env ex_slow_pass ex_renderResults ex_world))
       = [] @ PassStart 1700000000000 # Rendered 1700000005000
           # map (\<lambda>i. Tick (1700000005000 + 500 * int i) 500) [0..<60]
           @ PassStart 1700000035000 # [Rendered 1700000040000]
   \<and> pass_starts (map (\<lambda>i. Tick (1700000005000 + 500 * int i) 500) [0..<60]) = []
   \<and> (30000 :: int) + (1700000005000 - 1700000000000) \<le> 1700000035000 - 1700000000000
   \<and> ex_slow_pass ex_world = (Inr [], ex_world_waiting)
   \<and> \<not> aborted ex_env ex_world_waiting
   \<and> tailLoop (Suc 61) ex_env ex_slow_pass ex_renderResults 0 ex_world
       = logged [PassStart (clock ex_world), Rendered (clock ex_world_waiting)]
           (tailLoop 61 ex_env ex_slow_pass ex_renderResults (clock ex_world_waiting)
              ex_world_waiting)
   \<and> clock ex_world_waiting - 1700000005000 < REFRESH_INTERVAL_MS
   \<and> sleep_or_quit ex_env
        (min POLL_INTERVAL_MS
           (max 0 (REFRESH_INTERVAL_MS - (clock ex_world_waiting - 1700000005000))))
        ex_world_waiting
       = (tick, ex_world_waiting\<lparr>clock := 1700000005500\<rparr>)
   \<and> tailLoop (Suc 60) ex_env ex_slow_pass ex_renderResults 1700000005000 ex_world_waiting
       = logged [Tick (clock ex_world_waiting)
                   (min POLL_INTERVAL_MS
                      (max 0 (REFRESH_INTERVAL_MS - (clock ex_world_waiting - 1700000005000))))]
           (tailLoop 60 ex_env ex_slow_pass ex_renderResults 1700000005000
              (ex_world_waiting\<lparr>clock := 1700000005500\<rparr>))
   \<and> (\<exists>st evs w'. tailLoop (Suc 0) ex_env ex_slow_pass ex_renderResults 0 ex_world
                       = (st, PassStart (clock ex_world) # evs, w'))
   \<and> (\<exists>st evs w'. tailLoop (Suc 0) ex_env ex_slow_pass ex_renderResults 1700000005000
                      ex_world_waiting
           = (st, Tick (clock ex_world_waiting)
                    (min POLL_INTERVAL_MS
                       (max 0 (REFRESH_INTERVAL_MS - (clock ex_world_waiting - 1700000005000))))
                  # evs, w'))
   \<and> runTailLoop (Suc 61) ex_env ex_slow_pass ex_renderResults ex_world
       = logged [PassStart (clock ex_world), Rendered (clock ex_world_waiting)]
           (tailLoop 61 ex_env ex_slow_pass ex_renderResults (clock ex_world_waiting)
              ex_world_waiting)"
proof -
  let ?mid = "map (\<lambda>i. Tick (1700000005000 + 500 * int i) 500) [0..<60]"
  let ?d = "min POLL_INTERVAL_MS
              (max 0 (REFRESH_INTERVAL_MS - (clock ex_world_waiting - 1700000005000)))"
  note a = tail_cadence [where n = 62 and e = ex_env and render = ex_slow_pass
      and renderResults = ex_renderResults and w = ex_world and lastRenderAt = 0
      and earlier = "[]" and ta = 1700000000000 and ra = 1700000005000 and mid = ?mid
      and tb = 1700000035000 and later = "[Rendered 1700000040000]"]
  note a1 = tail_cadence [where n = 61 and e = ex_env and render = ex_slow_pass
      and renderResults = ex_renderResults and w = ex_world and lastRenderAt = 0
      and results = "[]" and wa = ex_world_waiting]
  note a0 = tail_cadence [where n = 0 and e = ex_env and render = ex_slow_pass
      and renderResults = ex_renderResults and w = ex_world and lastRenderAt = 0]
  note b60 = tail_cadence [where n = 60 and e = ex_env and render = ex_slow_pass
      and renderResults = ex_renderResults and w = ex_world_waiting
      and lastRenderAt = 1700000005000
      and wb = "ex_world_waiting\<lparr>clock := 1700000005500\<rparr>"]
  note b = tail_cadence [where n = 0 and e = ex_env and render = ex_slow_pass
      and renderResults = ex_renderResults and w = ex_world_waiting
      and lastRenderAt = 1700000005000]
  from a have c1: "cadence_kept 0
      (fst (snd (runTailLoop 62 ex_env ex_slow_pass ex_renderResults ex_world)))"
    by (rule conjunct1)
  have l: "fst (snd (runTailLoop 62 ex_env ex_slow_pass ex_renderResults ex_world))
       = [] @ PassStart 1700000000000 # Rendered 1700000005000 # ?mid
           @ PassStart 1700000035000 # [Rendered 1700000040000]"
    by code_simp
  have m: "pass_starts ?mid = []" by code_simp
  have nz: "(1700000005000 :: int) \<noteq> 0" by simp
  from a l m nz
  have c2: "(30000 :: int) + (1700000005000 - 1700000000000) \<le> 1700000035000 - 1700000000000"
    by blast
  have p: "ex_slow_pass ex_world = (Inr [], ex_world_waiting)"
    by (simp add: ex_slow_pass_def ex_world_waiting_def ex_world_def)
  have na: "\<not> aborted ex_env ex_world_waiting"
    by (simp add: aborted_def ex_env_def)
  have rr: "ex_renderResults [] = None" by (simp add: ex_renderResults_def)
  from a1 p na rr
  have c3: "tailLoop (Suc 61) ex_env ex_slow_pass ex_renderResults 0 ex_world
       = logged [PassStart (clock ex_world), Rendered (clock ex_world_waiting)]
           (tailLoop 61 ex_env ex_slow_pass ex_renderResults (clock ex_world_waiting)
              ex_world_waiting)"
    by blast
  have h: "clock ex_world_waiting - 1700000005000 < REFRESH_INTERVAL_MS"
    by (simp add: ex_world_waiting_def REFRESH_INTERVAL_MS_def)
  have sl: "sleep_or_quit ex_env ?d ex_world_waiting
            = (tick, ex_world_waiting\<lparr>clock := 1700000005500\<rparr>)"
    by (simp add: sleep_or_quit_def aborted_def ex_env_def ex_world_waiting_def
          POLL_INTERVAL_MS_def REFRESH_INTERVAL_MS_def Let_def)
  from b60 nz h sl
  have c4: "tailLoop (Suc 60) ex_env ex_slow_pass ex_renderResults 1700000005000
              ex_world_waiting
       = logged [Tick (clock ex_world_waiting) ?d]
           (tailLoop 60 ex_env ex_slow_pass ex_renderResults 1700000005000
              (ex_world_waiting\<lparr>clock := 1700000005500\<rparr>))"
    by blast
  from a0 have c5: "\<exists>st evs w'. tailLoop (Suc 0) ex_env ex_slow_pass ex_renderResults 0 ex_world
                       = (st, PassStart (clock ex_world) # evs, w')"
    by simp
  from b h nz have c6: "\<exists>st evs w'. tailLoop (Suc 0) ex_env ex_slow_pass ex_renderResults
                      1700000005000 ex_world_waiting
           = (st, Tick (clock ex_world_waiting) ?d # evs, w')"
    by blast
  from a1 p na rr
  have c7: "runTailLoop (Suc 61) ex_env ex_slow_pass ex_renderResults ex_world
       = logged [PassStart (clock ex_world), Rendered (clock ex_world_waiting)]
           (tailLoop 61 ex_env ex_slow_pass ex_renderResults (clock ex_world_waiting)
              ex_world_waiting)"
    by blast
  show ?thesis by (intro conjI c1 l m c2 p na c3 h sl c4 c5 c6 c7)
qed

text \<open>
  Claim C6. In every run each wait asks for at most 500 ms. And if the quit key is
  pressed while the loop is waiting for the next pass to be due, the loop, given enough
  turns, has left by a quit: it returns normally, its clock reads the time of the key
  press, so it left within the tick that was running, and it has started no pass. So
  does a run from the start whose first pass completes, when the key is pressed in the
  30 seconds after that: it ends with the quit at the time of the key press, having
  started that one pass and waited in ticks.
\<close>

theorem tail_quit_within_tick:
  "ticks_bounded (fst (snd (runTailLoop n e render renderResults w)))
   \<and> (quit_at e = Some q \<and> lastRenderAt \<noteq> 0 \<and> q - lastRenderAt < REFRESH_INTERVAL_MS
        \<and> clock w \<le> q \<and> nat (q - clock w) < n \<longrightarrow>
        (\<exists>evs. tailLoop n e render renderResults lastRenderAt w = (Quit, evs, w\<lparr>clock := q\<rparr>)
              \<and> pass_starts evs = [] \<and> ticks_bounded evs))
   \<and> (render w = (Inr results, wa) \<and> renderResults results = None \<and> quit_at e = Some q
        \<and> clock wa \<noteq> 0 \<and> clock wa < q \<and> q - clock wa < REFRESH_INTERVAL_MS
        \<and> nat (q - clock wa) < n \<longrightarrow>
        (\<exists>evs. runTailLoop (Suc n) e render renderResults w
                = (Quit, PassStart (clock w) # Rendered (clock wa) # evs, wa\<lparr>clock := q\<rparr>)
              \<and> pass_starts evs = [] \<and> ticks_bounded evs))"
proof (intro conjI impI, goal_cases)
  case 1
  show ?case unfolding runTailLoop_def by (rule tailLoop_ticks)
next
  case 3
  then have h: "render w = (Inr results, wa)" "renderResults results = None"
    "quit_at e = Some q" "clock wa \<noteq> 0" "clock wa < q"
    "q - clock wa < REFRESH_INTERVAL_MS" "nat (q - clock wa) < n"
    by simp_all
  from h(3,5) have na: "\<not> aborted e wa" by (simp add: aborted_def)
  have due: "(0 :: int) = 0 \<or> REFRESH_INTERVAL_MS \<le> clock w - 0" by simp
  from h(5) have le: "clock wa \<le> q" by simp
  from quit_during_wait [OF h(3,4,6) le h(7)] obtain evs where
    ex: "tailLoop n e render renderResults (clock wa) wa = (Quit, evs, wa\<lparr>clock := q\<rparr>)"
    and ps: "pass_starts evs = []"
    by blast
  from tailLoop_ticks [of n e render renderResults "clock wa" wa] ex
  have tb: "ticks_bounded evs" by simp
  from tailLoop_completed [where lastRenderAt = 0 and render = render and w = w and e = e
      and renderResults = renderResults and n = n, OF due h(1) na h(2)] ex
  have "runTailLoop (Suc n) e render renderResults w
        = (Quit, PassStart (clock w) # Rendered (clock wa) # evs, wa\<lparr>clock := q\<rparr>)"
    unfolding runTailLoop_def by simp
  with ps tb show ?case by (intro exI [of _ evs] conjI)
next
  case 2
  then have h: "quit_at e = Some q" "lastRenderAt \<noteq> 0" "q - lastRenderAt < REFRESH_INTERVAL_MS"
    "clock w \<le> q" "nat (q - clock w) < n"
    by simp_all
  from quit_during_wait [OF h] obtain evs where
    ex: "tailLoop n e render renderResults lastRenderAt w = (Quit, evs, w\<lparr>clock := q\<rparr>)"
    and ps: "pass_starts evs = []"
    by blast
  from tailLoop_ticks [of n e render renderResults lastRenderAt w] ex
  have "ticks_bounded evs" by simp
  with ex ps show ?case by blast
qed

text \<open>
  The quit key is pressed at 1700000006250, in the third tick of a wait that began
  at 1700000005000: the loop has left by then, by a quit, after three ticks of 500 ms.
\<close>

theorem tail_quit_within_tick_witness:
  "quit_at ex_env_quit = Some 1700000006250
   \<and> clock ex_world_waiting \<le> 1700000006250
   \<and> nat (1700000006250 - clock ex_world_waiting) < 1300
   \<and> (\<exists>evs. tailLoop 1300 ex_env_quit ex_slow_pass ex_renderResults 1700000005000
               ex_world_waiting
             = (Quit, evs, ex_world_waiting\<lparr>clock := 1700000006250\<rparr>)
           \<and> pass_starts evs = [] \<and> ticks_bounded evs)
   \<and> fst (snd (tailLoop 1300 ex_env_quit ex_slow_pass ex_renderResults 1700000005000
                  ex_world_waiting))
       = [Tick 1700000005000 500, Tick 1700000005500 500, Tick 1700000006000 500]
   \<and> ex_slow_pass ex_world = (Inr [], ex_world_waiting)
   \<and> (\<exists>evs. runTailLoop (Suc 1300) ex_env_quit ex_slow_pass ex_renderResults ex_world
             = (Quit, PassStart (clock ex_world) # Rendered (clock ex_world_waiting) # evs,
                ex_world_waiting\<lparr>clock := 1700000006250\<rparr>)
           \<and> pass_starts evs = [] \<and> ticks_bounded evs)"
proof -
  have h1: "quit_at ex_env_quit = Some 1700000006250"
    by (simp add: ex_env_quit_def)
  have h2: "(1700000005000 :: int) \<noteq> 0" by simp
  have h3: "(1700000006250 :: int) - 1700000005000 < REFRESH_INTERVAL_MS"
    by (simp add: REFRESH_INTERVAL_MS_def)
  have h4: "clock ex_world_waiting \<le> 1700000006250"
    by (simp add: ex_world_waiting_def)
  have h5: "nat (1700000006250 - clock ex_world_waiting) < 1300"
    by (simp add: ex_world_waiting_def)
  note inst = tail_quit_within_tick [where n = 1300 and e = ex_env_quit
      and render = ex_slow_pass and renderResults = ex_renderResults
      and w = ex_world_waiting and q = 1700000006250 and lastRenderAt = 1700000005000]
  from inst h1 h2 h3 h4 h5 have c: "\<exists>evs. tailLoop 1300 ex_env_quit ex_slow_pass
               ex_renderResults 1700000005000 ex_world_waiting
             = (Quit, evs, ex_world_waiting\<lparr>clock := 1700000006250\<rparr>)
           \<and> pass_starts evs = [] \<and> ticks_bounded evs"
    by blast
  have d: "fst (snd (tailLoop 1300 ex_env_quit ex_slow_pass ex_renderResults 1700000005000
                  ex_world_waiting))
       = [Tick 1700000005000 500, Tick 1700000005500 500, Tick 1700000006000 500]"
    by code_simp
  have p: "ex_slow_pass ex_world = (Inr [], ex_world_waiting)"
    by (simp add: ex_slow_pass_def ex_world_waiting_def ex_world_def)
  have rr: "ex_renderResults [] = None" by (simp add: ex_renderResults_def)
  have k1: "clock ex_world_waiting \<noteq> 0" by (simp add: ex_world_waiting_def)
  have k2: "clock ex_world_waiting < 1700000006250" by (simp add: ex_world_waiting_def)
  have k3: "1700000006250 - clock ex_world_waiting < REFRESH_INTERVAL_MS"
    by (simp add: ex_world_waiting_def REFRESH_INTERVAL_MS_def)
  note run = tail_quit_within_tick [where n = 1300 and e = ex_env_quit
      and render = ex_slow_pass and renderResults = ex_renderResults
      and w = ex_world and q = 1700000006250 and results = "[]" and wa = ex_world_waiting]
  from run p rr h1 k1 k2 k3 h5
  have f: "\<exists>evs. runTailLoop (Suc 1300) ex_env_quit ex_slow_pass ex_renderResults ex_world
             = (Quit, PassStart (clock ex_world) # Rendered (clock ex_world_waiting) # evs,
                ex_world_waiting\<lparr>clock := 1700000006250\<rparr>)
           \<and> pass_starts evs = [] \<and> ticks_bounded evs"
    by blast
  show ?thesis by (intro conjI h1 h4 h5 c d p f)
qed

section \<open>Example runs of the refresh operation\<close>

text \<open>
  A refresh with an empty refresh token, and one with none: the error, and the world
  as it was.
\<close>

theorem refresh_without_token_witness:
  "\<not> js_truthy (Some (JStr ''''))
   \<and> refreshTokensAndPersist ex_env ''/c.json'' ex_bundle_no_refresh (Some (JStr '''')) ex_world
       = (Inl missing_refresh_token, ex_world)
   \<and> refreshTokensAndPersist ex_env ''/c.json'' ex_bundle_no_refresh None ex_world
       = (Inl missing_refresh_token, ex_world)"
proof -
  have h1: "\<not> js_truthy (Some (JStr ''''))" by simp
  have h2: "\<not> js_truthy None" by simp
  from refresh_without_token [OF h1, of ex_env "''/c.json''" ex_bundle_no_refresh ex_world]
    refresh_without_token [OF h2, of ex_env "''/c.json''" ex_bundle_no_refresh ex_world] h1
  show ?thesis by (intro conjI) (elim conjE, assumption)+
qed

text \<open>
  A refresh of the bundle at \<^verbatim>\<open>/b.json\<close>: the token endpoint returns only an access
  token, so the identity token \<^verbatim>\<open>x\<close>, the refresh token \<^verbatim>\<open>r1\<close>, the account id and the
  API key field stay as they are.
\<close>

lemma ex_refresh_result:
  "fst (refreshTokensAndPersist ex_env ''/b.json'' (ex_bundle fresh_token) (Some (JStr ''r1''))
          ex_world)
   = Inr (ex_refreshed ''2023-11-14T22:13:20.120Z'')"
  by code_simp

lemma ex_refresh_run:
  "refreshTokensAndPersist ex_env ''/b.json'' (ex_bundle fresh_token) (Some (JStr ''r1'')) ex_world
   = (Inr (ex_refreshed ''2023-11-14T22:13:20.120Z''),
      snd (refreshTokensAndPersist ex_env ''/b.json'' (ex_bundle fresh_token)
             (Some (JStr ''r1'')) ex_world))"
  using ex_refresh_result by (simp add: prod_eq_iff)

theorem refresh_keeps_other_fields_witness:
  "fst (refreshTokensAndPersist ex_env ''/b.json'' (ex_bundle fresh_token) (Some (JStr ''r1''))
          ex_world)
     = Inr (ex_refreshed ''2023-11-14T22:13:20.120Z'')
   \<and> files (snd (refreshTokensAndPersist ex_env ''/b.json'' (ex_bundle fresh_token)
                   (Some (JStr ''r1'')) ex_world)) ''/b.json''
     = Some (JSON_stringify_2 ex_env (JObj (ex_refreshed ''2023-11-14T22:13:20.120Z''))
             @ [CHR 0x0A])
   \<and> map_of (ex_refreshed ''2023-11-14T22:13:20.120Z'') ''OPENAI_API_KEY''
     = map_of (ex_bundle fresh_token) ''OPENAI_API_KEY''
   \<and> js_get (map_of (ex_refreshed ''2023-11-14T22:13:20.120Z'') ''tokens'') ''account_id''
     = js_get (map_of (ex_bundle fresh_token) ''tokens'') ''account_id''
   \<and> js_get (map_of (ex_refreshed ''2023-11-14T22:13:20.120Z'') ''tokens'') ''account_id''
     = Some (JStr ''acct-1'')"
proof -
  note kept = refresh_keeps_other_fields [OF ex_refresh_run]
  from kept have written:
    "files (snd (refreshTokensAndPersist ex_env ''/b.json'' (ex_bundle fresh_token)
                   (Some (JStr ''r1'')) ex_world)) ''/b.json''
     = Some (JSON_stringify_2 ex_env (JObj (ex_refreshed ''2023-11-14T22:13:20.120Z''))
             @ [CHR 0x0A])"
    by (rule conjunct1)
  from kept have "\<forall>k. k \<noteq> ''tokens'' \<and> k \<noteq> ''last_refresh'' \<longrightarrow>
      map_of (ex_refreshed ''2023-11-14T22:13:20.120Z'') k = map_of (ex_bundle fresh_token) k"
    by (elim conjE)
  then have key: "map_of (ex_refreshed ''2023-11-14T22:13:20.120Z'') ''OPENAI_API_KEY''
     = map_of (ex_bundle fresh_token) ''OPENAI_API_KEY''"
    by simp
  from kept have "\<forall>k. k \<noteq> ''access_token'' \<and> k \<noteq> ''id_token'' \<and> k \<noteq> ''refresh_token'' \<longrightarrow>
      js_get (map_of (ex_refreshed ''2023-11-14T22:13:20.120Z'') ''tokens'') k
      = js_get (map_of (ex_bundle fresh_token) ''tokens'') k"
    by (elim conjE)
  then have acct: "js_get (map_of (ex_refreshed ''2023-11-14T22:13:20.120Z'') ''tokens'') ''account_id''
     = js_get (map_of (ex_bundle fresh_token) ''tokens'') ''account_id''"
    by simp
  have val: "js_get (map_of (ex_refreshed ''2023-11-14T22:13:20.120Z'') ''tokens'') ''account_id''
     = Some (JStr ''acct-1'')"
    by code_simp
  show ?thesis
    by (intro conjI ex_refresh_result written key acct val)
qed

lemma ex_world_trace: "trace ex_world = []"
  by (simp add: ex_world_def)

lemma ex_stringify_120:
  "JSON_stringify_2 ex_env (JObj (ex_refreshed ''2023-11-14T22:13:20.120Z''))
   = ex_pretty ''2023-11-14T22:13:20.120Z''"
  by (simp add: ex_env_def ex_stringify_def)

text \<open>
  The same refresh: one request, one write of the pretty-printed bundle and a newline
  to \<^verbatim>\<open>/b.json\<close>, the new access token in it, and the stamp of the time 120 ms
  after the start, when the response arrived.
\<close>

theorem refresh_persists_witness:
  "fst (refreshTokensAndPersist ex_env ''/b.json'' (ex_bundle fresh_token) (Some (JStr ''r1''))
          ex_world)
     = Inr (ex_refreshed ''2023-11-14T22:13:20.120Z'')
   \<and> map_of (ex_bundle fresh_token) ''tokens'' = Some (JObj (ex_tokens fresh_token))
   \<and> trace (snd (refreshTokensAndPersist ex_env ''/b.json'' (ex_bundle fresh_token)
                   (Some (JStr ''r1'')) ex_world))
     = [TokenPost (JStr ''r1''),
        FileWrite ''/b.json'' (ex_pretty ''2023-11-14T22:13:20.120Z'' @ [CHR 0x0A])]
   \<and> files (snd (refreshTokensAndPersist ex_env ''/b.json'' (ex_bundle fresh_token)
                   (Some (JStr ''r1'')) ex_world)) ''/b.json''
     = Some (ex_pretty ''2023-11-14T22:13:20.120Z'' @ [CHR 0x0A])
   \<and> js_get (map_of (ex_refreshed ''2023-11-14T22:13:20.120Z'') ''tokens'') ''access_token''
     = Some (JStr new_token)
   \<and> map_of (ex_refreshed ''2023-11-14T22:13:20.120Z'') ''last_refresh''
     = Some (JStr (toISOString ex_env 1700000000120))
   \<and> clock (snd (refreshTokensAndPersist ex_env ''/b.json'' (ex_bundle fresh_token)
                   (Some (JStr ''r1'')) ex_world)) = 1700000000120"
proof -
  let ?w' = "snd (refreshTokensAndPersist ex_env ''/b.json'' (ex_bundle fresh_token)
                   (Some (JStr ''r1'')) ex_world)"
  let ?auth' = "ex_refreshed ''2023-11-14T22:13:20.120Z''"
  have obj: "map_of (ex_bundle fresh_token) ''tokens'' = Some (JObj (ex_tokens fresh_token))"
    by code_simp
  from refresh_persists [OF ex_refresh_run obj] obtain rt refreshed w1 tok where
    rt: "Some (JStr ''r1'') = Some rt" and
    fl: "files ?w' ''/b.json'' = Some (JSON_stringify_2 ex_env (JObj ?auth') @ [CHR 0x0A])" and
    tr: "trace ?w' = trace ex_world @ [TokenPost rt,
           FileWrite ''/b.json'' (JSON_stringify_2 ex_env (JObj ?auth') @ [CHR 0x0A])]"
    by blast
  from rt have rt': "rt = JStr ''r1''" by simp
  have c3: "trace ?w' = [TokenPost (JStr ''r1''),
        FileWrite ''/b.json'' (ex_pretty ''2023-11-14T22:13:20.120Z'' @ [CHR 0x0A])]"
    using tr unfolding rt' ex_stringify_120 ex_world_trace by simp
  have c4: "files ?w' ''/b.json'' = Some (ex_pretty ''2023-11-14T22:13:20.120Z'' @ [CHR 0x0A])"
    using fl unfolding ex_stringify_120 .
  have c5: "js_get (map_of ?auth' ''tokens'') ''access_token'' = Some (JStr new_token)"
    by code_simp
  have c6: "map_of ?auth' ''last_refresh'' = Some (JStr (toISOString ex_env 1700000000120))"
    by code_simp
  have c7: "clock ?w' = 1700000000120"
    by code_simp
  show ?thesis
    by (intro conjI ex_refresh_result obj c3 c4 c5 c6 c7)
qed

section \<open>Example sessions\<close>

text \<open>
  The session of \<^verbatim>\<open>/b.json\<close>: the access token is not stale, the usage endpoint
  answers it with 401, the refresh succeeds, and the second request succeeds. And that
  of \<^verbatim>\<open>/c.json\<close>, which has no refresh token: the 401 is final.
\<close>

theorem usage_retry_rule_witness:
  "map_of (ex_bundle fresh_token) ''tokens'' = Some (JObj (ex_tokens fresh_token))
   \<and> fst (fetchUsage ex_env (map_of (ex_tokens fresh_token) ''access_token'') (JStr ''acct-1'')
            ex_world) = Inl ex_401
   \<and> err_status ex_401 = Some 401
   \<and> map_of (ex_tokens fresh_token) ''refresh_token'' = Some (JStr ''r1'')
   \<and> fst (fetchUsageWithRetry ex_env ''/b.json'' (ex_bundle fresh_token) (JStr ''acct-1'')
            ex_world)
       = Inr (ex_usage, ex_refreshed ''2023-11-14T22:13:20.200Z'')
   \<and> trace (snd (fetchUsageWithRetry ex_env ''/b.json'' (ex_bundle fresh_token)
                   (JStr ''acct-1'') ex_world))
       = [UsageGet (Some (JStr fresh_token)) (Some (JStr ''acct-1'')),
          TokenPost (JStr ''r1''),
          FileWrite ''/b.json'' (ex_pretty ''2023-11-14T22:13:20.200Z'' @ [CHR 0x0A]),
          UsageGet (Some (JStr new_token)) (Some (JStr ''acct-1''))]
   \<and> \<not> js_truthy (js_get (map_of ex_bundle_no_refresh ''tokens'') ''refresh_token'')
   \<and> fetchUsageWithRetry ex_env ''/c.json'' ex_bundle_no_refresh (JStr ''acct-1'') ex_world
       = (Inl ex_401,
          snd (fetchUsage ex_env (js_get (map_of ex_bundle_no_refresh ''tokens'') ''access_token'')
                 (JStr ''acct-1'') ex_world))"
proof -
  let ?acct = "JStr ''acct-1''"
  let ?hdr = "Some (JStr ''acct-1'')"
  let ?auth = "ex_bundle fresh_token"
  define w1 where
    "w1 = snd (fetchUsage ex_env (map_of (ex_tokens fresh_token) ''access_token'') ?acct ex_world)"
  let ?auth2 = "ex_refreshed ''2023-11-14T22:13:20.200Z''"
  define w2 where
    "w2 = snd (refreshTokensAndPersist ex_env ''/b.json'' ?auth (Some (JStr ''r1'')) w1)"
  let ?content = "ex_pretty ''2023-11-14T22:13:20.200Z'' @ [CHR 0x0A]"
  have h1: "map_of ?auth ''tokens'' = Some (JObj (ex_tokens fresh_token))"
    by code_simp
  have h2: "fst (fetchUsage ex_env (map_of (ex_tokens fresh_token) ''access_token'') ?acct
                   ex_world) = Inl ex_401"
    by code_simp
  then have h2': "fetchUsage ex_env (map_of (ex_tokens fresh_token) ''access_token'') ?acct
                   ex_world = (Inl ex_401, w1)"
    by (simp add: prod_eq_iff w1_def)
  have h3: "err_status ex_401 = Some 401"
    by (simp add: ex_401_def http_error_def)
  have h4: "map_of (ex_tokens fresh_token) ''refresh_token'' = Some (JStr ''r1'')"
    by code_simp
  have h5: "truthy (JStr ''r1'')" by simp
  have hyp: "map_of ?auth ''tokens'' = Some (JObj (ex_tokens fresh_token))
    \<and> fetchUsage ex_env (map_of (ex_tokens fresh_token) ''access_token'') ?acct ex_world
        = (Inl ex_401, w1)
    \<and> err_status ex_401 = Some 401
    \<and> map_of (ex_tokens fresh_token) ''refresh_token'' = Some (JStr ''r1'') \<and> truthy (JStr ''r1'')"
    by (intro conjI h1 h2' h3 h4 h5)
  have tk: "map_of (ex_tokens fresh_token) ''access_token'' = Some (JStr fresh_token)"
    by code_simp
  have ta: "truthy ?acct" by simp
  have r: "fst (refreshTokensAndPersist ex_env ''/b.json'' ?auth (Some (JStr ''r1'')) w1)
           = Inr ?auth2"
    unfolding w1_def by code_simp
  then have r': "refreshTokensAndPersist ex_env ''/b.json'' ?auth (Some (JStr ''r1'')) w1
           = (Inr ?auth2, w2)"
    by (simp add: prod_eq_iff w2_def)
  note rule = usage_retry_rule [of ?auth "ex_tokens fresh_token" ex_env ?acct ex_world ex_401 w1
      "JStr ''r1''" "''/b.json''"]
  from rule have "map_of ?auth ''tokens'' = Some (JObj (ex_tokens fresh_token))
    \<and> fetchUsage ex_env (map_of (ex_tokens fresh_token) ''access_token'') ?acct ex_world
        = (Inl ex_401, w1)
    \<and> err_status ex_401 = Some 401
    \<and> map_of (ex_tokens fresh_token) ''refresh_token'' = Some (JStr ''r1'') \<and> truthy (JStr ''r1'')
    \<longrightarrow> (case refreshTokensAndPersist ex_env ''/b.json'' ?auth (Some (JStr ''r1'')) w1 of
       (Inl err2, w2) \<Rightarrow>
          fetchUsageWithRetry ex_env ''/b.json'' ?auth ?acct ex_world = (Inl err2, w2)
          \<and> trace w2 = trace ex_world @ [UsageGet (map_of (ex_tokens fresh_token) ''access_token'')
                                     (if truthy ?acct then Some ?acct else None),
                                   TokenPost (JStr ''r1'')]
     | (Inr auth2, w2) \<Rightarrow>
         (\<exists>refreshed w' newtok content.
             requestTokenRefresh ex_env (JStr ''r1'') w1 = (Inr refreshed, w')
           \<and> js_get (Some refreshed) ''access_token'' = Some newtok
           \<and> js_get (map_of auth2 ''tokens'') ''access_token'' = Some newtok
           \<and> files w2 ''/b.json'' = Some content
           \<and> trace w2 = trace ex_world @ [UsageGet (map_of (ex_tokens fresh_token) ''access_token'')
                                      (if truthy ?acct then Some ?acct else None),
                                    TokenPost (JStr ''r1''), FileWrite ''/b.json'' content]
           \<and> (case fetchUsage ex_env (Some newtok) ?acct w2 of
                (r3, w3) \<Rightarrow>
                   trace w3 = trace w2 @ [UsageGet (Some newtok)
                                            (if truthy ?acct then Some ?acct else None)]
                 \<and> fetchUsageWithRetry ex_env ''/b.json'' ?auth ?acct ex_world =
                     (case r3 of Inl err4 \<Rightarrow> Inl err4
                               | Inr usagePayload \<Rightarrow> Inr (usagePayload, auth2), w3))))"
    by (rule conjunct1)
  from this hyp have "(case refreshTokensAndPersist ex_env ''/b.json'' ?auth (Some (JStr ''r1'')) w1 of
       (Inl err2, w2) \<Rightarrow>
          fetchUsageWithRetry ex_env ''/b.json'' ?auth ?acct ex_world = (Inl err2, w2)
          \<and> trace w2 = trace ex_world @ [UsageGet (map_of (ex_tokens fresh_token) ''access_token'')
                                     (if truthy ?acct then Some ?acct else None),
                                   TokenPost (JStr ''r1'')]
     | (Inr auth2, w2) \<Rightarrow>
         (\<exists>refreshed w' newtok content.
             requestTokenRefresh ex_env (JStr ''r1'') w1 = (Inr refreshed, w')
           \<and> js_get (Some refreshed) ''access_token'' = Some newtok
           \<and> js_get (map_of auth2 ''tokens'') ''access_token'' = Some newtok
           \<and> files w2 ''/b.json'' = Some content
           \<and> trace w2 = trace ex_world @ [UsageGet (map_of (ex_tokens fresh_token) ''access_token'')
                                      (if truthy ?acct then Some ?acct else None),
                                    TokenPost (JStr ''r1''), FileWrite ''/b.json'' content]
           \<and> (case fetchUsage ex_env (Some newtok) ?acct w2 of
                (r3, w3) \<Rightarrow>
                   trace w3 = trace w2 @ [UsageGet (Some newtok)
                                            (if truthy ?acct then Some ?acct else None)]
                 \<and> fetchUsageWithRetry ex_env ''/b.json'' ?auth ?acct ex_world =
                     (case r3 of Inl err4 \<Rightarrow> Inl err4
                               | Inr usagePayload \<Rightarrow> Inr (usagePayload, auth2), w3))))"
    by (rule mp)
  note after = this [unfolded r' prod.case sum.case]
  from after obtain refreshed w' newtok content where
    "requestTokenRefresh ex_env (JStr ''r1'') w1 = (Inr refreshed, w')" and
    "js_get (Some refreshed) ''access_token'' = Some newtok" and
    nt: "js_get (map_of ?auth2 ''tokens'') ''access_token'' = Some newtok" and
    fl: "files w2 ''/b.json'' = Some content" and
    tr2': "trace w2 = trace ex_world @ [UsageGet (map_of (ex_tokens fresh_token) ''access_token'')
                                      (if truthy ?acct then Some ?acct else None),
                                    TokenPost (JStr ''r1''), FileWrite ''/b.json'' content]" and
    last': "(case fetchUsage ex_env (Some newtok) ?acct w2 of
                (r3, w3) \<Rightarrow>
                   trace w3 = trace w2 @ [UsageGet (Some newtok)
                                            (if truthy ?acct then Some ?acct else None)]
                 \<and> fetchUsageWithRetry ex_env ''/b.json'' ?auth ?acct ex_world =
                     (case r3 of Inl err4 \<Rightarrow> Inl err4
                               | Inr usagePayload \<Rightarrow> Inr (usagePayload, ?auth2), w3))"
    by (elim exE conjE)
  have hd: "(if truthy ?acct then Some ?acct else None) = ?hdr" by simp
  note tr2 = tr2' [unfolded hd tk]
  note last = last' [unfolded hd]
  have "js_get (map_of ?auth2 ''tokens'') ''access_token'' = Some (JStr new_token)"
    by code_simp
  with nt have newtok: "newtok = JStr new_token" by simp
  have "files w2 ''/b.json'' = Some ?content"
    unfolding w2_def w1_def by code_simp
  with fl have content: "content = ?content" by simp
  obtain r3 w3 where f3: "fetchUsage ex_env (Some newtok) ?acct w2 = (r3, w3)"
    by (cases "fetchUsage ex_env (Some newtok) ?acct w2")
  from last have tr3: "trace w3 = trace w2 @ [UsageGet (Some newtok) ?hdr]"
    and res: "fetchUsageWithRetry ex_env ''/b.json'' ?auth ?acct ex_world =
                     (case r3 of Inl err4 \<Rightarrow> Inl err4
                               | Inr usagePayload \<Rightarrow> Inr (usagePayload, ?auth2), w3)"
    unfolding f3 by simp_all
  from res have "snd (fetchUsageWithRetry ex_env ''/b.json'' ?auth ?acct ex_world) = w3"
    by simp
  with tr3 tr2 have c6: "trace (snd (fetchUsageWithRetry ex_env ''/b.json'' ?auth ?acct ex_world))
       = [UsageGet (Some (JStr fresh_token)) ?hdr,
          TokenPost (JStr ''r1''),
          FileWrite ''/b.json'' ?content,
          UsageGet (Some (JStr new_token)) ?hdr]"
    unfolding newtok content ex_world_trace by simp
  have c5: "fst (fetchUsageWithRetry ex_env ''/b.json'' ?auth ?acct ex_world)
       = Inr (ex_usage, ?auth2)"
    by code_simp
  let ?tokC = "js_get (map_of ex_bundle_no_refresh ''tokens'') ''access_token''"
  let ?wC = "snd (fetchUsage ex_env ?tokC ?acct ex_world)"
  have b1: "fst (fetchUsage ex_env ?tokC ?acct ex_world) = Inl ex_401"
    by code_simp
  then have b1': "fetchUsage ex_env ?tokC ?acct ex_world = (Inl ex_401, ?wC)"
    by (simp add: prod_eq_iff)
  have b2: "\<not> js_truthy (js_get (map_of ex_bundle_no_refresh ''tokens'') ''refresh_token'')"
    by code_simp
  then have b2': "\<not> (err_status ex_401 = Some 401
             \<and> js_truthy (js_get (map_of ex_bundle_no_refresh ''tokens'') ''refresh_token''))"
    by simp
  from usage_retry_rule [of ex_bundle_no_refresh ts ex_env ?acct ex_world ex_401 ?wC rt "''/c.json''"
      for ts rt]
  have "fetchUsage ex_env ?tokC ?acct ex_world = (Inl ex_401, ?wC)
      \<and> \<not> (err_status ex_401 = Some 401
             \<and> js_truthy (js_get (map_of ex_bundle_no_refresh ''tokens'') ''refresh_token''))
      \<longrightarrow> fetchUsageWithRetry ex_env ''/c.json'' ex_bundle_no_refresh ?acct ex_world
           = (Inl ex_401, ?wC)"
    by (rule conjunct2)
  with b1' b2' have c8: "fetchUsageWithRetry ex_env ''/c.json'' ex_bundle_no_refresh ?acct ex_world
           = (Inl ex_401, ?wC)"
    by blast
  show ?thesis
    by (intro conjI h1 h2 h3 h4 c5 c6 b2 c8)
qed

text \<open>
  The session of \<^verbatim>\<open>/a.json\<close> against a usage endpoint that answers 401 to every
  token. The access token is stale and a refresh token is there, so the session
  refreshes before its first usage request; that request fails with 401, the session
  refreshes again and asks again; the second 401 is its error. Two requests have gone
  to the token endpoint in this one session.
\<close>

theorem session_refreshes_twice:
  "trace (snd (collectUsageForAuth ex_env_locked ''/a.json'' ex_world))
     = [TokenPost (JStr ''r1''),
        FileWrite ''/a.json'' (ex_pretty ''2023-11-14T22:13:20.120Z'' @ [CHR 0x0A]),
        UsageGet (Some (JStr new_token)) (Some (JStr ''acct-1'')),
        TokenPost (JStr ''r1''),
        FileWrite ''/a.json'' (ex_pretty ''2023-11-14T22:13:20.320Z'' @ [CHR 0x0A]),
        UsageGet (Some (JStr new_token)) (Some (JStr ''acct-1''))]
   \<and> token_posts (trace (snd (collectUsageForAuth ex_env_locked ''/a.json'' ex_world))) = 2
   \<and> fst (collectUsageForAuth ex_env_locked ''/a.json'' ex_world) = Inl ex_locked"
proof -
  have run: "(case collectUsageForAuth ex_env_locked ''/a.json'' ex_world of
      (r, w') \<Rightarrow>
        r = Inl ex_locked
        \<and> trace w'
            = [TokenPost (JStr ''r1''),
               FileWrite ''/a.json'' (ex_pretty ''2023-11-14T22:13:20.120Z'' @ [CHR 0x0A]),
               UsageGet (Some (JStr new_token)) (Some (JStr ''acct-1'')),
               TokenPost (JStr ''r1''),
               FileWrite ''/a.json'' (ex_pretty ''2023-11-14T22:13:20.320Z'' @ [CHR 0x0A]),
               UsageGet (Some (JStr new_token)) (Some (JStr ''acct-1''))])"
    by code_simp
  then have a: "trace (snd (collectUsageForAuth ex_env_locked ''/a.json'' ex_world))
     = [TokenPost (JStr ''r1''),
        FileWrite ''/a.json'' (ex_pretty ''2023-11-14T22:13:20.120Z'' @ [CHR 0x0A]),
        UsageGet (Some (JStr new_token)) (Some (JStr ''acct-1'')),
        TokenPost (JStr ''r1''),
        FileWrite ''/a.json'' (ex_pretty ''2023-11-14T22:13:20.320Z'' @ [CHR 0x0A]),
        UsageGet (Some (JStr new_token)) (Some (JStr ''acct-1''))]"
    by (simp split: prod.splits)
  have b: "token_posts (trace (snd (collectUsageForAuth ex_env_locked ''/a.json'' ex_world))) = 2"
    unfolding a by (simp add: token_posts_def)
  from run have c: "fst (collectUsageForAuth ex_env_locked ''/a.json'' ex_world) = Inl ex_locked"
    by (simp split: prod.splits)
  show ?thesis by (intro conjI a b c)
qed

text \<open>
  The conversions of \<^verbatim>\<open>mapWindow\<close> at work: the window of the example payload; no
  window; a time of reset that is no number, which is a RangeError, and one that is
  the number in an array; an object with a field \<^verbatim>\<open>toString\<close>, which is a TypeError.
\<close>

lemma mapWindow_examples:
  "mapWindow ex_env (Some ex_window) = Inr (Some ex_window_view)"
  "mapWindow ex_env None = Inr None"
  "mapWindow ex_env (Some (JObj [(''reset_at'', JStr ''soon'')])) = Inl invalid_time"
  "mapWindow ex_env (Some (JObj [(''used_percent'', JArr [JNum 42])]))
     = Inr (Some \<lparr>label = ''unknown'', percentUsed = Fin 42, percentRemaining = Fin 58,
                   windowMinutes = None, resetsAt = None,
                   raw = JObj [(''used_percent'', JArr [JNum 42])]\<rparr>)"
  "mapWindow ex_env (Some (JObj [(''used_percent'', JObj [(''toString'', JNum 1)])]))
     = Inl cannot_convert"
  by code_simp+

text \<open>
  The session of \<^verbatim>\<open>/c.json\<close>, whose access token is stale and which has no refresh
  token: its one request is the usage request with that token, and the 401 it gets is
  its error. With a usage endpoint that accepts the token, the session goes on to
  assemble its result from the payload, and fails there when a window of the payload
  has no valid time of reset.
\<close>

theorem stale_without_refresh_token_witness:
  "\<not> aborted ex_env ex_world
   \<and> loadAuth ex_env ''/c.json'' ex_world = Inr ex_bundle_no_refresh
   \<and> shouldRefreshNow ex_env (clock ex_world)
        (js_get (map_of ex_bundle_no_refresh ''tokens'') ''access_token'')
   \<and> \<not> js_truthy (js_get (map_of ex_bundle_no_refresh ''tokens'') ''refresh_token'')
   \<and> proactiveRefresh ex_env ''/c.json'' ex_bundle_no_refresh ex_world
       = (Inr ex_bundle_no_refresh, ex_world)
   \<and> trace (snd (collectUsageForAuth ex_env ''/c.json'' ex_world))
       = [UsageGet (Some (JStr stale_token)) (Some (JStr ''acct-1''))]
   \<and> fst (collectUsageForAuth ex_env ''/c.json'' ex_world) = Inl ex_401
   \<and> trace (snd (collectUsageForAuth ex_env_soon ''/c.json'' ex_world))
       = [UsageGet (Some (JStr stale_token)) (Some (JStr ''acct-1''))]
   \<and> fst (collectUsageForAuth ex_env_soon ''/c.json'' ex_world) = Inl invalid_time"
proof -
  let ?tokens = "map_of ex_bundle_no_refresh ''tokens''"
  have h1: "\<not> aborted ex_env ex_world" by code_simp
  have h2: "loadAuth ex_env ''/c.json'' ex_world = Inr ex_bundle_no_refresh" by code_simp
  have h3: "shouldRefreshNow ex_env (clock ex_world) (js_get ?tokens ''access_token'')"
    by code_simp
  have h4: "\<not> js_truthy (js_get ?tokens ''refresh_token'')" by code_simp
  have k1: "\<not> aborted ex_env_soon ex_world" by code_simp
  have k2: "loadAuth ex_env_soon ''/c.json'' ex_world = Inr ex_bundle_no_refresh" by code_simp
  have k3: "shouldRefreshNow ex_env_soon (clock ex_world) (js_get ?tokens ''access_token'')"
    by code_simp
  note inst = stale_without_refresh_token [OF h1 h2 h3 h4]
  note inst_soon = stale_without_refresh_token [OF k1 k2 k3 h4]
  from inst have c1: "proactiveRefresh ex_env ''/c.json'' ex_bundle_no_refresh ex_world
       = (Inr ex_bundle_no_refresh, ex_world)"
    by (rule conjunct1)
  have e1: "js_get ?tokens ''access_token'' = Some (JStr stale_token)" by code_simp
  have e2: "resolveAccountId ?tokens (decodeIdToken ex_env (js_get ?tokens ''id_token''))
            = JStr ''acct-1''"
    by code_simp
  have e3: "resolveAccountId ?tokens (decodeIdToken ex_env_soon (js_get ?tokens ''id_token''))
            = JStr ''acct-1''"
    by code_simp
  from inst have "trace (snd (collectUsageForAuth ex_env ''/c.json'' ex_world)) =
        trace ex_world @ [UsageGet (js_get ?tokens ''access_token'')
                     (if truthy (resolveAccountId ?tokens
                          (decodeIdToken ex_env (js_get ?tokens ''id_token'')))
                      then Some (resolveAccountId ?tokens
                          (decodeIdToken ex_env (js_get ?tokens ''id_token'')))
                      else None)]"
    by (elim conjE)
  then have c2: "trace (snd (collectUsageForAuth ex_env ''/c.json'' ex_world))
       = [UsageGet (Some (JStr stale_token)) (Some (JStr ''acct-1''))]"
    unfolding e1 e2 ex_world_trace by simp
  have c3: "fst (collectUsageForAuth ex_env ''/c.json'' ex_world) = Inl ex_401"
    by code_simp
  from inst_soon have "trace (snd (collectUsageForAuth ex_env_soon ''/c.json'' ex_world)) =
        trace ex_world @ [UsageGet (js_get ?tokens ''access_token'')
                     (if truthy (resolveAccountId ?tokens
                          (decodeIdToken ex_env_soon (js_get ?tokens ''id_token'')))
                      then Some (resolveAccountId ?tokens
                          (decodeIdToken ex_env_soon (js_get ?tokens ''id_token'')))
                      else None)]"
    by (elim conjE)
  then have c4: "trace (snd (collectUsageForAuth ex_env_soon ''/c.json'' ex_world))
       = [UsageGet (Some (JStr stale_token)) (Some (JStr ''acct-1''))]"
    unfolding e1 e3 ex_world_trace by simp
  have c5: "fst (collectUsageForAuth ex_env_soon ''/c.json'' ex_world) = Inl invalid_time"
    by code_simp
  show ?thesis
    by (intro conjI h1 h2 h3 h4 c1 c2 c3 c4 c5)
qed

text \<open>
  A pass over a location with no file, \<^verbatim>\<open>/c.json\<close>, whose session fails with the 401 of
  the usage endpoint, and \<^verbatim>\<open>/b.json\<close>, whose session succeeds after a refresh: the first
  two entries hold the errors, the third the result, and the requests of the second and
  of the third session have all been sent. And a pass started after the quit key was
  pressed, which raises the cancellation.
\<close>

lemma ex_pass:
  "(case renderOnce ex_env ex_paths ex_world of
      (r, w') \<Rightarrow>
        r = Inr ex_entries
        \<and> trace w'
            = [UsageGet (Some (JStr stale_token)) (Some (JStr ''acct-1'')),
               UsageGet (Some (JStr fresh_token)) (Some (JStr ''acct-1'')),
               TokenPost (JStr ''r1''),
               FileWrite ''/b.json'' (ex_pretty ''2023-11-14T22:13:20.280Z'' @ [CHR 0x0A]),
               UsageGet (Some (JStr new_token)) (Some (JStr ''acct-1''))])"
  by code_simp

theorem renderOnce_isolates_failures_witness:
  "fst (renderOnce ex_env ex_paths ex_world) = Inr ex_entries
   \<and> sessions_in_order ex_env ex_paths ex_entries ex_world
        (snd (renderOnce ex_env ex_paths ex_world))
   \<and> \<not> aborted ex_env (snd (renderOnce ex_env ex_paths ex_world))
   \<and> length ex_entries = length ex_paths
   \<and> trace (snd (renderOnce ex_env ex_paths ex_world))
       = [UsageGet (Some (JStr stale_token)) (Some (JStr ''acct-1'')),
          UsageGet (Some (JStr fresh_token)) (Some (JStr ''acct-1'')),
          TokenPost (JStr ''r1''),
          FileWrite ''/b.json'' (ex_pretty ''2023-11-14T22:13:20.280Z'' @ [CHR 0x0A]),
          UsageGet (Some (JStr new_token)) (Some (JStr ''acct-1''))]
   \<and> aborted ex_env_quit (ex_world\<lparr>clock := 1700000006250\<rparr>)
   \<and> renderOnce ex_env_quit ex_paths (ex_world\<lparr>clock := 1700000006250\<rparr>)
       = (Inl abortError, ex_world\<lparr>clock := 1700000006250\<rparr>)
   \<and> isAbortError abortError"
proof -
  let ?w' = "snd (renderOnce ex_env ex_paths ex_world)"
  let ?late = "ex_world\<lparr>clock := 1700000006250\<rparr>"
  note rule = renderOnce_isolates_failures [of ex_env ex_paths ex_world ex_entries ?w']
  note rule_quit = renderOnce_isolates_failures
    [of ex_env_quit ex_paths ?late _ ?late abortError]
  have r: "fst (renderOnce ex_env ex_paths ex_world) = Inr ex_entries"
    using ex_pass by (simp split: prod.splits)
  then have run: "renderOnce ex_env ex_paths ex_world = (Inr ex_entries, ?w')"
    by (simp add: prod_eq_iff)
  from rule run have c1: "sessions_in_order ex_env ex_paths ex_entries ex_world ?w'"
    and c2: "\<not> aborted ex_env ?w'" and c3: "length ex_entries = length ex_paths"
    by blast+
  have c4: "trace ?w'
       = [UsageGet (Some (JStr stale_token)) (Some (JStr ''acct-1'')),
          UsageGet (Some (JStr fresh_token)) (Some (JStr ''acct-1'')),
          TokenPost (JStr ''r1''),
          FileWrite ''/b.json'' (ex_pretty ''2023-11-14T22:13:20.280Z'' @ [CHR 0x0A]),
          UsageGet (Some (JStr new_token)) (Some (JStr ''acct-1''))]"
    using ex_pass by (simp split: prod.splits)
  have q: "aborted ex_env_quit ?late"
    by (simp add: aborted_def ex_env_quit_def)
  from rule_quit q have c5: "renderOnce ex_env_quit ex_paths ?late = (Inl abortError, ?late)"
    by blast
  from rule_quit c5 have c6: "isAbortError abortError" by blast
  show ?thesis by (intro conjI r c1 c2 c3 c4 q c5 c6)
qed

end
